theory Spec2Isabelle
  imports Complex_Main "HOL-Library.Multiset"
begin

section \<open>Numbers: IEEE doubles in the normal range\<close>

text \<open>
  A TypeScript \<open>number\<close> is an IEEE binary64 value. It is modelled by the real it
  denotes, and every arithmetic operation of the source rounds its exact result to the
  nearest value with 53 significant bits, ties to even (\<open>fl\<close>). The exponent range is
  not bounded: overflow to \<open>Infinity\<close>, subnormal numbers and \<open>NaN\<close> are outside the
  model, and a statement about values that could leave the normal range carries a bound
  on them. A quotient whose divisor can be zero in the source is an option (\<open>None\<close>
  where JavaScript yields \<open>NaN\<close> or an infinity). Counts and array indices are naturals;
  they are below \<open>2 ^ 53\<close> and exact as numbers.
\<close>

definition round_even :: "real \<Rightarrow> int" where
  "round_even y =
     (let f = \<lfloor>y\<rfloor>; r = y - of_int f
      in if r < 1 / 2 then f else if 1 / 2 < r then f + 1 else if even f then f else f + 1)"

definition fl :: "real \<Rightarrow> real" where
  "fl x = (if x = 0 then 0
           else let e = \<lfloor>log 2 \<bar>x\<bar>\<rfloor> - 52
                in of_int (round_even (x / 2 powi e)) * 2 powi e)"

definition fadd :: "real \<Rightarrow> real \<Rightarrow> real" where
  "fadd a b = fl (a + b)"

definition fsub :: "real \<Rightarrow> real \<Rightarrow> real" where
  "fsub a b = fl (a - b)"

definition fmul :: "real \<Rightarrow> real \<Rightarrow> real" where
  "fmul a b = fl (a * b)"

text \<open>\<open>a / b\<close> at a place where the divisor is not zero.\<close>

definition fdiv :: "real \<Rightarrow> real \<Rightarrow> real" where
  "fdiv a b = fl (a / b)"

text \<open>\<open>a / b\<close> where \<open>b\<close> may be zero.\<close>

definition js_div :: "real \<Rightarrow> real \<Rightarrow> real option" where
  "js_div a b = (if b = 0 then None else Some (fl (a / b)))"

text \<open>\<open>Math.sqrt(x)\<close> and \<open>Math.pow(x, 2)\<close>, taken as correctly rounded.\<close>

definition fsqrt :: "real \<Rightarrow> real" where
  "fsqrt x = fl (sqrt x)"

definition pow2 :: "real \<Rightarrow> real" where
  "pow2 x = fl (x * x)"

text \<open>\<open>Math.round\<close> is exact: the nearest integer, halves up.\<close>

definition Math_round :: "real \<Rightarrow> int" where
  "Math_round x = \<lfloor>x + 1 / 2\<rfloor>"

text \<open>\<open>Math.round(x * 100) / 100\<close>.\<close>

definition round2 :: "real \<Rightarrow> real" where
  "round2 x = fdiv (real_of_int (Math_round (fmul x 100))) 100"

subsection \<open>Properties of rounding\<close>

lemma round_even_of_int [simp]: "round_even (of_int m) = m"
  by (simp add: round_even_def)

lemma round_even_error: "\<bar>of_int (round_even y) - y\<bar> \<le> 1 / 2"
  unfolding round_even_def Let_def by (auto simp: abs_if) linarith+

lemma fl_0 [simp]: "fl 0 = 0"
  by (simp add: fl_def)

lemma powr_powi: "(2::real) powr real_of_int e = 2 powi e"
  by (rule powr_real_of_int') simp_all

lemma floor_log2_eq:
  assumes "2 powi e \<le> \<bar>x\<bar>" and "\<bar>x\<bar> < 2 powi (e + 1)"
  shows "\<lfloor>log 2 \<bar>x\<bar>\<rfloor> = e"
proof -
  have "(0 :: real) < 2 powi e" by simp
  with assms(1) have pos: "0 < \<bar>x\<bar>" by linarith
  have "2 powr real_of_int e \<le> \<bar>x\<bar> \<and> \<bar>x\<bar> < 2 powr (real_of_int e + 1)"
    using assms powr_powi [of e] powr_powi [of "e + 1"] by simp
  with pos show ?thesis by (simp add: floor_log_eq_powr_iff)
qed

lemma floor_log2_bounds:
  assumes "x \<noteq> 0"
  shows "2 powi \<lfloor>log 2 \<bar>x\<bar>\<rfloor> \<le> \<bar>x\<bar>" and "\<bar>x\<bar> < 2 powi (\<lfloor>log 2 \<bar>x\<bar>\<rfloor> + 1)"
proof -
  have pos: "0 < \<bar>x\<bar>" using assms by simp
  have "2 powr real_of_int \<lfloor>log 2 \<bar>x\<bar>\<rfloor> \<le> \<bar>x\<bar> \<and> \<bar>x\<bar> < 2 powr (real_of_int \<lfloor>log 2 \<bar>x\<bar>\<rfloor> + 1)"
    using floor_log_eq_powr_iff [OF pos, of 2 "\<lfloor>log 2 \<bar>x\<bar>\<rfloor>"] by simp
  then show "2 powi \<lfloor>log 2 \<bar>x\<bar>\<rfloor> \<le> \<bar>x\<bar>" and "\<bar>x\<bar> < 2 powi (\<lfloor>log 2 \<bar>x\<bar>\<rfloor> + 1)"
    using powr_powi [of "\<lfloor>log 2 \<bar>x\<bar>\<rfloor>"] powr_powi [of "\<lfloor>log 2 \<bar>x\<bar>\<rfloor> + 1"] by simp_all
qed

lemma fl_eval:
  assumes "2 powi e \<le> \<bar>x\<bar>" and "\<bar>x\<bar> < 2 powi (e + 1)"
  shows "fl x = of_int (round_even (x / 2 powi (e - 52))) * 2 powi (e - 52)"
proof -
  have "(0 :: real) < 2 powi e" by simp
  with assms(1) have "0 < \<bar>x\<bar>" by linarith
  then have "x \<noteq> 0" by simp
  then show ?thesis using floor_log2_eq [OF assms] by (simp add: fl_def Let_def)
qed

lemma fl_error: "\<bar>fl x - x\<bar> \<le> \<bar>x\<bar> / 2 ^ 53"
proof (cases "x = 0")
  case True
  then show ?thesis by simp
next
  case False
  define e where "e = \<lfloor>log 2 \<bar>x\<bar>\<rfloor>"
  define p :: real where "p = 2 powi (e - 52)"
  have p: "0 < p" by (simp add: p_def)
  have lo: "2 powi e \<le> \<bar>x\<bar>" using floor_log2_bounds(1) [OF False] by (simp add: e_def)
  have flx: "fl x = of_int (round_even (x / p)) * p"
    using False by (simp add: fl_def e_def p_def Let_def)
  have "fl x - x = (of_int (round_even (x / p)) - x / p) * p"
    using p unfolding flx by (simp add: left_diff_distrib)
  then have "\<bar>fl x - x\<bar> = \<bar>of_int (round_even (x / p)) - x / p\<bar> * p"
    using p by (simp add: abs_mult)
  also have "\<dots> \<le> 1 / 2 * p" using round_even_error [of "x / p"] p by (simp add: mult_right_mono)
  also have "1 / 2 * p = 2 powi e / 2 ^ 53"
    by (simp add: p_def power_int_diff)
  also have "\<dots> \<le> \<bar>x\<bar> / 2 ^ 53" using lo by (simp add: divide_right_mono)
  finally show ?thesis .
qed

lemma fl_of_int:
  assumes "\<bar>m\<bar> \<le> 2 ^ 53"
  shows "fl (of_int m) = of_int m"
proof (cases "m = 0")
  case True
  then show ?thesis by simp
next
  case False
  define x :: real where "x = of_int m"
  define e where "e = \<lfloor>log 2 \<bar>x\<bar>\<rfloor>"
  have x0: "x \<noteq> 0" using False by (simp add: x_def)
  have "2 powi e \<le> \<bar>x\<bar>" using floor_log2_bounds(1) [OF x0] by (simp add: e_def)
  also have "\<bar>x\<bar> \<le> 2 powi 53" using assms unfolding x_def
    by (metis of_int_abs of_int_le_iff of_int_numeral of_int_power power_int_numeral)
  finally have "(2::real) powi e \<le> 2 powi 53" .
  then have "e \<le> 53" by (rule power_int_le_imp_le_exp [rotated]) simp_all
  show ?thesis
  proof (cases "e \<le> 52")
    case True
    then obtain k where k: "52 - e = int k" by (metis diff_ge_0_iff_ge nonneg_int_cases)
    have "x / 2 powi (e - 52) = x * 2 powi (52 - e)"
      by (simp add: power_int_diff field_simps)
    also have "\<dots> = of_int (m * 2 ^ k)" by (simp add: k x_def)
    finally have "round_even (x / 2 powi (e - 52)) = m * 2 ^ k" by (simp only: round_even_of_int)
    then have "fl x = of_int (m * 2 ^ k) * 2 powi (e - 52)"
      using x0 by (simp add: fl_def e_def Let_def)
    also have "\<dots> = x * (2 powi (52 - e) * 2 powi (e - 52))" by (simp add: k x_def)
    also have "2 powi (52 - e) * 2 powi (e - 52) = (1::real)"
      by (simp add: power_int_add [symmetric])
    finally show ?thesis by (simp add: x_def)
  next
    case False
    with \<open>e \<le> 53\<close> have e: "e = 53" by simp
    have "2 powi 53 \<le> \<bar>x\<bar>" using floor_log2_bounds(1) [OF x0] e by (simp add: e_def)
    with \<open>\<bar>x\<bar> \<le> 2 powi 53\<close> have ax: "\<bar>x\<bar> = 2 ^ 53" by simp
    then have "x = 2 ^ 53 \<or> x = - (2 ^ 53)" by (simp add: abs_if split: if_splits)
    then have "round_even (x / 2 powi (e - 52)) = \<lfloor>x / 2\<rfloor> \<and> of_int \<lfloor>x / 2\<rfloor> = x / 2"
      unfolding e by (auto simp: round_even_def)
    then show ?thesis using x0 e by (simp add: fl_def Let_def e_def [symmetric] x_def [symmetric])
  qed
qed

lemma fl_Ints: "x \<in> \<int> \<Longrightarrow> \<bar>x\<bar> \<le> 2 ^ 53 \<Longrightarrow> fl x = x"
proof -
  assume "x \<in> \<int>" and b: "\<bar>x\<bar> \<le> 2 ^ 53"
  then obtain m where m: "x = of_int m" by (auto elim: Ints_cases)
  with b have "real_of_int \<bar>m\<bar> \<le> real_of_int (2 ^ 53)" by simp
  then have "\<bar>m\<bar> \<le> 2 ^ 53" by (simp only: of_int_le_iff)
  then show ?thesis unfolding m by (rule fl_of_int)
qed

lemma fl_numeral [simp]: "(numeral n :: int) \<le> 2 ^ 53 \<Longrightarrow> fl (numeral n) = numeral n"
  using fl_of_int [of "numeral n"] by simp

lemma fl_1 [simp]: "fl 1 = 1"
  using fl_of_int [of 1] by simp

lemma fl_of_nat: "n \<le> 2 ^ 53 \<Longrightarrow> fl (real n) = real n"
  using fl_of_int [of "int n"] by simp

lemma fl_lower: "0 \<le> x \<Longrightarrow> x * (1 - 1 / 2 ^ 53) \<le> fl x"
  using fl_error [of x] by (simp add: abs_if algebra_simps split: if_splits)

lemma fl_upper: "0 \<le> x \<Longrightarrow> fl x \<le> x * (1 + 1 / 2 ^ 53)"
  using fl_error [of x] by (simp add: abs_if algebra_simps split: if_splits)

lemma fl_pos: "0 < x \<Longrightarrow> 0 < fl x"
proof -
  assume x: "0 < x"
  then have "0 < x * (1 - 1 / 2 ^ 53)" by simp
  also have "\<dots> \<le> fl x" using x by (intro fl_lower) simp
  finally show ?thesis .
qed

lemma fl_nonneg: "0 \<le> x \<Longrightarrow> 0 \<le> fl x"
  using fl_pos [of x] by (cases "x = 0") simp_all

lemma fl_neg: "x < 0 \<Longrightarrow> fl x < 0"
proof -
  assume x: "x < 0"
  have "fl x \<le> x + \<bar>x\<bar> / 2 ^ 53" using fl_error [of x] by (simp add: abs_if split: if_splits)
  also have "\<dots> = x * (1 - 1 / 2 ^ 53)" using x by (simp add: algebra_simps)
  also have "\<dots> < 0" using x by (simp add: mult_neg_pos)
  finally show ?thesis .
qed

text \<open>
  A rounded difference has the sign of the exact one: a comparator \<open>(a, b) => b - a\<close>
  orders by the exact values.
\<close>

lemma fsub_sign: "(fsub b a < 0) = (b < a) \<and> (fsub b a = 0) = (b = a) \<and> (0 < fsub b a) = (a < b)"
  using fl_neg [of "b - a"] fl_pos [of "b - a"] fl_0
  by (cases "b < a"; cases "b = a") (auto simp: fsub_def not_less less_eq_real_def)

lemma powi_52: "(2::real) powi e = 2 ^ 52 * 2 powi (e - 52)"
proof -
  have "(2::real) powi (52 + (e - 52)) = 2 powi 52 * 2 powi (e - 52)"
    by (rule power_int_add) simp
  then show ?thesis by simp
qed

lemma powi_53: "(2::real) powi (e + 1) = 2 ^ 53 * 2 powi (e - 52)"
proof -
  have "(2::real) powi (53 + (e - 52)) = 2 powi 53 * 2 powi (e - 52)"
    by (rule power_int_add) simp
  moreover have "53 + (e - 52) = e + 1" by simp
  ultimately show ?thesis by simp
qed

lemma fl_idem: "fl (fl x) = fl x"
proof (cases "x = 0")
  case True
  then show ?thesis by simp
next
  case False
  define e where "e = \<lfloor>log 2 \<bar>x\<bar>\<rfloor>"
  define m where "m = round_even (x / 2 powi (e - 52))"
  have flx: "fl x = of_int m * 2 powi (e - 52)"
    using False by (simp add: fl_def Let_def e_def m_def)
  have lo: "2 powi e \<le> \<bar>x\<bar>" and hi: "\<bar>x\<bar> < 2 powi (e + 1)"
    using floor_log2_bounds [OF False] by (simp_all add: e_def)
  have p: "(0::real) < 2 powi (e - 52)" by simp
  have "\<bar>x / 2 powi (e - 52)\<bar> = \<bar>x\<bar> * 2 powi (52 - e)"
    by (simp add: power_int_diff field_simps abs_mult)
  moreover have "2 powi e * 2 powi (52 - e) = (2::real) ^ 52"
    by (simp add: power_int_add [symmetric])
  moreover have "2 powi (e + 1) * 2 powi (52 - e) = (2::real) ^ 53"
    by (simp add: power_int_add [symmetric])
  ultimately have y: "2 ^ 52 \<le> \<bar>x / 2 powi (e - 52)\<bar>" "\<bar>x / 2 powi (e - 52)\<bar> < 2 ^ 53"
    using lo hi mult_right_mono [of "2 powi e" "\<bar>x\<bar>" "2 powi (52 - e)"]
      mult_strict_right_mono [of "\<bar>x\<bar>" "2 powi (e + 1)" "2 powi (52 - e)"] by simp_all
  have err: "\<bar>of_int m - x / 2 powi (e - 52)\<bar> \<le> 1 / 2" unfolding m_def by (rule round_even_error)
  have mlo: "2 ^ 52 \<le> \<bar>m\<bar>"
  proof -
    have "2 ^ 52 - 1 / 2 \<le> \<bar>real_of_int m\<bar>" using y(1) err by linarith
    then have "real_of_int (2 ^ 52 - 1) < real_of_int \<bar>m\<bar>" by simp
    then have "2 ^ 52 - 1 < \<bar>m\<bar>" by (simp only: of_int_less_iff)
    then show ?thesis by simp
  qed
  have mhi: "\<bar>m\<bar> \<le> 2 ^ 53"
  proof -
    have "\<bar>real_of_int m\<bar> < 2 ^ 53 + 1 / 2" using y(2) err by linarith
    then have "real_of_int \<bar>m\<bar> < real_of_int (2 ^ 53 + 1)" by simp
    then have "\<bar>m\<bar> < 2 ^ 53 + 1" by (simp only: of_int_less_iff)
    then show ?thesis by simp
  qed
  show ?thesis
  proof (cases "\<bar>m\<bar> = 2 ^ 53")
    case True
    then have am: "\<bar>real_of_int m\<bar> = 2 ^ 53" by (metis of_int_abs of_int_numeral of_int_power)
    have "\<bar>fl x\<bar> = 2 ^ 53 * 2 powi (e - 52)" unfolding flx using am by (simp add: abs_mult)
    also have "\<dots> = 2 powi (e + 1)" by (simp only: powi_53)
    finally have ab: "\<bar>fl x\<bar> = 2 powi (e + 1)" .
    have up: "(2::real) powi (e + 1) < 2 powi (e + 1 + 1)"
      by (rule power_int_strict_increasing) simp_all
    have "fl (fl x) = of_int (round_even (fl x / 2 powi (e + 1 - 52))) * 2 powi (e + 1 - 52)"
      by (rule fl_eval) (simp_all only: ab up order_refl)
    moreover have "fl x / 2 powi (e + 1 - 52) = of_int m / 2"
      unfolding flx by (simp add: power_int_diff power_int_add field_simps)
    moreover have "\<exists>k. m = 2 * k" using True by (auto simp: abs_if split: if_splits intro: exI [where x = "2 ^ 52"] exI [where x = "- (2 ^ 52)"])
    then obtain k where k: "m = 2 * k" ..
    ultimately have "fl (fl x) = of_int k * 2 powi (e + 1 - 52)" by (simp add: k)
    also have "\<dots> = of_int m * 2 powi (e - 52)"
      by (simp add: k power_int_diff power_int_add field_simps)
    finally show ?thesis by (simp add: flx)
  next
    case False
    with mhi have "\<bar>m\<bar> < 2 ^ 53" by simp
    then have am: "\<bar>real_of_int m\<bar> < 2 ^ 53" by (metis of_int_abs of_int_less_iff of_int_numeral of_int_power)
    from mlo have am': "2 ^ 52 \<le> \<bar>real_of_int m\<bar>" by (metis of_int_abs of_int_le_iff of_int_numeral of_int_power)
    have ab: "\<bar>fl x\<bar> = \<bar>real_of_int m\<bar> * 2 powi (e - 52)" unfolding flx by (simp add: abs_mult)
    have "2 powi e = (2::real) ^ 52 * 2 powi (e - 52)" by (rule powi_52)
    then have l: "2 powi e \<le> \<bar>fl x\<bar>" unfolding ab using am' p by (simp add: mult_right_mono)
    have "2 powi (e + 1) = (2::real) ^ 53 * 2 powi (e - 52)" by (rule powi_53)
    then have h: "\<bar>fl x\<bar> < 2 powi (e + 1)" unfolding ab using am p by (simp add: mult_strict_right_mono)
    have "fl (fl x) = of_int (round_even (fl x / 2 powi (e - 52))) * 2 powi (e - 52)"
      using l h by (rule fl_eval)
    also have "fl x / 2 powi (e - 52) = of_int m" unfolding flx by simp
    finally show ?thesis by (simp add: flx)
  qed
qed

section \<open>Dates and the runtime's time zone\<close>

text \<open>
  A date is the ISO string \<open>YYYY-MM-DD\<close> in the source. It is modelled by its day
  number (days since 1970-01-01): the order of zero-padded ISO strings is the order of
  the day numbers. A \<open>Date\<close> object is its time value, in milliseconds since the epoch.

  The runtime's time zone is a parameter: \<open>tz t True\<close> is the offset of local time at
  the UTC time \<open>t\<close>, and \<open>tz t False\<close> the offset by which the local time \<open>t\<close> is read
  back as UTC (\<open>LocalTZA\<close> of the language specification), in milliseconds.
\<close>

type_synonym date = int

type_synonym timezone = "int \<Rightarrow> bool \<Rightarrow> int"

definition msPerDay :: int where
  "msPerDay = 86400000"

text \<open>\<open>new Date(s)\<close> for a date-only ISO string: midnight UTC of that day.\<close>

definition parse_date :: "date \<Rightarrow> int" where
  "parse_date s = s * msPerDay"

text \<open>\<open>d.toISOString().split('T')[0]\<close>: the UTC day of the time value.\<close>

definition toISODate :: "int \<Rightarrow> date" where
  "toISODate t = t div msPerDay"

text \<open>
  \<open>d.setDate(d.getDate() + k)\<close>: the time value is taken to local time, moved by
  \<open>k\<close> calendar days at the same local time of day, and read back as UTC.
\<close>

definition addDays :: "timezone \<Rightarrow> int \<Rightarrow> int \<Rightarrow> int" where
  "addDays tz t k =
     (let localTime = t + tz t True;
          moved = localTime + k * msPerDay
      in moved - tz moved False)"

text \<open>
  Time zones: UTC, India (no change of offset), New York around the end of daylight
  saving time on 3 November 2024 (06:00 UTC), and Berlin around its start on
  29 March 2026 (01:00 UTC). A local time in the hour that is skipped or repeated is
  read with the offset before the change.
\<close>

definition UTC :: timezone where
  "UTC t isUTC = 0"

definition Asia_Kolkata :: timezone where
  "Asia_Kolkata t isUTC = 19800000"

definition America_New_York_2024 :: timezone where
  "America_New_York_2024 t isUTC =
     (if isUTC then (if t < 1730613600000 then - 14400000 else - 18000000)
      else (if t < 1730613600000 - 14400000 then - 14400000 else - 18000000))"

definition Europe_Berlin_2026 :: timezone where
  "Europe_Berlin_2026 t isUTC =
     (if isUTC then (if t < 1774746000000 then 3600000 else 7200000)
      else (if t < 1774746000000 + 7200000 then 3600000 else 7200000))"

section \<open>JavaScript containers\<close>

text \<open>
  A JavaScript \<open>Map\<close> iterates in insertion order, and \<open>set\<close> on a present key keeps
  the key's position: an association list, read by \<open>map_of\<close>.
\<close>

fun Map_set :: "'k \<Rightarrow> 'v \<Rightarrow> ('k \<times> 'v) list \<Rightarrow> ('k \<times> 'v) list" where
  "Map_set k v [] = [(k, v)]"
| "Map_set k v ((k', v') # m) =
     (if k' = k then (k, v) # m else (k', v') # Map_set k v m)"

text \<open>A JavaScript \<open>Set\<close>, likewise in insertion order.\<close>

definition Set_add :: "'a \<Rightarrow> 'a list \<Rightarrow> 'a list" where
  "Set_add x s = (if x \<in> set s then s else s @ [x])"

definition new_Set :: "'a list \<Rightarrow> 'a list" where
  "new_Set xs = foldl (\<lambda>s x. Set_add x s) [] xs"

text \<open>
  \<open>xs.sort((a, b) => f(b) - f(a))\<close>: a stable sort, descending in \<open>f\<close>
  (\<open>Array.prototype.sort\<close> is stable since ES2019). By \<open>fsub_sign\<close> the rounded
  difference orders as the exact values do.
\<close>

definition sort_desc :: "('a \<Rightarrow> real) \<Rightarrow> 'a list \<Rightarrow> 'a list" where
  "sort_desc f xs = sort_key (\<lambda>x. - f x) xs"

section \<open>The record model (types/index.ts)\<close>

datatype batch_type = PS | FS

record SalesRecord =
  HSNCODE :: string
  ITNAME :: string
  QTY :: real
  TAXBLEAMT :: real
  GST :: real
  company :: "string option"

record DailySales =
  date :: date
  type :: batch_type
  records :: "SalesRecord list"
  totalAmount :: real
  totalQuantity :: real

record ProductSales =
  productName :: string
  totalQty :: real
  totalAmount :: real
  avgPrice :: "real option"
  company :: "string option"

record CompanySales =
  companyName :: string
  totalAmount :: real
  totalQuantity :: real
  productCount :: nat
  products :: "ProductSales list"

section \<open>Aggregation (utils/dataLoader.ts)\<close>

text \<open>The accumulator \<open>{ qty, amount }\<close> of the product maps.\<close>

record ProductAcc =
  qty :: real
  amount :: real

definition productMap_record :: "(string \<times> ProductAcc) list \<Rightarrow> SalesRecord \<Rightarrow> (string \<times> ProductAcc) list" where
  "productMap_record productMap record =
     (let existing = (case map_of productMap (ITNAME record) of
                        Some e \<Rightarrow> e
                      | None \<Rightarrow> \<lparr>ProductAcc.qty = 0, ProductAcc.amount = 0\<rparr>)
      in Map_set (ITNAME record)
           \<lparr>ProductAcc.qty = fadd (ProductAcc.qty existing) (QTY record),
            ProductAcc.amount = fadd (ProductAcc.amount existing) (TAXBLEAMT record)\<rparr> productMap)"

definition aggregateByProduct :: "DailySales list \<Rightarrow> ProductSales list" where
  "aggregateByProduct salesData =
     (let productMap = foldl (\<lambda>m daily. foldl productMap_record m (DailySales.records daily)) [] salesData
      in sort_desc ProductSales.totalAmount
           (map (\<lambda>(productName, data).
                   \<lparr>ProductSales.productName = productName,
                    ProductSales.totalQty = ProductAcc.qty data,
                    ProductSales.totalAmount = ProductAcc.amount data,
                    ProductSales.avgPrice = js_div (ProductAcc.amount data) (ProductAcc.qty data),
                    ProductSales.company = None\<rparr>) productMap))"

definition getTotalSales :: "DailySales list \<Rightarrow> real" where
  "getTotalSales salesData = foldl (\<lambda>sum daily. fadd sum (DailySales.totalAmount daily)) 0 salesData"

definition getTotalQuantity :: "DailySales list \<Rightarrow> real" where
  "getTotalQuantity salesData = foldl (\<lambda>sum daily. fadd sum (DailySales.totalQuantity daily)) 0 salesData"

text \<open>
  The totals a batch carries, as \<open>loadXLSFile\<close> computes them when it builds the batch:
  the two \<open>reduce\<close> calls over its records.
\<close>

definition batch_totals_ok :: "DailySales \<Rightarrow> bool" where
  "batch_totals_ok daily =
     (DailySales.totalAmount daily = foldl (\<lambda>sum r. fadd sum (TAXBLEAMT r)) 0 (DailySales.records daily) \<and>
      DailySales.totalQuantity daily = foldl (\<lambda>sum r. fadd sum (QTY r)) 0 (DailySales.records daily))"

subsection \<open>Company enrichment\<close>

record CompanyMapper =
  productToCompany :: "(string \<times> string) list"
  companyProducts :: "(string \<times> string list) list"

text \<open>\<open>toLowerCase\<close> and \<open>trim\<close>, on ASCII.\<close>

definition toLowerCase_char :: "char \<Rightarrow> char" where
  "toLowerCase_char c =
     (case map_of (zip ''ABCDEFGHIJKLMNOPQRSTUVWXYZ'' ''abcdefghijklmnopqrstuvwxyz'') c of
        Some l \<Rightarrow> l
      | None \<Rightarrow> c)"

definition is_space :: "char \<Rightarrow> bool" where
  "is_space c = (c \<in> set [CHR 0x09, CHR 0x0A, CHR 0x0B, CHR 0x0C, CHR 0x0D, CHR '' ''])"

definition trim :: "string \<Rightarrow> string" where
  "trim s = rev (dropWhile is_space (rev (dropWhile is_space s)))"

definition normalizeProductName :: "string \<Rightarrow> string" where
  "normalizeProductName name = trim (map toLowerCase_char name)"

definition getCompanyForProduct :: "CompanyMapper \<Rightarrow> string \<Rightarrow> string option" where
  "getCompanyForProduct mapper name =
     (let normalized = normalizeProductName name
      in map_of (productToCompany mapper) normalized)"

text \<open>
  The body of the inner \<open>forEach\<close>: \<open>if (company)\<close> is false for \<open>undefined\<close> and for
  the empty string. The source mutates the record; the model returns it.
\<close>

definition enrich_record :: "CompanyMapper \<Rightarrow> SalesRecord \<Rightarrow> SalesRecord" where
  "enrich_record companyMapper record =
     (case getCompanyForProduct companyMapper (ITNAME record) of
        None \<Rightarrow> record
      | Some c \<Rightarrow> if c \<noteq> [] then record\<lparr>SalesRecord.company := Some c\<rparr> else record)"

definition enrichWithCompanyData :: "DailySales list \<Rightarrow> CompanyMapper \<Rightarrow> DailySales list" where
  "enrichWithCompanyData salesData companyMapper =
     map (\<lambda>daily. daily\<lparr>DailySales.records := map (enrich_record companyMapper) (DailySales.records daily)\<rparr>) salesData"

subsection \<open>Aggregation by company\<close>

record CompanyAcc =
  amount :: real
  qty :: real
  products :: "(string \<times> ProductAcc) list"

definition companyMap_record :: "(string \<times> CompanyAcc) list \<Rightarrow> SalesRecord \<Rightarrow> (string \<times> CompanyAcc) list" where
  "companyMap_record companyMap record =
     (let company = (case SalesRecord.company record of
                       Some c \<Rightarrow> if c \<noteq> [] then c else ''Unknown''
                     | None \<Rightarrow> ''Unknown'');
          companyData = (case map_of companyMap company of
                           Some d \<Rightarrow> d
                         | None \<Rightarrow> \<lparr>CompanyAcc.amount = 0, CompanyAcc.qty = 0, CompanyAcc.products = []\<rparr>);
          productData = (case map_of (CompanyAcc.products companyData) (ITNAME record) of
                           Some p \<Rightarrow> p
                         | None \<Rightarrow> \<lparr>ProductAcc.qty = 0, ProductAcc.amount = 0\<rparr>)
      in Map_set company
           \<lparr>CompanyAcc.amount = fadd (CompanyAcc.amount companyData) (TAXBLEAMT record),
            CompanyAcc.qty = fadd (CompanyAcc.qty companyData) (QTY record),
            CompanyAcc.products = Map_set (ITNAME record)
               \<lparr>ProductAcc.qty = fadd (ProductAcc.qty productData) (QTY record),
                ProductAcc.amount = fadd (ProductAcc.amount productData) (TAXBLEAMT record)\<rparr>
               (CompanyAcc.products companyData)\<rparr> companyMap)"

definition aggregateByCompany :: "DailySales list \<Rightarrow> CompanySales list" where
  "aggregateByCompany salesData =
     (let companyMap = foldl (\<lambda>m daily. foldl companyMap_record m (DailySales.records daily)) [] salesData
      in sort_desc CompanySales.totalAmount
           (map (\<lambda>(companyName, data).
                   (let products = map (\<lambda>(productName, productData).
                            \<lparr>ProductSales.productName = productName,
                             ProductSales.totalQty = ProductAcc.qty productData,
                             ProductSales.totalAmount = ProductAcc.amount productData,
                             ProductSales.avgPrice = js_div (ProductAcc.amount productData) (ProductAcc.qty productData),
                             ProductSales.company = Some companyName\<rparr>) (CompanyAcc.products data)
                    in \<lparr>CompanySales.companyName = companyName,
                        CompanySales.totalAmount = CompanyAcc.amount data,
                        CompanySales.totalQuantity = CompanyAcc.qty data,
                        CompanySales.productCount = length (CompanyAcc.products data),
                        CompanySales.products = sort_desc ProductSales.totalAmount products\<rparr>)) companyMap))"




subsection \<open>Totals under double addition\<close>

text \<open>Sorting permutes, so it keeps every sum.\<close>

lemma sum_list_insort_key:
  "sum_list (map f (insort_key k x xs)) = (f x :: real) + sum_list (map f xs)"
  by (induction xs) auto

lemma sum_list_sort_desc:
  "sum_list (map f (sort_desc g xs)) = sum_list (map (f :: 'a \<Rightarrow> real) xs)"
  unfolding sort_desc_def sort_key_def
  by (induction xs) (simp_all add: sum_list_insort_key)

lemma list_all_sort_desc: "list_all P (sort_desc g xs) = list_all P xs"
  by (simp add: sort_desc_def list_all_iff)

text \<open>Additions of whole numbers that stay within \<open>2 ^ 53\<close> are exact.\<close>

lemma fadd_exact:
  assumes "a \<in> \<int>" and "b \<in> \<int>" and "\<bar>a\<bar> + \<bar>b\<bar> \<le> 2 ^ 53"
  shows "fadd a b = a + b"
proof -
  have "\<bar>a + b\<bar> \<le> 2 ^ 53" using assms(3) by linarith
  then show ?thesis using assms(1,2) by (simp add: fadd_def fl_Ints)
qed

lemma fsum_exact:
  assumes "list_all (\<lambda>r. x r \<in> \<int>) rs" and "a \<in> \<int>"
    and "\<bar>a\<bar> + sum_list (map (\<lambda>r. \<bar>x r\<bar>) rs) \<le> 2 ^ 53"
  shows "foldl (\<lambda>s r. fadd s (x r)) a rs = a + sum_list (map x rs)"
  using assms
proof (induction rs arbitrary: a)
  case Nil
  then show ?case by simp
next
  case (Cons r rs)
  have nn: "0 \<le> sum_list (map (\<lambda>r. \<bar>x r\<bar>) rs)" by (rule sum_list_nonneg) auto
  from Cons.prems have step: "fadd a (x r) = a + x r"
    using nn by (intro fadd_exact) simp_all
  have "\<bar>a + x r\<bar> + sum_list (map (\<lambda>r. \<bar>x r\<bar>) rs) \<le> 2 ^ 53"
    using Cons.prems(3) by simp
  with Cons.prems Cons.IH [of "a + x r"] show ?case by (simp add: step)
qed

lemma sum_list_abs: "\<bar>sum_list (map x rs)\<bar> \<le> sum_list (map (\<lambda>r. \<bar>x r :: real\<bar>) rs)"
proof (induction rs)
  case Nil
  then show ?case by simp
next
  case (Cons r rs)
  then show ?case by simp
qed

lemma sum_list_Ints: "list_all (\<lambda>r. x r \<in> \<int>) rs \<Longrightarrow> sum_list (map x rs) \<in> (\<int> :: real set)"
  by (induction rs) simp_all

text \<open>
  The accumulators of a map: whole numbers whose absolute values add up to at most
  \<open>b\<close>.
\<close>

definition acc_inv :: "('v \<Rightarrow> real) \<Rightarrow> ('k \<times> 'v) list \<Rightarrow> real \<Rightarrow> bool" where
  "acc_inv g m b =
     (list_all (\<lambda>kv. g (snd kv) \<in> \<int>) m \<and> sum_list (map (\<lambda>kv. \<bar>g (snd kv)\<bar>) m) \<le> b)"

lemma sum_list_Map_set:
  "sum_list (map (\<lambda>kv. h (snd kv)) (Map_set k v m)) =
     sum_list (map (\<lambda>kv. h (snd kv)) m) - (case map_of m k of None \<Rightarrow> 0 | Some e \<Rightarrow> h e) + (h v :: real)"
  by (induction m) auto

lemma list_all_Map_set:
  "list_all P m \<Longrightarrow> P (k, v) \<Longrightarrow> list_all P (Map_set k v m)"
  by (induction m) auto

lemma existing_Ints:
  "list_all (\<lambda>kv. g (snd kv) \<in> \<int>) m \<Longrightarrow>
     (case map_of m k of None \<Rightarrow> 0 | Some e \<Rightarrow> g e) \<in> (\<int> :: real set)"
  by (induction m) auto

lemma existing_abs:
  "\<bar>case map_of m k of None \<Rightarrow> 0 | Some e \<Rightarrow> g e\<bar> =
     (case map_of m k of None \<Rightarrow> 0 | Some e \<Rightarrow> \<bar>g e :: real\<bar>)"
  by (simp split: option.split)

lemma existing_le:
  "(case map_of m k of None \<Rightarrow> 0 | Some e \<Rightarrow> \<bar>g e :: real\<bar>) \<le> sum_list (map (\<lambda>kv. \<bar>g (snd kv)\<bar>) m)"
proof (induction m)
  case Nil
  then show ?case by simp
next
  case (Cons kv m)
  have "0 \<le> sum_list (map (\<lambda>kv. \<bar>g (snd kv)\<bar>) m)" by (rule sum_list_nonneg) auto
  with Cons show ?case by (cases kv) (auto split: option.splits)
qed

lemma acc_step:
  assumes v: "g v = fadd (case map_of m k of None \<Rightarrow> 0 | Some e \<Rightarrow> g e) a"
    and inv: "acc_inv g m b" and a: "a \<in> \<int>" and b: "b + \<bar>a\<bar> \<le> 2 ^ 53"
  shows "acc_inv g (Map_set k v m) (b + \<bar>a\<bar>) \<and>
         sum_list (map (\<lambda>kv. g (snd kv)) (Map_set k v m)) = sum_list (map (\<lambda>kv. g (snd kv)) m) + a"
proof -
  let ?old = "case map_of m k of None \<Rightarrow> 0 | Some e \<Rightarrow> g e"
  let ?abs = "sum_list (map (\<lambda>kv. \<bar>g (snd kv)\<bar>) m)"
  from inv have ints: "list_all (\<lambda>kv. g (snd kv) \<in> \<int>) m" and le: "?abs \<le> b"
    by (simp_all add: acc_inv_def)
  have old: "?old \<in> \<int>" using ints by (rule existing_Ints)
  have oldle: "\<bar>?old\<bar> \<le> ?abs" unfolding existing_abs by (rule existing_le)
  have "\<bar>?old\<bar> + \<bar>a\<bar> \<le> 2 ^ 53" using oldle le b by linarith
  with old a have gv: "g v = ?old + a" unfolding v by (rule fadd_exact)
  then have "g v \<in> \<int>" using old a by simp
  then have i: "list_all (\<lambda>kv. g (snd kv) \<in> \<int>) (Map_set k v m)"
    using ints by (intro list_all_Map_set) simp_all
  have "sum_list (map (\<lambda>kv. \<bar>g (snd kv)\<bar>) (Map_set k v m)) = ?abs - \<bar>?old\<bar> + \<bar>g v\<bar>"
    using sum_list_Map_set [of "\<lambda>e. \<bar>g e\<bar>" k v m] by (simp add: existing_abs)
  also have "\<dots> \<le> ?abs + \<bar>a\<bar>" unfolding gv by linarith
  finally have s: "sum_list (map (\<lambda>kv. \<bar>g (snd kv)\<bar>) (Map_set k v m)) \<le> b + \<bar>a\<bar>"
    using le by linarith
  have "sum_list (map (\<lambda>kv. g (snd kv)) (Map_set k v m)) = sum_list (map (\<lambda>kv. g (snd kv)) m) + a"
    using sum_list_Map_set [of g k v m] by (simp add: gv)
  with i s show ?thesis by (simp add: acc_inv_def)
qed

lemma acc_foldl:
  assumes step: "\<And>m r. \<exists>v. step m r = Map_set (key r) v m \<and>
        g v = fadd (case map_of m (key r) of None \<Rightarrow> 0 | Some e \<Rightarrow> g e) (x r)"
    and "list_all (\<lambda>r. x r \<in> \<int>) rs" and "acc_inv g m b"
    and "b + sum_list (map (\<lambda>r. \<bar>x r\<bar>) rs) \<le> 2 ^ 53"
  shows "acc_inv g (foldl step m rs) (b + sum_list (map (\<lambda>r. \<bar>x r\<bar>) rs)) \<and>
         sum_list (map (\<lambda>kv. g (snd kv)) (foldl step m rs)) =
           sum_list (map (\<lambda>kv. g (snd kv)) m) + sum_list (map x rs)"
  using assms(2-)
proof (induction rs arbitrary: m b)
  case Nil
  then show ?case by simp
next
  case (Cons r rs)
  have nn: "0 \<le> sum_list (map (\<lambda>r. \<bar>x r\<bar>) rs)" by (rule sum_list_nonneg) auto
  from step obtain v where v: "step m r = Map_set (key r) v m"
      "g v = fadd (case map_of m (key r) of None \<Rightarrow> 0 | Some e \<Rightarrow> g e) (x r)" by blast
  from Cons.prems nn have "b + \<bar>x r\<bar> \<le> 2 ^ 53" by simp
  with acc_step [OF v(2) Cons.prems(2)] Cons.prems(1)
  have one: "acc_inv g (step m r) (b + \<bar>x r\<bar>)"
      "sum_list (map (\<lambda>kv. g (snd kv)) (step m r)) = sum_list (map (\<lambda>kv. g (snd kv)) m) + x r"
    unfolding v(1) by simp_all
  from Cons.prems have "b + \<bar>x r\<bar> + sum_list (map (\<lambda>r. \<bar>x r\<bar>) rs) \<le> 2 ^ 53" by simp
  with Cons.IH [OF _ one(1)] Cons.prems(1) one(2) show ?case by (simp add: add.assoc)
qed

lemma foldl_concat_map:
  "foldl (\<lambda>m d. foldl step m (f d)) m xs = foldl step m (concat (map f xs))"
  by (induction xs arbitrary: m) simp_all

lemma batches_sum_exact:
  assumes "list_all (\<lambda>r. x r \<in> \<int>) (concat (map f ds))"
    and "list_all (\<lambda>d. t d = foldl (\<lambda>s r. fadd s (x r)) 0 (f d)) ds"
    and "a \<in> \<int>"
    and "\<bar>a\<bar> + sum_list (map (\<lambda>r. \<bar>x r\<bar>) (concat (map f ds))) \<le> 2 ^ 53"
  shows "foldl (\<lambda>s d. fadd s (t d)) a ds = a + sum_list (map x (concat (map f ds)))"
  using assms
proof (induction ds arbitrary: a)
  case Nil
  then show ?case by simp
next
  case (Cons d ds)
  let ?rest = "sum_list (map (\<lambda>r. \<bar>x r\<bar>) (concat (map f ds)))"
  let ?here = "sum_list (map (\<lambda>r. \<bar>x r\<bar>) (f d))"
  have nn: "0 \<le> ?rest" "0 \<le> ?here" by (rule sum_list_nonneg, auto)+
  from Cons.prems have ints: "list_all (\<lambda>r. x r \<in> \<int>) (f d)"
      and bound: "\<bar>a\<bar> + ?here + ?rest \<le> 2 ^ 53" by simp_all
  have "\<bar>0 :: real\<bar> + ?here \<le> 2 ^ 53" using bound nn by simp
  with ints have td: "t d = sum_list (map x (f d))"
    using Cons.prems(2) fsum_exact [of x "f d" 0] by simp
  have tint: "t d \<in> \<int>" unfolding td using ints by (rule sum_list_Ints)
  have tabs: "\<bar>t d\<bar> \<le> ?here" unfolding td by (rule sum_list_abs)
  have step: "fadd a (t d) = a + t d"
    using Cons.prems(3) tint bound nn tabs by (intro fadd_exact) simp_all
  have b': "\<bar>a + t d\<bar> + ?rest \<le> 2 ^ 53" using bound tabs by linarith
  have "foldl (\<lambda>s d. fadd s (t d)) a (d # ds) = foldl (\<lambda>s d. fadd s (t d)) (a + t d) ds"
    by (simp add: step)
  also have "\<dots> = (a + t d) + sum_list (map x (concat (map f ds)))"
    using Cons.prems tint b' by (intro Cons.IH) simp_all
  finally show ?case by (simp add: td)
qed

text \<open>
  Whole amounts: every \<open>TAXBLEAMT\<close> and \<open>QTY\<close> is a whole number, and the absolute
  values of each add up to at most \<open>2 ^ 53\<close>.
\<close>

definition whole_amounts :: "DailySales list \<Rightarrow> bool" where
  "whole_amounts salesData =
     (let rs = concat (map DailySales.records salesData)
      in list_all (\<lambda>r. TAXBLEAMT r \<in> \<int>) rs \<and> list_all (\<lambda>r. QTY r \<in> \<int>) rs \<and>
         sum_list (map (\<lambda>r. \<bar>TAXBLEAMT r\<bar>) rs) \<le> 2 ^ 53 \<and>
         sum_list (map (\<lambda>r. \<bar>QTY r\<bar>) rs) \<le> 2 ^ 53)"

lemma productMap_record_amount:
  "\<exists>v. productMap_record m r = Map_set (ITNAME r) v m \<and>
     ProductAcc.amount v =
       fadd (case map_of m (ITNAME r) of None \<Rightarrow> 0 | Some e \<Rightarrow> ProductAcc.amount e) (TAXBLEAMT r)"
  by (auto simp: productMap_record_def Let_def split: option.split)

lemma productMap_record_qty:
  "\<exists>v. productMap_record m r = Map_set (ITNAME r) v m \<and>
     ProductAcc.qty v =
       fadd (case map_of m (ITNAME r) of None \<Rightarrow> 0 | Some e \<Rightarrow> ProductAcc.qty e) (QTY r)"
  by (auto simp: productMap_record_def Let_def split: option.split)

definition company_of :: "SalesRecord \<Rightarrow> string" where
  "company_of record = (case SalesRecord.company record of
                          Some c \<Rightarrow> if c \<noteq> [] then c else ''Unknown''
                        | None \<Rightarrow> ''Unknown'')"

lemma companyMap_record_amount:
  "\<exists>v. companyMap_record m r = Map_set (company_of r) v m \<and>
     CompanyAcc.amount v =
       fadd (case map_of m (company_of r) of None \<Rightarrow> 0 | Some e \<Rightarrow> CompanyAcc.amount e) (TAXBLEAMT r)"
  by (auto simp: companyMap_record_def company_of_def Let_def split: option.split)

lemma acc_inv_Nil: "acc_inv g [] 0"
  by (simp add: acc_inv_def)

text \<open>
  The totals of a sorted output: their exact sum, and the sum a \<open>reduce\<close> computes.
\<close>

lemma sorted_totals:
  assumes "acc_inv g m b" and "b \<le> 2 ^ 53" and "\<And>kv. tot (mk kv) = g (snd kv)"
  shows "sum_list (map tot (sort_desc key (map mk m))) = sum_list (map (\<lambda>kv. g (snd kv)) m)"
    and "foldl (\<lambda>s p. fadd s (tot p)) 0 (sort_desc key (map mk m)) = sum_list (map (\<lambda>kv. g (snd kv)) m)"
proof -
  let ?out = "sort_desc key (map mk m)"
  show sum: "sum_list (map tot ?out) = sum_list (map (\<lambda>kv. g (snd kv)) m)"
    by (simp add: sum_list_sort_desc comp_def assms(3))
  have ints: "list_all (\<lambda>p. tot p \<in> \<int>) ?out"
    using assms(1) by (auto simp: sort_desc_def acc_inv_def list_all_iff assms(3))
  have "sum_list (map (\<lambda>p. \<bar>tot p\<bar>) ?out) = sum_list (map (\<lambda>kv. \<bar>g (snd kv)\<bar>) m)"
    by (simp add: sum_list_sort_desc comp_def assms(3))
  with assms(1,2) have "\<bar>0 :: real\<bar> + sum_list (map (\<lambda>p. \<bar>tot p\<bar>) ?out) \<le> 2 ^ 53"
    by (simp add: acc_inv_def)
  with ints have "foldl (\<lambda>s p. fadd s (tot p)) 0 ?out = 0 + sum_list (map tot ?out)"
    by (intro fsum_exact) simp_all
  with sum show "foldl (\<lambda>s p. fadd s (tot p)) 0 ?out = sum_list (map (\<lambda>kv. g (snd kv)) m)" by simp
qed

text \<open>
  C5, as the code has it. When every \<open>TAXBLEAMT\<close> and \<open>QTY\<close> is a whole number, the
  absolute values of each add up to at most \<open>2 ^ 53\<close> (so that no addition rounds), and
  every batch carries the sums over its own records as its totals, then the
  \<open>totalAmount\<close>s of \<open>aggregateByProduct\<close> add up to \<open>getTotalSales\<close>, its
  \<open>totalQty\<close>s to \<open>getTotalQuantity\<close>, and the company \<open>totalAmount\<close>s of
  \<open>aggregateByCompany\<close> to the same grand total, whatever records fall under
  \<open>Unknown\<close>, both as exact sums and as a \<open>reduce\<close> adds them in output order. The
  batch list may also be empty.
\<close>

theorem aggregate_totals_agree:
  assumes "list_all batch_totals_ok salesData" and "whole_amounts salesData"
  shows "sum_list (map ProductSales.totalAmount (aggregateByProduct salesData)) = getTotalSales salesData \<and>
         sum_list (map ProductSales.totalQty (aggregateByProduct salesData)) = getTotalQuantity salesData \<and>
         sum_list (map CompanySales.totalAmount (aggregateByCompany salesData)) = getTotalSales salesData \<and>
         foldl (\<lambda>sum p. fadd sum (ProductSales.totalAmount p)) 0 (aggregateByProduct salesData) =
           getTotalSales salesData \<and>
         foldl (\<lambda>sum p. fadd sum (ProductSales.totalQty p)) 0 (aggregateByProduct salesData) =
           getTotalQuantity salesData \<and>
         foldl (\<lambda>sum c. fadd sum (CompanySales.totalAmount c)) 0 (aggregateByCompany salesData) =
           getTotalSales salesData"
proof -
  let ?rs = "concat (map DailySales.records salesData)"
  let ?A = "sum_list (map (\<lambda>r. \<bar>TAXBLEAMT r\<bar>) ?rs)"
  let ?Q = "sum_list (map (\<lambda>r. \<bar>QTY r\<bar>) ?rs)"
  from assms(2) have ia: "list_all (\<lambda>r. TAXBLEAMT r \<in> \<int>) ?rs" and iq: "list_all (\<lambda>r. QTY r \<in> \<int>) ?rs"
    and ba: "?A \<le> 2 ^ 53" and bq: "?Q \<le> 2 ^ 53"
    by (simp_all add: whole_amounts_def Let_def)
  have sales: "getTotalSales salesData = sum_list (map TAXBLEAMT ?rs)"
    unfolding getTotalSales_def
    using batches_sum_exact [of TAXBLEAMT DailySales.records salesData DailySales.totalAmount 0]
      ia ba assms(1)
    by (simp add: batch_totals_ok_def list_all_iff)
  have quantity: "getTotalQuantity salesData = sum_list (map QTY ?rs)"
    unfolding getTotalQuantity_def
    using batches_sum_exact [of QTY DailySales.records salesData DailySales.totalQuantity 0]
      iq bq assms(1)
    by (simp add: batch_totals_ok_def list_all_iff)
  let ?pm = "foldl productMap_record [] ?rs"
  let ?cm = "foldl companyMap_record [] ?rs"
  have pa: "acc_inv ProductAcc.amount ?pm (0 + ?A)"
      "sum_list (map (\<lambda>kv. ProductAcc.amount (snd kv)) ?pm) = 0 + sum_list (map TAXBLEAMT ?rs)"
    using acc_foldl [of productMap_record ITNAME ProductAcc.amount TAXBLEAMT ?rs "[]" 0,
        OF productMap_record_amount ia acc_inv_Nil] ba by simp_all
  have pq: "acc_inv ProductAcc.qty ?pm (0 + ?Q)"
      "sum_list (map (\<lambda>kv. ProductAcc.qty (snd kv)) ?pm) = 0 + sum_list (map QTY ?rs)"
    using acc_foldl [of productMap_record ITNAME ProductAcc.qty QTY ?rs "[]" 0,
        OF productMap_record_qty iq acc_inv_Nil] bq by simp_all
  have ca: "acc_inv CompanyAcc.amount ?cm (0 + ?A)"
      "sum_list (map (\<lambda>kv. CompanyAcc.amount (snd kv)) ?cm) = 0 + sum_list (map TAXBLEAMT ?rs)"
    using acc_foldl [of companyMap_record company_of CompanyAcc.amount TAXBLEAMT ?rs "[]" 0,
        OF companyMap_record_amount ia acc_inv_Nil] ba by simp_all
  have outp: "\<exists>mk. aggregateByProduct salesData = sort_desc ProductSales.totalAmount (map mk ?pm) \<and>
      (\<forall>kv. ProductSales.totalAmount (mk kv) = ProductAcc.amount (snd kv)) \<and>
      (\<forall>kv. ProductSales.totalQty (mk kv) = ProductAcc.qty (snd kv))"
    by (rule exI [where x = "\<lambda>(productName, data).
                   \<lparr>ProductSales.productName = productName,
                    ProductSales.totalQty = ProductAcc.qty data,
                    ProductSales.totalAmount = ProductAcc.amount data,
                    ProductSales.avgPrice = js_div (ProductAcc.amount data) (ProductAcc.qty data),
                    ProductSales.company = None\<rparr>"])
      (simp add: aggregateByProduct_def Let_def foldl_concat_map case_prod_unfold)
  then obtain mkp where mkp: "aggregateByProduct salesData = sort_desc ProductSales.totalAmount (map mkp ?pm)"
      "\<And>kv. ProductSales.totalAmount (mkp kv) = ProductAcc.amount (snd kv)"
      "\<And>kv. ProductSales.totalQty (mkp kv) = ProductAcc.qty (snd kv)" by blast
  have outc: "\<exists>mk. aggregateByCompany salesData = sort_desc CompanySales.totalAmount (map mk ?cm) \<and>
      (\<forall>kv. CompanySales.totalAmount (mk kv) = CompanyAcc.amount (snd kv))"
    by (rule exI [where x = "\<lambda>(companyName, data).
                   (let products = map (\<lambda>(productName, productData).
                            \<lparr>ProductSales.productName = productName,
                             ProductSales.totalQty = ProductAcc.qty productData,
                             ProductSales.totalAmount = ProductAcc.amount productData,
                             ProductSales.avgPrice = js_div (ProductAcc.amount productData) (ProductAcc.qty productData),
                             ProductSales.company = Some companyName\<rparr>) (CompanyAcc.products data)
                    in \<lparr>CompanySales.companyName = companyName,
                        CompanySales.totalAmount = CompanyAcc.amount data,
                        CompanySales.totalQuantity = CompanyAcc.qty data,
                        CompanySales.productCount = length (CompanyAcc.products data),
                        CompanySales.products = sort_desc ProductSales.totalAmount products\<rparr>)"])
      (simp add: aggregateByCompany_def Let_def foldl_concat_map case_prod_unfold)
  then obtain mk where mk: "aggregateByCompany salesData = sort_desc CompanySales.totalAmount (map mk ?cm)"
      "\<And>kv. CompanySales.totalAmount (mk kv) = CompanyAcc.amount (snd kv)" by blast
  have A: "0 + ?A \<le> 2 ^ 53" and Q: "0 + ?Q \<le> 2 ^ 53" using ba bq by simp_all
  show ?thesis
    unfolding mkp(1) mk(1) sales quantity
    using sorted_totals [OF pa(1) A, of ProductSales.totalAmount mkp ProductSales.totalAmount, OF mkp(2)]
      sorted_totals [OF pq(1) Q, of ProductSales.totalQty mkp ProductSales.totalAmount, OF mkp(3)]
      sorted_totals [OF ca(1) A, of CompanySales.totalAmount mk CompanySales.totalAmount, OF mk(2)]
      pa(2) pq(2) ca(2)
    by simp
qed


text \<open>
  Two batches: one record the mapper resolves after normalisation, one it does not
  resolve and which already carries a company, and records without a company.
\<close>

definition example_mapper :: CompanyMapper where
  "example_mapper = \<lparr>productToCompany = [(''urea 50kg'', ''Fact''), (''actara'', ''Syngenta'')],
                      companyProducts = [(''Fact'', [''urea 50kg'']), (''Syngenta'', [''actara''])]\<rparr>"

definition example_sales :: "DailySales list" where
  "example_sales =
     [\<lparr>date = 1, type = FS,
       records = [\<lparr>HSNCODE = ''3102'', ITNAME = '' Urea 50KG '', QTY = 10, TAXBLEAMT = 1000, GST = 5, company = None\<rparr>,
                  \<lparr>HSNCODE = ''3808'', ITNAME = ''Neem Oil'', QTY = 5, TAXBLEAMT = 500, GST = 18, company = Some ''Local''\<rparr>],
       DailySales.totalAmount = 1500, DailySales.totalQuantity = 15\<rparr>,
      \<lparr>date = 2, type = PS,
       records = [\<lparr>HSNCODE = ''3808'', ITNAME = ''ACTARA'', QTY = 20, TAXBLEAMT = 2000, GST = 18, company = None\<rparr>,
                  \<lparr>HSNCODE = ''3102'', ITNAME = '' Urea 50KG '', QTY = 1, TAXBLEAMT = 100, GST = 5, company = None\<rparr>],
       DailySales.totalAmount = 2100, DailySales.totalQuantity = 21\<rparr>]"


theorem aggregate_totals_agree_witness:
  "list_all batch_totals_ok example_sales \<and> whole_amounts example_sales \<and>
   getTotalSales example_sales = 3600 \<and>
   sum_list (map ProductSales.totalAmount (aggregateByProduct example_sales)) = 3600 \<and>
   sum_list (map ProductSales.totalQty (aggregateByProduct example_sales)) = 36 \<and>
   sum_list (map CompanySales.totalAmount (aggregateByCompany example_sales)) = 3600"
proof -
  have ok: "list_all batch_totals_ok example_sales"
    by (simp add: example_sales_def batch_totals_ok_def fadd_def)
  have whole: "whole_amounts example_sales"
    by (simp add: example_sales_def whole_amounts_def)
  have "getTotalSales example_sales = 3600" "getTotalQuantity example_sales = 36"
    by (simp_all add: example_sales_def getTotalSales_def getTotalQuantity_def fadd_def)
  with ok whole aggregate_totals_agree [OF ok whole] show ?thesis by simp
qed

text \<open>The doubles \<open>0.1\<close>, \<open>0.2\<close> and \<open>0.3\<close>, and one batch of three products with these amounts.\<close>

definition d01 :: real where
  "d01 = 3602879701896397 / 36028797018963968"

definition d02 :: real where
  "d02 = 3602879701896397 / 18014398509481984"

definition d03 :: real where
  "d03 = 5404319552844595 / 18014398509481984"

text \<open>The doubles \<open>0.30000000000000004\<close>, \<open>0.6\<close> and \<open>0.6000000000000001\<close>.\<close>

definition d03_up :: real where
  "d03_up = 5404319552844596 / 18014398509481984"

definition d06 :: real where
  "d06 = 5404319552844595 / 9007199254740992"

definition d06_up :: real where
  "d06_up = 5404319552844596 / 9007199254740992"

definition tenths :: "DailySales list" where
  "tenths =
     [\<lparr>date = 1, type = PS,
       records = [\<lparr>HSNCODE = ''38'', ITNAME = ''A'', QTY = 1, TAXBLEAMT = d01, GST = 18, company = None\<rparr>,
                  \<lparr>HSNCODE = ''38'', ITNAME = ''B'', QTY = 1, TAXBLEAMT = d02, GST = 18, company = None\<rparr>,
                  \<lparr>HSNCODE = ''38'', ITNAME = ''C'', QTY = 1, TAXBLEAMT = d03, GST = 18, company = None\<rparr>],
       DailySales.totalAmount = d06_up,
       DailySales.totalQuantity = 3\<rparr>]"

lemma tenths_additions:
  "fadd 0 d01 = d01" "fadd 0 d02 = d02" "fadd 0 d03 = d03"
  "fadd d01 d02 = d03_up"
  "fadd d03_up d03 = d06_up"
  "fadd 0 d06_up = d06_up"
  "fadd d03 d02 = 1 / 2"
  "fadd (1 / 2) d01 = d06"
  unfolding fadd_def d01_def d02_def d03_def d03_up_def d06_def d06_up_def
  by ((subst fl_eval [of "-4"], simp_all add: round_even_def)[1],
      (subst fl_eval [of "-3"], simp_all add: round_even_def)[1],
      (subst fl_eval [of "-2"], simp_all add: round_even_def)[1],
      (subst fl_eval [of "-2"], simp_all add: round_even_def)[1],
      (subst fl_eval [of "-1"], simp_all add: round_even_def)[1],
      (subst fl_eval [of "-1"], simp_all add: round_even_def)[1],
      (subst fl_eval [of "-1"], simp_all add: round_even_def)[1],
      (subst fl_eval [of "-1"], simp_all add: round_even_def)[1])

lemma tenths_order: "(d03 \<le> d02) = False" "(d02 \<le> d01) = False" "(d03 \<le> d01) = False"
  by (simp_all add: d01_def d02_def d03_def)

lemma tenths_units: "fadd 0 1 = 1" "fadd 1 1 = 2" "fadd 2 1 = 3"
  by (simp_all add: fadd_def)

text \<open>
  C5 as stated fails in double arithmetic. The batch carries the sum of its records,
  \<open>(0.1 + 0.2) + 0.3 = 0.6000000000000001\<close>, which is \<open>getTotalSales\<close>; the product
  totals are \<open>0.3\<close>, \<open>0.2\<close>, \<open>0.1\<close> in output order, and neither their \<open>reduce\<close>
  sum \<open>(0.3 + 0.2) + 0.1 = 0.6\<close> nor their exact sum is that number.
\<close>

theorem aggregate_totals_differ:
  "list_all batch_totals_ok tenths \<and>
   getTotalSales tenths = d06_up \<and>
   map (\<lambda>p. (ProductSales.productName p, ProductSales.totalAmount p)) (aggregateByProduct tenths) =
     [(''C'', d03), (''B'', d02), (''A'', d01)] \<and>
   foldl (\<lambda>sum p. fadd sum (ProductSales.totalAmount p)) 0 (aggregateByProduct tenths) =
     d06 \<and>
   foldl (\<lambda>sum p. fadd sum (ProductSales.totalAmount p)) 0 (aggregateByProduct tenths) \<noteq>
     getTotalSales tenths \<and>
   sum_list (map ProductSales.totalAmount (aggregateByProduct tenths)) \<noteq> getTotalSales tenths"
proof -
  have ok: "list_all batch_totals_ok tenths"
    by (simp add: tenths_def batch_totals_ok_def tenths_additions tenths_units)
  have total: "getTotalSales tenths = d06_up"
    by (simp add: tenths_def getTotalSales_def tenths_additions)
  have out: "map (\<lambda>p. (ProductSales.productName p, ProductSales.totalAmount p)) (aggregateByProduct tenths) =
     [(''C'', d03), (''B'', d02), (''A'', d01)]"
    by (simp add: tenths_def aggregateByProduct_def productMap_record_def Let_def sort_desc_def
        tenths_additions tenths_units tenths_order)
  have amounts: "map ProductSales.totalAmount (aggregateByProduct tenths) = [d03, d02, d01]"
    using arg_cong [OF out, of "map snd"] by (simp add: comp_def)
  have "foldl (\<lambda>sum p. fadd sum (ProductSales.totalAmount p)) 0 (aggregateByProduct tenths) =
      foldl fadd 0 (map ProductSales.totalAmount (aggregateByProduct tenths))"
    by (simp add: foldl_map)
  then have red: "foldl (\<lambda>sum p. fadd sum (ProductSales.totalAmount p)) 0 (aggregateByProduct tenths) =
      d06"
    unfolding amounts by (simp add: tenths_additions)
  have "sum_list (map ProductSales.totalAmount (aggregateByProduct tenths)) \<noteq> getTotalSales tenths"
    unfolding amounts total by (simp add: d01_def d02_def d03_def d06_up_def)
  moreover have "d06 \<noteq> d06_up" by (simp add: d06_def d06_up_def)
  ultimately show ?thesis using ok total out red by simp
qed

subsection \<open>Enrichment changes the company field only\<close>

lemma enrich_record_frame:
  "HSNCODE (enrich_record mapper r) = HSNCODE r \<and> ITNAME (enrich_record mapper r) = ITNAME r \<and>
   QTY (enrich_record mapper r) = QTY r \<and> TAXBLEAMT (enrich_record mapper r) = TAXBLEAMT r \<and>
   GST (enrich_record mapper r) = GST r"
  by (simp add: enrich_record_def split: option.split)

lemma enrich_record_unresolved:
  "getCompanyForProduct mapper (ITNAME r) = None \<Longrightarrow> enrich_record mapper r = r"
  by (simp add: enrich_record_def)

lemma enrich_record_resolved:
  "getCompanyForProduct mapper (ITNAME r) = Some c \<Longrightarrow> c \<noteq> [] \<Longrightarrow>
   enrich_record mapper r = r\<lparr>SalesRecord.company := Some c\<rparr>"
  by (simp add: enrich_record_def)

text \<open>
  C10. \<open>enrichWithCompanyData\<close> keeps the number and order of batches and of records,
  every batch-level field (date, type, totals) and the fields \<open>HSNCODE\<close>, \<open>ITNAME\<close>,
  \<open>QTY\<close>, \<open>TAXBLEAMT\<close>, \<open>GST\<close> of every record. A record whose normalised item
  name the mapper does not resolve is unchanged as a whole, so a company it already has
  stays; a record resolved to a non-empty company changes in its company field only.
\<close>

theorem enrichWithCompanyData_frame:
  "length (enrichWithCompanyData salesData mapper) = length salesData \<and>
   (\<forall>i < length salesData.
      let daily = salesData ! i; daily' = enrichWithCompanyData salesData mapper ! i in
        date daily' = date daily \<and> type daily' = type daily \<and>
        DailySales.totalAmount daily' = DailySales.totalAmount daily \<and>
        DailySales.totalQuantity daily' = DailySales.totalQuantity daily \<and>
        length (DailySales.records daily') = length (DailySales.records daily) \<and>
        (\<forall>j < length (DailySales.records daily).
           let r = DailySales.records daily ! j; r' = DailySales.records daily' ! j in
             HSNCODE r' = HSNCODE r \<and> ITNAME r' = ITNAME r \<and> QTY r' = QTY r \<and>
             TAXBLEAMT r' = TAXBLEAMT r \<and> GST r' = GST r \<and>
             (getCompanyForProduct mapper (ITNAME r) = None \<longrightarrow> r' = r) \<and>
             (\<forall>c. getCompanyForProduct mapper (ITNAME r) = Some c \<and> c \<noteq> [] \<longrightarrow>
                  r' = r\<lparr>SalesRecord.company := Some c\<rparr>)))"
  by (simp add: enrichWithCompanyData_def Let_def enrich_record_frame enrich_record_unresolved
      enrich_record_resolved)

lemma example_lookup:
  "getCompanyForProduct example_mapper '' Urea 50KG '' = Some ''Fact''"
  "getCompanyForProduct example_mapper ''Neem Oil'' = None"
  by (simp_all add: getCompanyForProduct_def example_mapper_def normalizeProductName_def trim_def
      toLowerCase_char_def is_space_def Let_def)

theorem enrichWithCompanyData_frame_witness:
  "getCompanyForProduct example_mapper ''Neem Oil'' = None \<and>
   DailySales.records (enrichWithCompanyData example_sales example_mapper ! 0) ! 1 =
     \<lparr>HSNCODE = ''3808'', ITNAME = ''Neem Oil'', QTY = 5, TAXBLEAMT = 500, GST = 18, company = Some ''Local''\<rparr> \<and>
   getCompanyForProduct example_mapper '' Urea 50KG '' = Some ''Fact'' \<and>
   DailySales.records (enrichWithCompanyData example_sales example_mapper ! 0) ! 0 =
     \<lparr>HSNCODE = ''3102'', ITNAME = '' Urea 50KG '', QTY = 10, TAXBLEAMT = 1000, GST = 5, company = Some ''Fact''\<rparr> \<and>
   date (enrichWithCompanyData example_sales example_mapper ! 0) = 1"
proof -
  have len: "0 < length example_sales" by (simp add: example_sales_def)
  have recs: "DailySales.records (example_sales ! 0) =
      [\<lparr>HSNCODE = ''3102'', ITNAME = '' Urea 50KG '', QTY = 10, TAXBLEAMT = 1000, GST = 5, company = None\<rparr>,
       \<lparr>HSNCODE = ''3808'', ITNAME = ''Neem Oil'', QTY = 5, TAXBLEAMT = 500, GST = 18, company = Some ''Local''\<rparr>]"
    "date (example_sales ! 0) = 1"
    by (simp_all add: example_sales_def)
  from enrichWithCompanyData_frame [of example_sales example_mapper] len
  have step: "let daily = example_sales ! 0; daily' = enrichWithCompanyData example_sales example_mapper ! 0 in
        date daily' = date daily \<and>
        (\<forall>j < length (DailySales.records daily).
           let r = DailySales.records daily ! j; r' = DailySales.records daily' ! j in
             (getCompanyForProduct example_mapper (ITNAME r) = None \<longrightarrow> r' = r) \<and>
             (\<forall>c. getCompanyForProduct example_mapper (ITNAME r) = Some c \<and> c \<noteq> [] \<longrightarrow>
                  r' = r\<lparr>SalesRecord.company := Some c\<rparr>))"
    by (simp add: Let_def)
  from step have d: "date (enrichWithCompanyData example_sales example_mapper ! 0) = 1"
    by (simp add: Let_def recs)
  from step have r1: "DailySales.records (enrichWithCompanyData example_sales example_mapper ! 0) ! 1 =
     \<lparr>HSNCODE = ''3808'', ITNAME = ''Neem Oil'', QTY = 5, TAXBLEAMT = 500, GST = 18, company = Some ''Local''\<rparr>"
    using example_lookup(2) by (simp add: Let_def recs All_less_Suc2)
  from step have r0: "DailySales.records (enrichWithCompanyData example_sales example_mapper ! 0) ! 0 =
     \<lparr>HSNCODE = ''3102'', ITNAME = '' Urea 50KG '', QTY = 10, TAXBLEAMT = 1000, GST = 5, company = Some ''Fact''\<rparr>"
    using example_lookup(1) by (simp add: Let_def recs All_less_Suc2)
  from d r0 r1 example_lookup show ?thesis by simp
qed



section \<open>Velocity (calculateProductVelocity and its companions)\<close>

datatype velocity_class = Fast | Medium | Slow

datatype velocity_trend = Accelerating | Stable | Decelerating

datatype change_class = Gainer | Stable | Loser

datatype period_type = Week | Month

record ProductVelocityMetrics =
  productName :: string
  company :: "string option"
  totalQty :: real
  totalAmount :: real
  daysActive :: nat
  dailyVelocity :: real
  weeklyVelocity :: real
  classification :: velocity_class
  rank :: nat

record VelocityChange =
  productName :: string
  company :: "string option"
  currentVelocity :: real
  previousVelocity :: real
  changePercent :: real
  changeAbsolute :: real
  trend :: velocity_trend
  classification :: change_class

text \<open>The accumulator \<open>{ qty, amount, dates, company }\<close> of \<open>calculateProductVelocity\<close>.\<close>

record VelocityAcc =
  qty :: real
  amount :: real
  dates :: "date list"
  company :: "string option"

text \<open>\<open>a || b\<close> on optional strings: \<open>undefined\<close> and the empty string are falsy.\<close>

definition or_else :: "string option \<Rightarrow> string option \<Rightarrow> string option" where
  "or_else a b = (case a of Some c \<Rightarrow> if c \<noteq> [] then a else b | None \<Rightarrow> b)"

definition velocityMap_record ::
  "DailySales \<Rightarrow> (string \<times> VelocityAcc) list \<Rightarrow> SalesRecord \<Rightarrow> (string \<times> VelocityAcc) list" where
  "velocityMap_record daily productMap record =
     (let existing = (case map_of productMap (ITNAME record) of
                        Some e \<Rightarrow> e
                      | None \<Rightarrow> \<lparr>VelocityAcc.qty = 0, VelocityAcc.amount = 0,
                                 VelocityAcc.dates = [],
                                 VelocityAcc.company = SalesRecord.company record\<rparr>)
      in Map_set (ITNAME record)
           \<lparr>VelocityAcc.qty = fadd (VelocityAcc.qty existing) (QTY record),
            VelocityAcc.amount = fadd (VelocityAcc.amount existing) (TAXBLEAMT record),
            VelocityAcc.dates = Set_add (date daily) (VelocityAcc.dates existing),
            VelocityAcc.company = or_else (SalesRecord.company record) (VelocityAcc.company existing)\<rparr>
           productMap)"

definition velocity_metric :: "string \<times> VelocityAcc \<Rightarrow> ProductVelocityMetrics" where
  "velocity_metric entry =
     (let name = fst entry; data = snd entry;
          daysActive = length (VelocityAcc.dates data);
          dailyVelocity = (if daysActive > 0 then fdiv (VelocityAcc.qty data) (real daysActive) else 0);
          weeklyVelocity = fmul dailyVelocity 7
      in \<lparr>ProductVelocityMetrics.productName = name,
          ProductVelocityMetrics.company = VelocityAcc.company data,
          ProductVelocityMetrics.totalQty = VelocityAcc.qty data,
          ProductVelocityMetrics.totalAmount = VelocityAcc.amount data,
          ProductVelocityMetrics.daysActive = daysActive,
          ProductVelocityMetrics.dailyVelocity = dailyVelocity,
          ProductVelocityMetrics.weeklyVelocity = weeklyVelocity,
          ProductVelocityMetrics.classification = Medium,
          ProductVelocityMetrics.rank = 0\<rparr>)"

text \<open>
  The two \<open>forEach((metric, index) => ...)\<close> passes: the rank, then the class from
  \<open>Math.ceil(total * 0.33)\<close> and \<open>Math.ceil(total * 0.67)\<close>. The literals are the
  doubles nearest to 0.33 and 0.67, and the products round.
\<close>

definition assign_rank :: "nat \<times> ProductVelocityMetrics \<Rightarrow> ProductVelocityMetrics" where
  "assign_rank im = (snd im)\<lparr>ProductVelocityMetrics.rank := fst im + 1\<rparr>"

definition classify :: "int \<Rightarrow> int \<Rightarrow> nat \<times> ProductVelocityMetrics \<Rightarrow> ProductVelocityMetrics" where
  "classify fastThreshold mediumThreshold im =
     (snd im)\<lparr>ProductVelocityMetrics.classification :=
        (if int (fst im) < fastThreshold then Fast
         else if int (fst im) < mediumThreshold then Medium
         else Slow)\<rparr>"

definition calculateProductVelocity :: "DailySales list \<Rightarrow> ProductVelocityMetrics list" where
  "calculateProductVelocity salesData =
     (let productMap = foldl (\<lambda>m daily. foldl (velocityMap_record daily) m (DailySales.records daily))
                         [] salesData;
          velocityMetrics = sort_desc ProductVelocityMetrics.dailyVelocity (map velocity_metric productMap);
          ranked = map assign_rank (enumerate 0 velocityMetrics);
          total = length ranked;
          fastThreshold = \<lceil>fmul (real total) (fl 0.33)\<rceil>;
          mediumThreshold = \<lceil>fmul (real total) (fl 0.67)\<rceil>
      in map (classify fastThreshold mediumThreshold) (enumerate 0 ranked))"

definition splitDataByPeriod ::
  "timezone \<Rightarrow> DailySales list \<Rightarrow> period_type \<Rightarrow> DailySales list \<times> DailySales list" where
  "splitDataByPeriod tz salesData periodType =
     (if salesData = [] then ([], [])
      else let dts = sort (new_Set (map date salesData)) in
        if dts = [] then ([], [])
        else let latestDate = parse_date (last dts);
                 periodDays = (if periodType = Week then 7 else 30);
                 currentStart = addDays tz latestDate (- (periodDays - 1));
                 currentStartStr = toISODate currentStart;
                 previousEnd = addDays tz currentStart (- 1);
                 previousEndStr = toISODate previousEnd;
                 previousStart = addDays tz previousEnd (- (periodDays - 1));
                 previousStartStr = toISODate previousStart;
                 current = filter (\<lambda>d. date d \<ge> currentStartStr \<and> date d \<le> last dts) salesData;
                 previous = filter (\<lambda>d. date d \<ge> previousStartStr \<and> date d \<le> previousEndStr) salesData
             in (current, previous))"

text \<open>\<open>new Map(pairs)\<close>: a later pair with the same key replaces the value.\<close>

definition new_Map :: "('k \<times> 'v) list \<Rightarrow> ('k \<times> 'v) list" where
  "new_Map pairs = foldl (\<lambda>m kv. Map_set (fst kv) (snd kv) m) [] pairs"

text \<open>
  The body of \<open>allProducts.forEach\<close>, returning what it pushes. \<open>current\<close> is an object
  or \<open>undefined\<close>; \<open>previous\<close> is a number or \<open>undefined\<close>, and as a condition a number
  is true when it is not zero: \<open>truthy previous\<close> is the number when the condition
  \<open>previous\<close> holds. The three \<open>if\<close>s of the source are \<open>current && !previous\<close>,
  \<open>!current && previous\<close> and \<open>current && previous\<close>.
\<close>

definition truthy :: "real option \<Rightarrow> real option" where
  "truthy previous = (case previous of Some v \<Rightarrow> if v \<noteq> 0 then Some v else None | None \<Rightarrow> None)"

definition velocity_change ::
  "ProductVelocityMetrics list \<Rightarrow> ProductVelocityMetrics option \<Rightarrow> real option \<Rightarrow> string \<Rightarrow> VelocityChange list" where
  "velocity_change prevMetrics current previous name =
     (case current of
        Some cur \<Rightarrow>
          (case truthy previous of
             None \<Rightarrow>
               [\<lparr>VelocityChange.productName = name,
                 VelocityChange.company = ProductVelocityMetrics.company cur,
                 VelocityChange.currentVelocity = ProductVelocityMetrics.dailyVelocity cur,
                 VelocityChange.previousVelocity = 0,
                 VelocityChange.changePercent = 100,
                 VelocityChange.changeAbsolute = ProductVelocityMetrics.dailyVelocity cur,
                 VelocityChange.trend = Accelerating,
                 VelocityChange.classification = Gainer\<rparr>]
           | Some prev \<Rightarrow>
               (let changeAbsolute = fsub (ProductVelocityMetrics.dailyVelocity cur) prev;
                    changePercent = (if prev > 0 then fmul (fdiv changeAbsolute prev) 100 else 0);
                    trend = (if changePercent > 5 then Accelerating
                             else if changePercent < -5 then Decelerating
                             else velocity_trend.Stable);
                    classification = (if changePercent > 15 then Gainer
                                      else if changePercent < -15 then Loser
                                      else change_class.Stable)
                in [\<lparr>VelocityChange.productName = name,
                     VelocityChange.company = ProductVelocityMetrics.company cur,
                     VelocityChange.currentVelocity = ProductVelocityMetrics.dailyVelocity cur,
                     VelocityChange.previousVelocity = prev,
                     VelocityChange.changePercent = changePercent,
                     VelocityChange.changeAbsolute = changeAbsolute,
                     VelocityChange.trend = trend,
                     VelocityChange.classification = classification\<rparr>]))
      | None \<Rightarrow>
          (case truthy previous of
             Some prev \<Rightarrow>
               [\<lparr>VelocityChange.productName = name,
                 VelocityChange.company =
                   (case find (\<lambda>v. ProductVelocityMetrics.productName v = name) prevMetrics of
                      Some v \<Rightarrow> ProductVelocityMetrics.company v
                    | None \<Rightarrow> None),
                 VelocityChange.currentVelocity = 0,
                 VelocityChange.previousVelocity = prev,
                 VelocityChange.changePercent = -100,
                 VelocityChange.changeAbsolute = - prev,
                 VelocityChange.trend = Decelerating,
                 VelocityChange.classification = Loser\<rparr>]
           | None \<Rightarrow> []))"

definition compareVelocityPeriods :: "DailySales list \<Rightarrow> DailySales list \<Rightarrow> VelocityChange list" where
  "compareVelocityPeriods currentPeriod previousPeriod =
     (let curMetrics = calculateProductVelocity currentPeriod;
          prevMetrics = calculateProductVelocity previousPeriod;
          previousMap = new_Map (map (\<lambda>v. (ProductVelocityMetrics.productName v,
                                             ProductVelocityMetrics.dailyVelocity v)) prevMetrics);
          currentMap = new_Map (map (\<lambda>v. (ProductVelocityMetrics.productName v, v)) curMetrics);
          allProducts = new_Set (map ProductVelocityMetrics.productName curMetrics @
                                 map ProductVelocityMetrics.productName prevMetrics)
      in concat (map (\<lambda>name. velocity_change prevMetrics (map_of currentMap name)
                                 (map_of previousMap name) name) allProducts))"

record VelocityDistribution =
  fast :: nat
  medium :: nat
  slow :: nat

definition getVelocityDistribution :: "ProductVelocityMetrics list \<Rightarrow> VelocityDistribution" where
  "getVelocityDistribution velocityMetrics =
     \<lparr>fast = length (filter (\<lambda>v. ProductVelocityMetrics.classification v = Fast) velocityMetrics),
      medium = length (filter (\<lambda>v. ProductVelocityMetrics.classification v = Medium) velocityMetrics),
      slow = length (filter (\<lambda>v. ProductVelocityMetrics.classification v = Slow) velocityMetrics)\<rparr>"



subsection \<open>Ranks, classes and the distribution\<close>

text \<open>The distinct product names of a batch list.\<close>

definition product_names :: "DailySales list \<Rightarrow> string set" where
  "product_names salesData = set (map ITNAME (concat (map DailySales.records salesData)))"

text \<open>
  The scenario of two products on two dates: A sells 10 units, then 20; B sells 5 units on
  the first date only.
\<close>

definition scenario :: "DailySales list" where
  "scenario =
     [\<lparr>date = 1, type = PS,
       records = [\<lparr>HSNCODE = ''38'', ITNAME = ''A'', QTY = 10, TAXBLEAMT = 1000, GST = 18, company = None\<rparr>,
                  \<lparr>HSNCODE = ''38'', ITNAME = ''B'', QTY = 5, TAXBLEAMT = 500, GST = 18, company = None\<rparr>],
       DailySales.totalAmount = 1500, DailySales.totalQuantity = 15\<rparr>,
      \<lparr>date = 2, type = PS,
       records = [\<lparr>HSNCODE = ''38'', ITNAME = ''A'', QTY = 20, TAXBLEAMT = 2000, GST = 18, company = None\<rparr>],
       DailySales.totalAmount = 2000, DailySales.totalQuantity = 20\<rparr>]"

text \<open>
  A product sold in both periods, with quantity 0 (so velocity 0) in the previous one.
\<close>

definition zero_prev_current :: "DailySales list" where
  "zero_prev_current =
     [\<lparr>date = 8, type = PS,
       records = [\<lparr>HSNCODE = ''38'', ITNAME = ''A'', QTY = 5, TAXBLEAMT = 500, GST = 18, company = None\<rparr>],
       DailySales.totalAmount = 500, DailySales.totalQuantity = 5\<rparr>]"

definition zero_prev_previous :: "DailySales list" where
  "zero_prev_previous =
     [\<lparr>date = 1, type = PS,
       records = [\<lparr>HSNCODE = ''38'', ITNAME = ''A'', QTY = 0, TAXBLEAMT = 0, GST = 18, company = None\<rparr>],
       DailySales.totalAmount = 0, DailySales.totalQuantity = 0\<rparr>]"

lemma map_fst_Map_set: "map fst (Map_set k v m) = Set_add k (map fst m)"
  by (induction m) (force simp: Set_add_def)+

lemma map_fst_velocityMap_record:
  "map fst (velocityMap_record daily m r) = Set_add (ITNAME r) (map fst m)"
  by (simp add: velocityMap_record_def Let_def map_fst_Map_set)

lemma map_fst_foldl_velocityMap_record:
  "map fst (foldl (velocityMap_record daily) m rs) =
     foldl (\<lambda>s x. Set_add x s) (map fst m) (map ITNAME rs)"
  by (induction rs arbitrary: m) (simp_all add: map_fst_velocityMap_record)

lemma map_fst_velocity_productMap:
  "map fst (foldl (\<lambda>m daily. foldl (velocityMap_record daily) m (DailySales.records daily)) m salesData) =
     foldl (\<lambda>s x. Set_add x s) (map fst m) (map ITNAME (concat (map DailySales.records salesData)))"
  by (induction salesData arbitrary: m) (simp_all add: map_fst_foldl_velocityMap_record)

lemma foldl_Set_add:
  "distinct s \<Longrightarrow> distinct (foldl (\<lambda>s x. Set_add x s) s xs) \<and>
     set (foldl (\<lambda>s x. Set_add x s) s xs) = set s \<union> set xs"
  by (induction xs arbitrary: s) (auto simp: Set_add_def)

lemma new_Set_props: "distinct (new_Set xs) \<and> set (new_Set xs) = set xs"
  using foldl_Set_add [of "[]" xs] by (simp add: new_Set_def)

lemma velocity_productMap_keys:
  "map fst (foldl (\<lambda>m daily. foldl (velocityMap_record daily) m (DailySales.records daily)) [] salesData) =
     new_Set (map ITNAME (concat (map DailySales.records salesData)))"
  by (simp add: map_fst_velocity_productMap new_Set_def)

lemma map_enumerate_keep:
  assumes "\<And>i m. f (g (i, m)) = f m"
  shows "map f (map g (enumerate n xs)) = map f xs"
  by (induction xs arbitrary: n) (simp_all add: assms)

lemma map_enumerate_index:
  assumes "\<And>i m. f (g (i, m)) = h i"
  shows "map f (map g (enumerate n xs)) = map h [n..<n + length xs]"
proof -
  have "map f (map g (enumerate n xs)) = map (h \<circ> fst) (enumerate n xs)"
    by (auto simp: assms)
  also have "\<dots> = map h (map fst (enumerate n xs))" by (simp only: map_map)
  also have "\<dots> = map h [n..<n + length xs]" by (simp only: map_fst_enumerate)
  finally show ?thesis .
qed

lemma productName_velocity_metric:
  "ProductVelocityMetrics.productName (velocity_metric e) = fst e"
  by (simp add: velocity_metric_def Let_def)

lemma velocity_names_mset:
  "mset (map ProductVelocityMetrics.productName (calculateProductVelocity salesData)) =
     mset (new_Set (map ITNAME (concat (map DailySales.records salesData))))"
proof -
  let ?pm = "foldl (\<lambda>m daily. foldl (velocityMap_record daily) m (DailySales.records daily)) [] salesData"
  have "map ProductVelocityMetrics.productName (calculateProductVelocity salesData) =
      map ProductVelocityMetrics.productName
        (sort_desc ProductVelocityMetrics.dailyVelocity (map velocity_metric ?pm))"
    unfolding calculateProductVelocity_def Let_def
    by (simp add: map_enumerate_keep classify_def assign_rank_def del: map_map)
  moreover have "mset (map ProductVelocityMetrics.productName
        (sort_desc ProductVelocityMetrics.dailyVelocity (map velocity_metric ?pm))) = mset (map fst ?pm)"
    by (simp add: sort_desc_def productName_velocity_metric multiset.map_comp comp_def)
  ultimately show ?thesis by (simp add: velocity_productMap_keys)
qed

lemma velocity_length:
  "length (calculateProductVelocity salesData) = card (product_names salesData)"
proof -
  have "length (calculateProductVelocity salesData) =
      size (mset (map ProductVelocityMetrics.productName (calculateProductVelocity salesData)))"
    by simp
  also have "\<dots> = length (new_Set (map ITNAME (concat (map DailySales.records salesData))))"
    unfolding velocity_names_mset by simp
  also have "\<dots> = card (product_names salesData)"
    using new_Set_props [of "map ITNAME (concat (map DailySales.records salesData))"]
    by (metis distinct_card product_names_def)
  finally show ?thesis .
qed

lemma velocity_names:
  "distinct (map ProductVelocityMetrics.productName (calculateProductVelocity salesData)) \<and>
   set (map ProductVelocityMetrics.productName (calculateProductVelocity salesData)) = product_names salesData"
  using velocity_names_mset [of salesData]
    new_Set_props [of "map ITNAME (concat (map DailySales.records salesData))"]
  by (metis mset_eq_imp_distinct_iff mset_eq_setD product_names_def)

lemma velocity_ranks:
  "map rank (calculateProductVelocity salesData) = [1..<Suc (length (calculateProductVelocity salesData))]"
proof -
  have "map rank (calculateProductVelocity salesData) =
      map Suc [0..<0 + length (calculateProductVelocity salesData)]"
    unfolding calculateProductVelocity_def Let_def
    by (simp add: map_enumerate_keep [where f = rank] map_enumerate_index [where h = Suc]
        classify_def assign_rank_def del: map_map)
  then show ?thesis by (simp add: map_Suc_upt)
qed

lemma velocity_sorted:
  "sorted_wrt (\<ge>) (map dailyVelocity (calculateProductVelocity salesData))"
proof -
  let ?pm = "foldl (\<lambda>m daily. foldl (velocityMap_record daily) m (DailySales.records daily)) [] salesData"
  have eq: "map dailyVelocity (calculateProductVelocity salesData) =
      map dailyVelocity (sort_desc dailyVelocity (map velocity_metric ?pm))"
    unfolding calculateProductVelocity_def Let_def
    by (simp add: map_enumerate_keep classify_def assign_rank_def del: map_map)
  have "sorted (map (\<lambda>x. - dailyVelocity x) (sort_desc dailyVelocity (map velocity_metric ?pm)))"
    unfolding sort_desc_def by (rule sorted_sort_key)
  then show ?thesis unfolding eq by (simp add: sorted_wrt_map)
qed

lemma classification_classify:
  "ProductVelocityMetrics.classification (classify a b (i, m)) =
     (if int i < a then Fast else if int i < b then Medium else Slow)"
  by (simp add: classify_def)

lemma velocity_classes:
  "map ProductVelocityMetrics.classification (calculateProductVelocity salesData) =
     (let total = length (calculateProductVelocity salesData) in
      map (\<lambda>index. if int index < \<lceil>fmul (real total) (fl 0.33)\<rceil> then Fast
                    else if int index < \<lceil>fmul (real total) (fl 0.67)\<rceil> then Medium else Slow) [0..<total])"
proof -
  let ?pm = "foldl (\<lambda>m daily. foldl (velocityMap_record daily) m (DailySales.records daily)) [] salesData"
  let ?ranked = "map assign_rank (enumerate 0 (sort_desc dailyVelocity (map velocity_metric ?pm)))"
  let ?a = "\<lceil>fmul (real (length ?ranked)) (fl 0.33)\<rceil>"
  let ?b = "\<lceil>fmul (real (length ?ranked)) (fl 0.67)\<rceil>"
  have out: "calculateProductVelocity salesData = map (classify ?a ?b) (enumerate 0 ?ranked)"
    unfolding calculateProductVelocity_def Let_def by (rule refl)
  have len: "length (calculateProductVelocity salesData) = length ?ranked"
    unfolding out by simp
  have "map ProductVelocityMetrics.classification (map (classify ?a ?b) (enumerate 0 ?ranked)) =
      map (\<lambda>i. if int i < ?a then Fast else if int i < ?b then Medium else Slow) [0..<0 + length ?ranked]"
    by (rule map_enumerate_index) (rule classification_classify)
  then show ?thesis unfolding len Let_def unfolding out by simp
qed

text \<open>
  The thresholds at two products: \<open>2 * 0.33\<close> and \<open>2 * 0.67\<close> as doubles, with
  ceilings 1 and 2.
\<close>

lemma thresholds_two:
  "fl (2 * fl (33 / 100)) = 5944751508129055 / 9007199254740992"
  "fl (2 * fl (67 / 100)) = 6034823500676465 / 4503599627370496"
proof -
  have a: "fl (33 / 100) = 5944751508129055 / 18014398509481984"
    by (subst fl_eval [of "-2"]) (simp_all add: round_even_def)
  have b: "fl (67 / 100) = 6034823500676465 / 9007199254740992"
    by (subst fl_eval [of "-1"]) (simp_all add: round_even_def)
  show "fl (2 * fl (33 / 100)) = 5944751508129055 / 9007199254740992" unfolding a
    by (subst fl_eval [of "-1"]) (simp_all add: round_even_def)
  show "fl (2 * fl (67 / 100)) = 6034823500676465 / 4503599627370496" unfolding b
    by (subst fl_eval [of "0"]) (simp_all add: round_even_def)
qed

lemma distribution_total:
  "fast (getVelocityDistribution ms) + medium (getVelocityDistribution ms) +
   slow (getVelocityDistribution ms) = length ms"
proof (induction ms)
  case Nil
  then show ?case by (simp add: getVelocityDistribution_def)
next
  case (Cons m ms)
  then show ?case
    by (cases "ProductVelocityMetrics.classification m") (simp_all add: getVelocityDistribution_def)
qed

text \<open>
  C6. For every batch list, with \<open>N\<close> the number of distinct product names:
  \<open>calculateProductVelocity\<close> returns \<open>N\<close> metrics, one per product name; their ranks
  are \<open>1, 2, ..., N\<close> in the order of the output, which is non-increasing in
  \<open>dailyVelocity\<close>; and the fast, medium and slow counts of
  \<open>getVelocityDistribution\<close> add up to \<open>N\<close>.
\<close>

theorem velocity_ranks_and_distribution:
  "(let out = calculateProductVelocity salesData;
        N = card (product_names salesData);
        dist = getVelocityDistribution out
    in length out = N \<and> map rank out = [1..<Suc N] \<and>
       sorted_wrt (\<ge>) (map dailyVelocity out) \<and>
       distinct (map ProductVelocityMetrics.productName out) \<and>
       set (map ProductVelocityMetrics.productName out) = product_names salesData \<and>
       fast dist + medium dist + slow dist = N)"
  using velocity_ranks [of salesData] velocity_sorted [of salesData] velocity_names [of salesData]
    distribution_total [of "calculateProductVelocity salesData"]
  by (simp add: Let_def velocity_length)

text \<open>
  C3, as the code has it. With exactly two distinct products the thresholds are
  \<open>Math.ceil(2 * 0.33) = 1\<close> and \<open>Math.ceil(2 * 0.67) = 2\<close>: the product of rank 1 is fast and
  the product of rank 2 is medium, whether the two velocities differ or not. No product
  is slow.
\<close>

theorem two_products_fast_medium:
  assumes "card (product_names salesData) = 2"
  shows "map ProductVelocityMetrics.classification (calculateProductVelocity salesData) = [Fast, Medium] \<and>
         map rank (calculateProductVelocity salesData) = [1, 2] \<and>
         dailyVelocity (calculateProductVelocity salesData ! 0) \<ge>
           dailyVelocity (calculateProductVelocity salesData ! 1)"
proof -
  have len: "length (calculateProductVelocity salesData) = 2"
    using assms by (simp add: velocity_length)
  have c: "map ProductVelocityMetrics.classification (calculateProductVelocity salesData) = [Fast, Medium]"
    unfolding velocity_classes len Let_def by (simp add: upt_rec numeral_2_eq_2 fmul_def thresholds_two)
  have r: "map rank (calculateProductVelocity salesData) = [1, 2]"
    unfolding velocity_ranks len by (simp add: upt_rec numeral_2_eq_2)
  have "sorted_wrt (\<ge>) (map dailyVelocity (calculateProductVelocity salesData))"
    by (rule velocity_sorted)
  with len have "dailyVelocity (calculateProductVelocity salesData ! 0) \<ge>
           dailyVelocity (calculateProductVelocity salesData ! 1)"
    by (simp add: sorted_wrt_iff_nth_less)
  with c r show ?thesis by simp
qed


theorem two_products_fast_medium_witness:
  "card (product_names scenario) = 2 \<and>
   map ProductVelocityMetrics.classification (calculateProductVelocity scenario) = [Fast, Medium] \<and>
   map rank (calculateProductVelocity scenario) = [1, 2]"
proof -
  have h: "card (product_names scenario) = 2" by code_simp
  from h two_products_fast_medium [OF h] show ?thesis by simp
qed

text \<open>
  C3 as stated fails on the scenario: two products with daily velocities 15 and 5, and
  the product of rank 2 is medium, not slow.
\<close>

theorem two_products_rank2_not_slow:
  "card (product_names scenario) = 2 \<and>
   map (\<lambda>m. (ProductVelocityMetrics.productName m, dailyVelocity m, rank m,
              ProductVelocityMetrics.classification m))
     (calculateProductVelocity scenario) = [(''A'', 15, 1, Fast), (''B'', 5, 2, Medium)] \<and>
   ProductVelocityMetrics.classification (calculateProductVelocity scenario ! 1) \<noteq> Slow"
proof -
  have names: "card (product_names scenario) = 2" by code_simp
  have out: "calculateProductVelocity scenario =
      [\<lparr>ProductVelocityMetrics.productName = ''A'', company = None, totalQty = 30, totalAmount = 3000,
         daysActive = 2, dailyVelocity = 15, weeklyVelocity = 105, classification = Fast, rank = 1\<rparr>,
       \<lparr>ProductVelocityMetrics.productName = ''B'', company = None, totalQty = 5, totalAmount = 500,
         daysActive = 1, dailyVelocity = 5, weeklyVelocity = 35, classification = Medium, rank = 2\<rparr>]"
    by (simp add: calculateProductVelocity_def scenario_def velocityMap_record_def velocity_metric_def
        Let_def Set_add_def or_else_def sort_desc_def assign_rank_def classify_def
        fadd_def fdiv_def fmul_def thresholds_two)
  show ?thesis unfolding out using names by simp
qed

text \<open>
  C4 on the code: the product is present in both periods and its previous velocity is
  exactly 0, so \<open>!previous\<close> holds and the branch of new products reports 100 percent,
  accelerating, gainer. The zero guard of the last branch is not reached.
\<close>

theorem zero_previous_velocity_reported_as_new:
  "map (\<lambda>v. (ProductVelocityMetrics.productName v, dailyVelocity v))
     (calculateProductVelocity zero_prev_previous) = [(''A'', 0)] \<and>
   map (\<lambda>c. (VelocityChange.productName c, currentVelocity c, previousVelocity c, changePercent c,
              trend c, VelocityChange.classification c))
     (compareVelocityPeriods zero_prev_current zero_prev_previous) =
     [(''A'', 5, 0, 100, Accelerating, Gainer)]"
proof -
  have pos: "0 < fl (33 / 100)" "0 < fl (67 / 100)" by (simp_all add: fl_pos)
  have prev: "calculateProductVelocity zero_prev_previous =
      [\<lparr>ProductVelocityMetrics.productName = ''A'', company = None, totalQty = 0, totalAmount = 0,
         daysActive = 1, dailyVelocity = 0, weeklyVelocity = 0, classification = Fast, rank = 1\<rparr>]"
    using pos
    by (simp add: calculateProductVelocity_def zero_prev_previous_def velocityMap_record_def
        velocity_metric_def Let_def Set_add_def or_else_def sort_desc_def assign_rank_def classify_def
        fadd_def fdiv_def fmul_def fl_idem)
  have cur: "calculateProductVelocity zero_prev_current =
      [\<lparr>ProductVelocityMetrics.productName = ''A'', company = None, totalQty = 5, totalAmount = 500,
         daysActive = 1, dailyVelocity = 5, weeklyVelocity = 35, classification = Fast, rank = 1\<rparr>]"
    using pos
    by (simp add: calculateProductVelocity_def zero_prev_current_def velocityMap_record_def
        velocity_metric_def Let_def Set_add_def or_else_def sort_desc_def assign_rank_def classify_def
        fadd_def fdiv_def fmul_def fl_idem)
  show ?thesis
    unfolding compareVelocityPeriods_def Let_def prev cur
    by (simp add: new_Map_def new_Set_def Set_add_def velocity_change_def truthy_def)
qed



subsection \<open>The weekly split of a fortnight\<close>

lemma addDays_fixed:
  assumes "\<forall>t b. tz t b = c"
  shows "addDays tz t k = t + k * msPerDay"
  using assms by (simp add: addDays_def Let_def)

lemma toISODate_parse: "toISODate (parse_date d + k * msPerDay) = d + k"
  by (simp add: toISODate_def parse_date_def msPerDay_def)

lemma last_sorted_Max:
  "sorted xs \<Longrightarrow> xs \<noteq> [] \<Longrightarrow> last xs = Max (set (xs :: int list))"
proof (induction xs)
  case Nil
  then show ?case by simp
next
  case (Cons x xs)
  show ?case
  proof (cases "xs = []")
    case True
    then show ?thesis by simp
  next
    case False
    with Cons have "last xs = Max (set xs)" by simp
    moreover from Cons.prems have "\<forall>y \<in> set xs. x \<le> y" by simp
    ultimately show ?thesis using False
      by (simp add: max_def)
  qed
qed

lemma latest_date:
  assumes "set (map date salesData) = {a..a + 13}"
  shows "last (sort (new_Set (map date salesData))) = a + 13"
    and "sort (new_Set (map date salesData)) \<noteq> []" and "salesData \<noteq> []"
proof -
  let ?dts = "sort (new_Set (map date salesData))"
  have s: "set ?dts = {a..a + 13}" using assms new_Set_props [of "map date salesData"] by simp
  have "a \<in> set ?dts" unfolding s by simp
  then show ne: "?dts \<noteq> []" by (metis empty_iff empty_set)
  have "last ?dts = Max (set ?dts)" by (rule last_sorted_Max) (simp_all add: ne del: set_sort)
  moreover have "Max {a..a + 13} = a + 13" by (rule Max_eqI) auto
  ultimately show "last ?dts = a + 13" unfolding s by simp
  from assms show "salesData \<noteq> []" by auto
qed

text \<open>
  In a runtime whose UTC offset never changes, a fortnight \<open>a, ..., a + 13\<close> splits
  into the batches of the last 7 days and the batches of the 7 days before them.
\<close>

lemma splitDataByPeriod_week_fixed_offset:
  assumes "set (map date salesData) = {a..a + 13}" and "\<forall>t b. tz t b = c"
  shows "splitDataByPeriod tz salesData Week =
           (filter (\<lambda>d. date d \<in> {a + 7..a + 13}) salesData,
            filter (\<lambda>d. date d \<in> {a..a + 6}) salesData)"
proof -
  have cs: "toISODate (addDays tz (parse_date (a + 13)) (- 6)) = a + 7"
    using toISODate_parse [of "a + 13" "- 6"] by (simp add: addDays_fixed [OF assms(2)])
  have pe: "toISODate (addDays tz (addDays tz (parse_date (a + 13)) (- 6)) (- 1)) = a + 6"
    using toISODate_parse [of "a + 13" "- 7"] by (simp add: addDays_fixed [OF assms(2)])
  have ps: "toISODate (addDays tz (addDays tz (addDays tz (parse_date (a + 13)) (- 6)) (- 1)) (- 6)) = a"
    using toISODate_parse [of "a + 13" "- 13"] by (simp add: addDays_fixed [OF assms(2)])
  show ?thesis
    using latest_date [OF assms(1)]
    by (auto simp add: splitDataByPeriod_def Let_def cs pe ps intro!: filter_cong)
qed

text \<open>
  The fourteen days 2024-10-23, ..., 2024-11-05 (day numbers 20019 to 20032), one batch
  a day. In New York daylight saving time ends on 2024-11-03.
\<close>

definition batch_on :: "date \<Rightarrow> batch_type \<Rightarrow> DailySales" where
  "batch_on d t = \<lparr>date = d, type = t, records = [], DailySales.totalAmount = 0, DailySales.totalQuantity = 0\<rparr>"

definition autumn_fortnight :: "DailySales list" where
  "autumn_fortnight = map (\<lambda>d. batch_on d PS)
     [20019, 20020, 20021, 20022, 20023, 20024, 20025, 20026, 20027, 20028, 20029, 20030, 20031, 20032]"

text \<open>
  C9 on the code, in a runtime in New York: the latest date 2024-11-05 is midnight UTC,
  19:00 of 4 November local time; six local days earlier it is 19:00 of 29 October in
  daylight saving time, 23:00 UTC, and \<open>toISOString\<close> prints 2024-10-29, not
  2024-10-30. The current period has 8 days and the previous period 6: the two periods
  are not two windows of 7 days.
\<close>

theorem splitDataByPeriod_week_new_york:
  "map date autumn_fortnight = [20019, 20020, 20021, 20022, 20023, 20024, 20025, 20026, 20027, 20028,
      20029, 20030, 20031, 20032] \<and>
   map date (fst (splitDataByPeriod America_New_York_2024 autumn_fortnight Week)) =
     [20025, 20026, 20027, 20028, 20029, 20030, 20031, 20032] \<and>
   map date (snd (splitDataByPeriod America_New_York_2024 autumn_fortnight Week)) =
     [20019, 20020, 20021, 20022, 20023, 20024]"
proof -
  have dts: "sort (new_Set (map date autumn_fortnight)) =
      [20019, 20020, 20021, 20022, 20023, 20024, 20025, 20026, 20027, 20028, 20029, 20030, 20031, 20032]"
    by (simp add: autumn_fortnight_def batch_on_def new_Set_def Set_add_def)
  have cs: "toISODate (addDays America_New_York_2024 (parse_date 20032) (- 6)) = 20025"
    by (simp add: toISODate_def addDays_def parse_date_def msPerDay_def America_New_York_2024_def)
  have pe: "toISODate (addDays America_New_York_2024
      (addDays America_New_York_2024 (parse_date 20032) (- 6)) (- 1)) = 20024"
    by (simp add: toISODate_def addDays_def parse_date_def msPerDay_def America_New_York_2024_def)
  have ps: "toISODate (addDays America_New_York_2024 (addDays America_New_York_2024
      (addDays America_New_York_2024 (parse_date 20032) (- 6)) (- 1)) (- 6)) = 20018"
    by (simp add: toISODate_def addDays_def parse_date_def msPerDay_def America_New_York_2024_def)
  have ne: "autumn_fortnight \<noteq> []" by (simp add: autumn_fortnight_def)
  show ?thesis
    using ne unfolding splitDataByPeriod_def Let_def dts
    by (simp add: cs pe ps) (simp add: autumn_fortnight_def batch_on_def)
qed
section \<open>Forecasting\<close>

datatype error = TypeError

text \<open>\<open>xs.map(f)\<close> where \<open>f\<close> can throw: the first exception ends the map.\<close>

fun map_result :: "('a \<Rightarrow> error + 'b) \<Rightarrow> 'a list \<Rightarrow> error + 'b list" where
  "map_result f [] = Inr []"
| "map_result f (x # xs) =
     (case f x of
        Inl e \<Rightarrow> Inl e
      | Inr y \<Rightarrow> (case map_result f xs of Inl e \<Rightarrow> Inl e | Inr ys \<Rightarrow> Inr (y # ys)))"

text \<open>
  \<open>Array.prototype.slice\<close>: a negative index counts from the end, and both ends are
  clamped to the array. \<open>-0\<close> is \<open>0\<close>.
\<close>

definition rel_index :: "nat \<Rightarrow> int \<Rightarrow> nat" where
  "rel_index len i = (if i < 0 then nat (max (int len + i) 0) else min (nat i) len)"

definition slice :: "'a list \<Rightarrow> int \<Rightarrow> int \<Rightarrow> 'a list" where
  "slice xs start end = take (rel_index (length xs) end - rel_index (length xs) start)
                          (drop (rel_index (length xs) start) xs)"

definition slice_from :: "'a list \<Rightarrow> int \<Rightarrow> 'a list" where
  "slice_from xs start = drop (rel_index (length xs) start) xs"

text \<open>A natural number in decimal, as a template literal prints it.\<close>

fun show_nat :: "nat \<Rightarrow> string" where
  "show_nat n = (if n < 10 then [''0123456789'' ! n]
                 else show_nat (n div 10) @ [''0123456789'' ! (n mod 10)])"

record DayTotals =
  quantity :: real
  revenue :: real

record DayData =
  date :: date
  quantity :: real
  revenue :: real

record ProductTimeSeries =
  productName :: string
  company :: "string option"
  dailyData :: "DayData list"

record Forecast =
  revenue :: real
  quantity :: real
  confidence :: int
  targetDate :: date

record StandardDeviation =
  revenue :: real
  quantity :: real

record HistoricalMetrics =
  avgDailyRevenue :: real
  avgDailyQuantity :: real
  standardDeviation :: StandardDeviation
  daysOfData :: nat

record ProductForecast =
  productName :: string
  company :: "string option"
  oneDayForecast :: Forecast
  sevenDayForecast :: Forecast
  historicalMetrics :: HistoricalMetrics

record ForecastPeriod =
  oneDayTarget :: date
  sevenDayTarget :: date

record ForecastTotal =
  revenue :: real
  quantity :: real
  avgConfidence :: int

record TotalForecast =
  oneDay :: ForecastTotal
  sevenDay :: ForecastTotal

datatype data_quality = Excellent | Good | Fair | Poor

record Metadata =
  dataQuality :: data_quality
  totalHistoricalDays :: nat
  missingDates :: "date list"
  warnings :: "string list"

record ForecastSummary =
  generatedAt :: string
  forecastPeriod :: ForecastPeriod
  totalForecast :: TotalForecast
  productForecasts :: "ProductForecast list"
  metadata :: Metadata

record Metrics =
  mae :: real
  mape :: real
  rmse :: real

record ForecastValidation =
  productName :: string
  metrics :: Metrics
  testPeriodDays :: nat

subsection \<open>prepareProductTimeSeries\<close>

record SeriesAcc =
  company :: "string option"
  dailyData :: "(date \<times> DayTotals) list"

text \<open>
  The body of the inner \<open>forEach\<close>. An absent product is entered with the company of
  this record and an empty \<open>dailyData\<close>, then read back and its \<open>dailyData\<close> updated in
  place: the entry keeps its position in the map.
\<close>

definition seriesMap_record ::
  "DailySales \<Rightarrow> (string \<times> SeriesAcc) list \<Rightarrow> SalesRecord \<Rightarrow> (string \<times> SeriesAcc) list" where
  "seriesMap_record daily productMap record =
     (let product = (case map_of productMap (ITNAME record) of
                       Some p \<Rightarrow> p
                     | None \<Rightarrow> \<lparr>SeriesAcc.company = SalesRecord.company record,
                                SeriesAcc.dailyData = []\<rparr>);
          existing = (case map_of (SeriesAcc.dailyData product) (DailySales.date daily) of
                        Some e \<Rightarrow> e
                      | None \<Rightarrow> \<lparr>DayTotals.quantity = 0, DayTotals.revenue = 0\<rparr>)
      in Map_set (ITNAME record)
           (product\<lparr>SeriesAcc.dailyData :=
              Map_set (DailySales.date daily)
                \<lparr>DayTotals.quantity = fadd (DayTotals.quantity existing) (QTY record),
                 DayTotals.revenue = fadd (DayTotals.revenue existing) (TAXBLEAMT record)\<rparr>
                (SeriesAcc.dailyData product)\<rparr>)
           productMap)"

definition totalRevenue :: "SeriesAcc \<Rightarrow> real" where
  "totalRevenue data = foldl (\<lambda>sum day. fadd sum (DayTotals.revenue day)) 0 (map snd (SeriesAcc.dailyData data))"

definition fill_dates :: "date list \<Rightarrow> SeriesAcc \<Rightarrow> DayData list" where
  "fill_dates allDates data =
     map (\<lambda>d. let dayData = (case map_of (SeriesAcc.dailyData data) d of
                                Some e \<Rightarrow> e
                              | None \<Rightarrow> \<lparr>DayTotals.quantity = 0, DayTotals.revenue = 0\<rparr>)
               in \<lparr>DayData.date = d,
                   DayData.quantity = DayTotals.quantity dayData,
                   DayData.revenue = DayTotals.revenue dayData\<rparr>) allDates"

definition prepareProductTimeSeries :: "DailySales list \<Rightarrow> nat \<Rightarrow> ProductTimeSeries list" where
  "prepareProductTimeSeries salesData topN =
     (let productMap = foldl (\<lambda>m daily. foldl (seriesMap_record daily) m (DailySales.records daily))
                         [] salesData;
          productTotals = sort_desc snd (map (\<lambda>entry. (fst entry, totalRevenue (snd entry))) productMap);
          topProductNames = new_Set (map fst (slice productTotals 0 (int topN)));
          allDates = sort (new_Set (map DailySales.date salesData))
      in map (\<lambda>entry. \<lparr>ProductTimeSeries.productName = fst entry,
                         ProductTimeSeries.company = SeriesAcc.company (snd entry),
                         ProductTimeSeries.dailyData = fill_dates allDates (snd entry)\<rparr>)
           (filter (\<lambda>entry. fst entry \<in> set topProductNames) productMap))"

subsection \<open>findMissingDates\<close>

text \<open>
  The loop \<open>for (let d = new Date(start); d <= end; d.setDate(d.getDate() + 1))\<close>. \<open>d\<close>
  and \<open>end\<close> are time values; the step is taken in local time, the date that is looked
  up is the UTC date of \<open>d\<close>. Where the step does not advance \<open>d\<close> the loop does not
  end, and the result is \<open>None\<close>.
\<close>

partial_function (option) missing_loop ::
  "timezone \<Rightarrow> date list \<Rightarrow> int \<Rightarrow> int \<Rightarrow> date list \<Rightarrow> date list option" where
  "missing_loop tz allDates d endDate missing =
     (if d \<le> endDate
      then missing_loop tz allDates (addDays tz d 1) endDate
             (if toISODate d \<in> set allDates then missing else missing @ [toISODate d])
      else Some missing)"

definition findMissingDates :: "timezone \<Rightarrow> date list \<Rightarrow> date list option" where
  "findMissingDates tz allDates =
     (if length allDates < 2 then Some []
      else missing_loop tz allDates (parse_date (hd allDates)) (parse_date (last allDates)) [])"

subsection \<open>Moving averages\<close>

text \<open>The result \<open>{ value, confidence }\<close>; the field \<open>value\<close> is written \<open>val\<close>.\<close>

record MovingAverage =
  val :: real
  confidence :: int

definition calculateMovingAverage :: "real list \<Rightarrow> nat \<Rightarrow> nat \<Rightarrow> MovingAverage" where
  "calculateMovingAverage values targetIndex windowSize =
     (if length values = 0 then \<lparr>val = 0, confidence = 0\<rparr>
      else let actualWindow = min windowSize (length values) in
        if actualWindow = 0 then \<lparr>val = 0, confidence = 0\<rparr>
        else let window = slice_from values (- int actualWindow);
                 weights = map (\<lambda>i. real (i + 1)) [0..<length window];
                 totalWeight = foldl (\<lambda>sum w. fadd sum w) 0 weights;
                 weightedSum = foldl (\<lambda>sum vi. fadd sum (fmul (fst vi) (weights ! snd vi))) 0
                                 (zip window [0..<length window]);
                 weightedAvg = fdiv weightedSum totalWeight;
                 dataQualityScore = fmul (min (fdiv (real actualWindow) (real windowSize)) 1) 100;
                 mean = fdiv (foldl (\<lambda>sum v. fadd sum v) 0 window) (real (length window));
                 variance = fdiv (foldl (\<lambda>sum v. fadd sum (pow2 (fsub v mean))) 0 window)
                              (real (length window));
                 stdDev = fsqrt variance;
                 cv = (if mean > 0 then fdiv stdDev mean else 1);
                 variabilityScore = max 0 (fmul (fsub 1 cv) 100);
                 conf = min (fdiv (fadd dataQualityScore variabilityScore) 2) 100
             in \<lparr>val = weightedAvg, confidence = Math_round conf\<rparr>)"

text \<open>The confidences are whole numbers up to 100: their sum is exact.\<close>

definition ensembleMovingAverage :: "real list \<Rightarrow> MovingAverage" where
  "ensembleMovingAverage values =
     (let results = map (\<lambda>window. calculateMovingAverage values (length values) window) [7, 14, 30];
          totalConfidence = foldl (\<lambda>sum r. sum + MovingAverage.confidence r) 0 results
      in if totalConfidence = 0 then \<lparr>val = 0, confidence = 0\<rparr>
         else let weightedValue =
                    fdiv (foldl (\<lambda>sum r. fadd sum (fmul (val r) (real_of_int (MovingAverage.confidence r))))
                            0 results)
                         (real_of_int totalConfidence);
                  avgConfidence = fdiv (real_of_int totalConfidence) (real (length results))
              in \<lparr>val = weightedValue, confidence = Math_round avgConfidence\<rparr>)"

subsection \<open>forecastProduct\<close>

text \<open>
  With an empty \<open>dailyData\<close>, \<open>dailyData[dailyData.length - 1]\<close> is \<open>undefined\<close> and
  reading its \<open>date\<close> throws a \<open>TypeError\<close>. The target dates are
  \<open>setDate(getDate() + 1)\<close> and \<open>setDate(getDate() + 7)\<close> on the parsed last date,
  printed with \<open>toISOString\<close>.
\<close>

definition forecastProduct :: "timezone \<Rightarrow> ProductTimeSeries \<Rightarrow> error + ProductForecast" where
  "forecastProduct tz timeSeries =
     (let days = ProductTimeSeries.dailyData timeSeries;
          revenues = map DayData.revenue days;
          quantities = map DayData.quantity days;
          totalRev = foldl (\<lambda>sum r. fadd sum r) 0 revenues;
          totalQuant = foldl (\<lambda>sum q. fadd sum q) 0 quantities;
          nDays = length days;
          avgRevenue = fdiv totalRev (real nDays);
          avgQuantity = fdiv totalQuant (real nDays);
          revenueVariance = fdiv (foldl (\<lambda>sum r. fadd sum (pow2 (fsub r avgRevenue))) 0 revenues)
                                 (real nDays);
          revenueStdDev = fsqrt revenueVariance;
          quantityVariance = fdiv (foldl (\<lambda>sum q. fadd sum (pow2 (fsub q avgQuantity))) 0 quantities)
                                  (real nDays);
          quantityStdDev = fsqrt quantityVariance
      in if days = [] then Inl TypeError
         else let lastDate = DayData.date (last days);
                  lastDateObj = parse_date lastDate;
                  oneDayTargetDate = toISODate (addDays tz lastDateObj 1);
                  sevenDayTargetDate = toISODate (addDays tz lastDateObj 7);
                  oneDayRevenueForecast = calculateMovingAverage revenues (length revenues) 7;
                  oneDayQuantityForecast = calculateMovingAverage quantities (length quantities) 7;
                  sevenDayRevenueForecast = ensembleMovingAverage revenues;
                  sevenDayQuantityForecast = ensembleMovingAverage quantities;
                  sevenDayRevenueTotal = fmul (val sevenDayRevenueForecast) 7;
                  sevenDayQuantityTotal = fmul (val sevenDayQuantityForecast) 7
              in Inr \<lparr>ProductForecast.productName = ProductTimeSeries.productName timeSeries,
                      ProductForecast.company = ProductTimeSeries.company timeSeries,
                      oneDayForecast =
                        \<lparr>Forecast.revenue = round2 (val oneDayRevenueForecast),
                         Forecast.quantity = round2 (val oneDayQuantityForecast),
                         Forecast.confidence = min (MovingAverage.confidence oneDayRevenueForecast)
                                                   (MovingAverage.confidence oneDayQuantityForecast),
                         targetDate = oneDayTargetDate\<rparr>,
                      sevenDayForecast =
                        \<lparr>Forecast.revenue = round2 sevenDayRevenueTotal,
                         Forecast.quantity = round2 sevenDayQuantityTotal,
                         Forecast.confidence = min (MovingAverage.confidence sevenDayRevenueForecast)
                                                   (MovingAverage.confidence sevenDayQuantityForecast),
                         targetDate = sevenDayTargetDate\<rparr>,
                      historicalMetrics =
                        \<lparr>avgDailyRevenue = round2 avgRevenue,
                         avgDailyQuantity = round2 avgQuantity,
                         standardDeviation =
                           \<lparr>StandardDeviation.revenue = round2 revenueStdDev,
                            StandardDeviation.quantity = round2 quantityStdDev\<rparr>,
                         daysOfData = nDays\<rparr>\<rparr>)"

subsection \<open>generateForecastSummary\<close>

text \<open>
  The accumulator \<open>{ revenue, quantity, confidence }\<close> of the two \<open>reduce\<close> calls. The
  confidences are whole numbers up to 100: their sum is exact.
\<close>

record TotalAcc =
  revenue :: real
  quantity :: real
  confidence :: int

definition add_forecast :: "TotalAcc \<Rightarrow> Forecast \<Rightarrow> TotalAcc" where
  "add_forecast acc f =
     \<lparr>TotalAcc.revenue = fadd (TotalAcc.revenue acc) (Forecast.revenue f),
      TotalAcc.quantity = fadd (TotalAcc.quantity acc) (Forecast.quantity f),
      TotalAcc.confidence = TotalAcc.confidence acc + Forecast.confidence f\<rparr>"

text \<open>The chain of \<open>if\<close>s that grades \<open>missingPercent\<close>.\<close>

definition grade_of_percent :: "real \<Rightarrow> data_quality" where
  "grade_of_percent missingPercent =
     (if missingPercent < 5 then Excellent
      else if missingPercent < 15 then Good
      else if missingPercent < 30 then Fair
      else Poor)"

text \<open>
  The grade from \<open>missingPercent = (missingDates.length / allDates.length) * 100\<close>. With
  no date the quotient is \<open>NaN\<close>, every comparison is false and the grade is poor.
\<close>

definition assess_quality :: "date list \<Rightarrow> date list \<Rightarrow> data_quality" where
  "assess_quality missing allDates =
     (case js_div (real (length missing)) (real (length allDates)) of
        None \<Rightarrow> Poor
      | Some q \<Rightarrow> grade_of_percent (fmul q 100))"

text \<open>
  \<open>now\<close> stands for \<open>new Date().toISOString()\<close>. \<open>firstForecast\<close> is
  \<open>productForecasts[0]\<close>: with no product forecast it is \<open>undefined\<close>, and reading its
  \<open>oneDayForecast\<close> throws a \<open>TypeError\<close>. The result is \<open>None\<close> where the loop of
  \<open>findMissingDates\<close> does not end.
\<close>

definition generateForecastSummary ::
  "timezone \<Rightarrow> string \<Rightarrow> DailySales list \<Rightarrow> nat \<Rightarrow> (error + ForecastSummary) option" where
  "generateForecastSummary tz now salesData topN =
     (let timeSeries = prepareProductTimeSeries salesData topN
      in case map_result (forecastProduct tz) timeSeries of
           Inl e \<Rightarrow> Some (Inl e)
         | Inr forecasts \<Rightarrow>
             (let totalOneDay = foldl (\<lambda>acc pf. add_forecast acc (oneDayForecast pf))
                    \<lparr>TotalAcc.revenue = 0, TotalAcc.quantity = 0, TotalAcc.confidence = 0\<rparr> forecasts;
                  totalSevenDay = foldl (\<lambda>acc pf. add_forecast acc (sevenDayForecast pf))
                    \<lparr>TotalAcc.revenue = 0, TotalAcc.quantity = 0, TotalAcc.confidence = 0\<rparr> forecasts;
                  allDates = sort (new_Set (map DailySales.date salesData))
              in case findMissingDates tz allDates of
                   None \<Rightarrow> None
                 | Some missing \<Rightarrow>
                     (let quality = assess_quality missing allDates;
                          warns = (if length allDates < 30
                                   then [''Limited historical data (< 30 days). Forecasts may be less accurate.'']
                                   else []) @
                                  (if length missing > 0
                                   then [show_nat (length missing) @ '' dates missing from historical data.'']
                                   else [])
                      in case forecasts of
                           [] \<Rightarrow> Some (Inl TypeError)
                         | firstForecast # rest \<Rightarrow>
                             Some (Inr \<lparr>generatedAt = now,
                                  forecastPeriod =
                                    \<lparr>oneDayTarget = targetDate (oneDayForecast firstForecast),
                                     sevenDayTarget = targetDate (sevenDayForecast firstForecast)\<rparr>,
                                  totalForecast =
                                    \<lparr>oneDay =
                                       \<lparr>ForecastTotal.revenue = round2 (TotalAcc.revenue totalOneDay),
                                        ForecastTotal.quantity = round2 (TotalAcc.quantity totalOneDay),
                                        avgConfidence =
                                          Math_round (fdiv (real_of_int (TotalAcc.confidence totalOneDay))
                                                           (real (length forecasts)))\<rparr>,
                                     sevenDay =
                                       \<lparr>ForecastTotal.revenue = round2 (TotalAcc.revenue totalSevenDay),
                                        ForecastTotal.quantity = round2 (TotalAcc.quantity totalSevenDay),
                                        avgConfidence =
                                          Math_round (fdiv (real_of_int (TotalAcc.confidence totalSevenDay))
                                                           (real (length forecasts)))\<rparr>\<rparr>,
                                  productForecasts = forecasts,
                                  metadata =
                                    \<lparr>dataQuality = quality,
                                     totalHistoricalDays = length allDates,
                                     missingDates = missing,
                                     warnings = warns\<rparr>\<rparr>))))"

subsection \<open>backtestForecast\<close>

text \<open>
  The body of \<open>testData.forEach\<close>, on the pair of the arrays \<open>errors\<close> and
  \<open>percentErrors\<close>.
\<close>

definition backtest_step :: "real list \<Rightarrow> real list \<times> real list \<Rightarrow> DayData \<Rightarrow> real list \<times> real list" where
  "backtest_step revenues acc actual =
     (let forecast = calculateMovingAverage revenues (length revenues) 7;
          err = \<bar>fsub (DayData.revenue actual) (val forecast)\<bar>
      in (fst acc @ [err],
          if DayData.revenue actual > 0
          then snd acc @ [fmul (fdiv err (DayData.revenue actual)) 100]
          else snd acc))"

definition backtestForecast :: "ProductTimeSeries \<Rightarrow> nat \<Rightarrow> ForecastValidation" where
  "backtestForecast timeSeries testDays =
     (let days = ProductTimeSeries.dailyData timeSeries
      in if length days < testDays + 7
         then \<lparr>ForecastValidation.productName = ProductTimeSeries.productName timeSeries,
               metrics = \<lparr>mae = 0, mape = 0, rmse = 0\<rparr>,
               testPeriodDays = 0\<rparr>
         else let trainData = slice days 0 (- int testDays);
                  testData = slice_from days (- int testDays);
                  revenues = map DayData.revenue trainData;
                  acc = foldl (backtest_step revenues) ([], []) testData;
                  errors = fst acc;
                  percentErrors = snd acc;
                  maeV = fdiv (foldl (\<lambda>sum e. fadd sum e) 0 errors) (real (length errors));
                  mapeV = (if length percentErrors > 0
                           then fdiv (foldl (\<lambda>sum e. fadd sum e) 0 percentErrors)
                                     (real (length percentErrors))
                           else 0);
                  rmseV = fsqrt (fdiv (foldl (\<lambda>sum e. fadd sum (fmul e e)) 0 errors)
                                      (real (length errors)))
              in \<lparr>ForecastValidation.productName = ProductTimeSeries.productName timeSeries,
                  metrics = \<lparr>mae = round2 maeV, mape = round2 mapeV, rmse = round2 rmseV\<rparr>,
                  testPeriodDays = testDays\<rparr>)"

definition validateForecasts :: "DailySales list \<Rightarrow> nat \<Rightarrow> ForecastValidation list" where
  "validateForecasts salesData topN =
     map (\<lambda>ts. backtestForecast ts 7) (prepareProductTimeSeries salesData topN)"

subsection \<open>The moving average of a constant series\<close>

lemma slice_from_last:
  "0 < k \<Longrightarrow> k \<le> length xs \<Longrightarrow> slice_from xs (- int k) = drop (length xs - k) xs"
  by (simp add: slice_from_def rel_index_def nat_diff_distrib' max_def)

lemma zip_replicate_upt:
  "zip (replicate k v) [0..<k] = map (\<lambda>i. (v, i)) [0..<k]"
  by (rule nth_equalityI) simp_all

text \<open>The computation on a constant series, with the window \<open>k = min w n\<close> taken.\<close>

lemma moving_average_window:
  assumes "0 < n" and "0 < w" and "k = min w n"
  shows "calculateMovingAverage (replicate n v) t w =
     (let weights = map (\<lambda>i. real (i + 1)) [0..<k];
          totalWeight = foldl (\<lambda>sum w. fadd sum w) 0 weights;
          weightedSum = foldl (\<lambda>sum i. fadd sum (fmul v (real (i + 1)))) 0 [0..<k];
          dataQualityScore = fmul (min (fdiv (real k) (real w)) 1) 100;
          mean = fdiv (foldl (\<lambda>sum x. fadd sum x) 0 (replicate k v)) (real k);
          variance = fdiv (foldl (\<lambda>sum x. fadd sum (pow2 (fsub x mean))) 0 (replicate k v)) (real k);
          cv = (if mean > 0 then fdiv (fsqrt variance) mean else 1);
          variabilityScore = max 0 (fmul (fsub 1 cv) 100)
      in \<lparr>val = fdiv weightedSum totalWeight,
          confidence = Math_round (min (fdiv (fadd dataQualityScore variabilityScore) 2) 100)\<rparr>)"
proof -
  from assms have k: "0 < k" "k \<le> n" by simp_all
  have window: "slice_from (replicate n v) (- int k) = replicate k v"
    using slice_from_last [of k "replicate n v"] k by simp
  have wsum: "foldl (\<lambda>sum vi. fadd sum (fmul (fst vi) (map (\<lambda>i. real (i + 1)) [0..<k] ! snd vi))) 0
                (zip (replicate k v) [0..<k]) =
              foldl (\<lambda>sum i. fadd sum (fmul v (real (i + 1)))) 0 [0..<k]"
  proof -
    have "foldl (\<lambda>sum vi. fadd sum (fmul (fst vi) (map (\<lambda>i. real (i + 1)) [0..<k] ! snd vi))) 0
            (map (\<lambda>i. (v, i)) [0..<k]) =
          foldl (\<lambda>sum i. fadd sum (fmul v (map (\<lambda>i. real (i + 1)) [0..<k] ! i))) 0 [0..<k]"
      by (simp add: foldl_map)
    also have "\<dots> = foldl (\<lambda>sum i. fadd sum (fmul v (real (i + 1)))) 0 [0..<k]"
      by (rule foldl_cong) simp_all
    finally show ?thesis by (simp only: zip_replicate_upt)
  qed
  have kne: "(min w n = 0) = False" using assms by (simp add: min_def)
  show ?thesis
    using assms(1)
    unfolding calculateMovingAverage_def Let_def length_replicate assms(3) [symmetric] window wsum
    using k(1) by simp
qed

lemma weights_sum: "sum_list (map (\<lambda>i. real (i + 1)) [0..<k]) = real k * (real k + 1) / 2"
  by (induction k) (simp_all add: field_simps)

lemma zero_squares: "foldl (\<lambda>sum x. fadd sum (pow2 (fsub x v))) 0 (replicate k v) = 0"
  by (induction k) (simp_all add: fadd_def fsub_def pow2_def)

text \<open>
  A whole number \<open>v\<close> for which no weighted sum of the window leaves the range of the
  exactly represented whole numbers: every operation is exact.
\<close>

lemma moving_average_whole:
  assumes "v \<in> \<int>" and "0 \<le> v" and "0 < n" and "0 < w" and "k = min w n"
    and "max 1 v * (real k * (real k + 1) / 2) \<le> 2 ^ 53"
  shows "calculateMovingAverage (replicate n v) t w =
           \<lparr>val = v,
            confidence = Math_round (min (fdiv (fadd (fmul (min (fdiv (real k) (real w)) 1) 100)
                                                     (if v > 0 then 100 else 0)) 2) 100)\<rparr>"
proof -
  define W where "W = real k * (real k + 1) / 2"
  from assms have k: "0 < k" by simp
  then have k1: "1 \<le> real k" by simp
  have kW: "real k \<le> W"
  proof -
    have "real k * 2 \<le> real k * (real k + 1)" using k1 by (intro mult_left_mono) simp_all
    then show ?thesis by (simp add: W_def)
  qed
  then have W1: "1 \<le> W" using k1 by linarith
  from assms(6) have mW: "max 1 v * W \<le> 2 ^ 53" by (simp add: W_def)
  have "1 * W \<le> max 1 v * W" using W1 by (intro mult_right_mono) simp_all
  with mW have Wb: "W \<le> 2 ^ 53" by simp
  have "v * W \<le> max 1 v * W" using W1 by (intro mult_right_mono) simp_all
  with mW have vW: "v * W \<le> 2 ^ 53" by simp
  have "v * 1 \<le> v * W" using W1 assms(2) by (intro mult_left_mono) simp_all
  with vW have vb: "v \<le> 2 ^ 53" by simp
  have "v * real k \<le> v * W" using kW assms(2) by (intro mult_left_mono) simp_all
  with vW have vk: "v * real k \<le> 2 ^ 53" by simp
  have flv: "fl v = v" using assms(1,2) vb by (intro fl_Ints) simp_all
  let ?ws = "map (\<lambda>i. real (i + 1)) [0..<k]"
  have sw: "sum_list ?ws = W" by (simp only: weights_sum W_def)
  have aw: "map (\<lambda>r. \<bar>r\<bar>) ?ws = ?ws" by simp
  have vw: "sum_list (map ((*) v) ?ws) = v * W"
    using sum_list_const_mult [of v "\<lambda>x. x" ?ws] by (simp only: list.map_ident sw)
  have tw: "foldl (\<lambda>sum w. fadd sum w) 0 ?ws = W"
  proof -
    have "foldl (\<lambda>s r. fadd s r) 0 ?ws = 0 + sum_list (map (\<lambda>r. r) ?ws)"
    proof (rule fsum_exact)
      show "list_all (\<lambda>r. r \<in> \<int>) ?ws" by (simp add: list_all_iff)
      show "(0 :: real) \<in> \<int>" by simp
      show "\<bar>0 :: real\<bar> + sum_list (map (\<lambda>r. \<bar>r\<bar>) ?ws) \<le> 2 ^ 53"
        unfolding aw sw using Wb by simp
    qed
    then show ?thesis by (simp only: list.map_ident sw add_0)
  qed
  have prd: "fmul v (real (i + 1)) = v * real (i + 1)" if "i < k" for i
  proof -
    have "real (i + 1) \<le> real k" using that by simp
    then have "v * real (i + 1) \<le> v * real k" using assms(2) by (intro mult_left_mono) simp_all
    with vk have "\<bar>v * real (i + 1)\<bar> \<le> 2 ^ 53" using assms(2) by simp
    moreover have "v * real (i + 1) \<in> \<int>" using assms(1) by (intro Ints_mult) simp_all
    ultimately show ?thesis unfolding fmul_def by (intro fl_Ints)
  qed
  have ws: "foldl (\<lambda>sum i. fadd sum (fmul v (real (i + 1)))) 0 [0..<k] = v * W"
  proof -
    have vm: "map (\<lambda>i. v * real (i + 1)) [0..<k] = map ((*) v) ?ws" by simp
    have va: "map (\<lambda>r. \<bar>v * real (r + 1)\<bar>) [0..<k] = map ((*) v) ?ws"
      using assms(2) by (simp add: abs_mult)
    have "foldl (\<lambda>sum i. fadd sum (fmul v (real (i + 1)))) 0 [0..<k] =
        foldl (\<lambda>sum i. fadd sum (v * real (i + 1))) 0 [0..<k]"
    proof (rule foldl_cong)
      fix a x
      assume "x \<in> set [0..<k]"
      then have "x < k" by simp
      then show "fadd a (fmul v (real (x + 1))) = fadd a (v * real (x + 1))" by (simp only: prd)
    qed simp_all
    also have "\<dots> = 0 + sum_list (map (\<lambda>i. v * real (i + 1)) [0..<k])"
    proof (rule fsum_exact)
      show "list_all (\<lambda>r. v * real (r + 1) \<in> \<int>) [0..<k]"
        using assms(1) by (simp add: list_all_iff)
      show "(0 :: real) \<in> \<int>" by simp
      show "\<bar>0 :: real\<bar> + sum_list (map (\<lambda>r. \<bar>v * real (r + 1)\<bar>) [0..<k]) \<le> 2 ^ 53"
        unfolding va vw using vW by simp
    qed
    also have "\<dots> = v * W" unfolding vm vw by simp
    finally show ?thesis .
  qed
  have ms: "foldl (\<lambda>sum x. fadd sum x) 0 (replicate k v) = real k * v"
  proof -
    have "foldl (\<lambda>s r. fadd s r) 0 (replicate k v) = 0 + sum_list (map (\<lambda>r. r) (replicate k v))"
    proof (rule fsum_exact)
      show "list_all (\<lambda>r. r \<in> \<int>) (replicate k v)" using assms(1) by (simp add: list_all_iff)
      show "(0 :: real) \<in> \<int>" by simp
      show "\<bar>0 :: real\<bar> + sum_list (map (\<lambda>r. \<bar>r\<bar>) (replicate k v)) \<le> 2 ^ 53"
        using vk assms(2) by (simp add: sum_list_replicate mult.commute)
    qed
    then show ?thesis by (simp add: sum_list_replicate)
  qed
  have mean: "fdiv (real k * v) (real k) = v" using k flv by (simp add: fdiv_def)
  have avg: "fdiv (v * W) W = v" using W1 flv by (simp add: fdiv_def)
  show ?thesis
    unfolding moving_average_window [OF assms(3,4,5)] Let_def tw ws ms mean zero_squares avg
    by (simp add: fdiv_def fsqrt_def fsub_def fmul_def)
qed

lemma fl_half: "fl (1 / 2) = 1 / 2"
  by (subst fl_eval [of "-1"]) (simp_all add: round_even_def)

subsection \<open>Rounding errors on a constant series\<close>

text \<open>
  One rounding changes a number by a factor between \<open>rd_lo\<close> and \<open>rd_hi\<close>; up to
  \<open>2 ^ 33\<close> roundings in a row change it by a factor between \<open>1 - eps\<close> and \<open>1 + eps\<close>.
\<close>

definition rd_lo :: real where
  "rd_lo = 1 - 1 / 2 ^ 53"

definition rd_hi :: real where
  "rd_hi = 1 + 1 / 2 ^ 53"

definition eps :: real where
  "eps = 1 / 2 ^ 19"

lemma rd_lo_bounds: "0 < rd_lo" "0 \<le> rd_lo" "rd_lo \<le> 1"
  by (simp_all add: rd_lo_def)

lemma rd_hi_bounds: "1 \<le> rd_hi" "0 < rd_hi" "0 \<le> rd_hi"
  by (simp_all add: rd_hi_def)

lemma fl_between:
  assumes "0 \<le> a" and "a \<le> x" and "x \<le> b"
  shows "a * rd_lo \<le> fl x" and "fl x \<le> b * rd_hi"
proof -
  from assms have x: "0 \<le> x" by simp
  have "a * rd_lo \<le> x * rd_lo" using assms(2) rd_lo_bounds(2) by (rule mult_right_mono)
  also have "\<dots> \<le> fl x" using fl_lower [OF x] by (simp add: rd_lo_def)
  finally show "a * rd_lo \<le> fl x" .
  have "fl x \<le> x * rd_hi" using fl_upper [OF x] by (simp add: rd_hi_def)
  also have "\<dots> \<le> b * rd_hi" using assms(3) rd_hi_bounds(3) by (rule mult_right_mono)
  finally show "fl x \<le> b * rd_hi" .
qed

lemma fl_abs_le: "\<bar>fl x\<bar> \<le> \<bar>x\<bar> * rd_hi"
proof -
  have "\<bar>fl x\<bar> \<le> \<bar>x\<bar> + \<bar>fl x - x\<bar>" by linarith
  also have "\<dots> \<le> \<bar>x\<bar> + \<bar>x\<bar> / 2 ^ 53" using fl_error [of x] by simp
  also have "\<dots> = \<bar>x\<bar> * rd_hi" by (simp add: rd_hi_def algebra_simps)
  finally show ?thesis .
qed

lemma rd_lo_power:
  assumes "m \<le> 2 ^ 33"
  shows "1 - eps \<le> rd_lo ^ m"
proof -
  have "1 + real m * (- (1 / 2 ^ 53)) \<le> (1 + (- (1 / 2 ^ 53))) ^ m"
    by (rule Bernoulli_inequality) simp
  moreover have "real m \<le> 2 ^ 33" using assms by (metis of_nat_le_iff of_nat_numeral of_nat_power)
  then have "real m * (1 / 2 ^ 53) \<le> 2 ^ 33 * (1 / 2 ^ 53)" by (intro mult_right_mono) simp_all
  ultimately show ?thesis by (simp add: rd_lo_def eps_def)
qed

lemma power_one_plus:
  assumes "0 \<le> u" and "2 * real m * u \<le> 1"
  shows "(1 + u) ^ m \<le> 1 + 2 * real m * u"
  using assms(2)
proof (induction m)
  case 0
  then show ?case by simp
next
  case (Suc m)
  have "2 * real m * u \<le> 2 * real (Suc m) * u" using assms(1) by (intro mult_right_mono) simp_all
  with Suc.prems have m: "2 * real m * u \<le> 1" by linarith
  then have IH: "(1 + u) ^ m \<le> 1 + 2 * real m * u" by (rule Suc.IH)
  have "(1 + u) ^ Suc m = (1 + u) ^ m * (1 + u)" by simp
  also have "\<dots> \<le> (1 + 2 * real m * u) * (1 + u)"
    using IH assms(1) by (intro mult_right_mono) simp_all
  also have "\<dots> = 1 + 2 * real m * u + u + 2 * real m * u * u" by (simp add: algebra_simps)
  also have "\<dots> \<le> 1 + 2 * real m * u + u + 1 * u"
    using m assms(1) by (intro add_left_mono mult_right_mono) simp_all
  also have "\<dots> = 1 + 2 * real (Suc m) * u" by (simp add: algebra_simps)
  finally show ?case .
qed

lemma rd_hi_power:
  assumes "m \<le> 2 ^ 33"
  shows "rd_hi ^ m \<le> 1 + eps"
proof -
  have r: "real m \<le> 2 ^ 33" using assms by (metis of_nat_le_iff of_nat_numeral of_nat_power)
  then have b: "2 * real m * (1 / 2 ^ 53) \<le> 2 * 2 ^ 33 * (1 / 2 ^ 53)"
    by (intro mult_right_mono mult_left_mono) simp_all
  then have "2 * real m * (1 / 2 ^ 53) \<le> 1" by simp
  then have "(1 + 1 / 2 ^ 53) ^ m \<le> 1 + 2 * real m * (1 / 2 ^ 53)"
    by (intro power_one_plus) simp_all
  with b show ?thesis by (simp add: rd_hi_def eps_def)
qed

text \<open>A \<open>reduce\<close> that adds non-negative numbers, each known between two bounds.\<close>

lemma rsum_bounds:
  assumes "\<And>x. x \<in> set xs \<Longrightarrow> 0 \<le> lo x \<and> lo x \<le> g x \<and> g x \<le> hi x"
    and "0 \<le> al" and "al \<le> a" and "a \<le> ah"
  shows "(al + sum_list (map lo xs)) * rd_lo ^ length xs \<le> foldl (\<lambda>s x. fadd s (g x)) a xs \<and>
         foldl (\<lambda>s x. fadd s (g x)) a xs \<le> (ah + sum_list (map hi xs)) * rd_hi ^ length xs"
  using assms
proof (induction xs arbitrary: al a ah)
  case Nil
  then show ?case by simp
next
  case (Cons x xs)
  from Cons.prems(1) [of x] have x: "0 \<le> lo x" "lo x \<le> g x" "g x \<le> hi x" by simp_all
  have rest: "\<And>y. y \<in> set xs \<Longrightarrow> 0 \<le> lo y \<and> lo y \<le> g y \<and> g y \<le> hi y"
    using Cons.prems(1) by simp
  have nl: "0 \<le> al + lo x" using x(1) Cons.prems(2) by simp
  have b1: "(al + lo x) * rd_lo \<le> fadd a (g x)"
    unfolding fadd_def using nl x Cons.prems(3) by (intro fl_between(1) [of _ _ "a + g x"]) simp_all
  have b2: "fadd a (g x) \<le> (ah + hi x) * rd_hi"
    unfolding fadd_def using nl x Cons.prems(3,4) by (intro fl_between(2) [of "al + lo x"]) simp_all
  have nl': "0 \<le> (al + lo x) * rd_lo" using nl rd_lo_bounds(2) by (rule mult_nonneg_nonneg)
  have IH: "((al + lo x) * rd_lo + sum_list (map lo xs)) * rd_lo ^ length xs
              \<le> foldl (\<lambda>s x. fadd s (g x)) (fadd a (g x)) xs \<and>
            foldl (\<lambda>s x. fadd s (g x)) (fadd a (g x)) xs
              \<le> ((ah + hi x) * rd_hi + sum_list (map hi xs)) * rd_hi ^ length xs"
    using rest nl' b1 b2 by (rule Cons.IH)
  have sl: "0 \<le> sum_list (map lo xs)" by (rule sum_list_nonneg) (use rest in auto)
  have sh: "0 \<le> sum_list (map hi xs)" by (rule sum_list_nonneg) (use rest in fastforce)
  have "sum_list (map lo xs) * rd_lo \<le> sum_list (map lo xs) * 1"
    using sl rd_lo_bounds(3) by (rule mult_left_mono [rotated])
  then have l: "(al + lo x + sum_list (map lo xs)) * rd_lo \<le> (al + lo x) * rd_lo + sum_list (map lo xs)"
    by (simp add: algebra_simps)
  have "sum_list (map hi xs) * 1 \<le> sum_list (map hi xs) * rd_hi"
    using sh rd_hi_bounds(1) by (rule mult_left_mono [rotated])
  then have h: "(ah + hi x) * rd_hi + sum_list (map hi xs) \<le> (ah + hi x + sum_list (map hi xs)) * rd_hi"
    by (simp add: algebra_simps)
  have "(al + sum_list (map lo (x # xs))) * rd_lo ^ length (x # xs) =
      (al + lo x + sum_list (map lo xs)) * rd_lo * rd_lo ^ length xs" by simp
  also have "\<dots> \<le> ((al + lo x) * rd_lo + sum_list (map lo xs)) * rd_lo ^ length xs"
    using l rd_lo_bounds(2) by (intro mult_right_mono) simp_all
  finally have lower: "(al + sum_list (map lo (x # xs))) * rd_lo ^ length (x # xs)
      \<le> foldl (\<lambda>s x. fadd s (g x)) a (x # xs)" using IH by simp
  have "((ah + hi x) * rd_hi + sum_list (map hi xs)) * rd_hi ^ length xs
      \<le> (ah + hi x + sum_list (map hi xs)) * rd_hi * rd_hi ^ length xs"
    using h rd_hi_bounds(3) by (intro mult_right_mono) simp_all
  also have "\<dots> = (ah + sum_list (map hi (x # xs))) * rd_hi ^ length (x # xs)" by simp
  finally have upper: "foldl (\<lambda>s x. fadd s (g x)) a (x # xs)
      \<le> (ah + sum_list (map hi (x # xs))) * rd_hi ^ length (x # xs)" using IH by simp
  from lower upper show ?case ..
qed

lemma weighted_terms_sum:
  "sum_list (map (\<lambda>i. v * real (i + 1) * r) [0..<k]) =
     v * sum_list (map (\<lambda>i. real (i + 1)) [0..<k]) * r"
  by (induction k) (simp_all add: algebra_simps)

text \<open>
  For a positive \<open>v\<close> and a full window of fewer than \<open>2 ^ 32\<close> entries: the mean is
  \<open>v\<close> up to rounding, so is the weighted average, and the variability score is 100 up
  to rounding.
\<close>

lemma moving_average_rounded:
  assumes "0 < v" and "0 < w" and "w \<le> n" and "w < 2 ^ 32"
  shows "MovingAverage.confidence (calculateMovingAverage (replicate n v) t w) = 100"
    and "\<bar>val (calculateMovingAverage (replicate n v) t w) - v\<bar> \<le> v / 2 ^ 17"
proof -
  from assms have n: "0 < n" and k: "w = min w n" by simp_all
  have v0: "0 \<le> v" using assms(1) by simp
  have kr: "0 < real w" using assms(2) by simp
  have m1: "w + 1 \<le> 2 ^ 33" and m2: "w + 2 \<le> 2 ^ 33" and m0: "w \<le> 2 ^ 33"
    using assms(4) by simp_all
  note lo1 = rd_lo_power [OF m1] and hi1 = rd_hi_power [OF m1]
    and lo0 = rd_lo_power [OF m0] and hi0 = rd_hi_power [OF m0]
    and hi2 = rd_hi_power [OF m2]
  define ws where "ws = map (\<lambda>i. real (i + 1)) [0..<w]"
  define W where "W = sum_list ws"
  define T where "T = foldl (\<lambda>sum w. fadd sum w) 0 ws"
  define WS where "WS = foldl (\<lambda>sum i. fadd sum (fmul v (real (i + 1)))) 0 [0..<w]"
  define S1 where "S1 = foldl (\<lambda>sum x. fadd sum x) 0 (replicate w v)"
  define mean where "mean = fdiv S1 (real w)"
  define d where "d = fsub v mean"
  define S2 where "S2 = foldl (\<lambda>sum x. fadd sum (pow2 (fsub x mean))) 0 (replicate w v)"
  define var where "var = fdiv S2 (real w)"
  define std where "std = fsqrt var"
  define cv where "cv = fdiv std mean"
  define vs where "vs = max 0 (fmul (fsub 1 cv) 100)"
  define conf where "conf = min (fdiv (fadd 100 vs) 2) 100"

  \<comment> \<open>the mean\<close>
  have "(0 + sum_list (map (\<lambda>x. x) (replicate w v))) * rd_lo ^ length (replicate w v) \<le> S1 \<and>
        S1 \<le> (0 + sum_list (map (\<lambda>x. x) (replicate w v))) * rd_hi ^ length (replicate w v)"
    unfolding S1_def using v0 by (intro rsum_bounds) simp_all
  then have S1: "real w * v * rd_lo ^ w \<le> S1" "S1 \<le> real w * v * rd_hi ^ w"
    by (simp_all add: sum_list_replicate)
  have q1: "v * rd_lo ^ w \<le> S1 / real w" "S1 / real w \<le> v * rd_hi ^ w"
    using S1 kr by (simp_all add: field_simps)
  have q0: "0 \<le> v * rd_lo ^ w" using v0 rd_lo_bounds(2) by simp
  have "v * rd_lo ^ w * rd_lo \<le> mean" "mean \<le> v * rd_hi ^ w * rd_hi"
    unfolding mean_def fdiv_def using q0 q1 by (rule fl_between)+
  then have mb: "v * rd_lo ^ (w + 1) \<le> mean" "mean \<le> v * rd_hi ^ (w + 1)"
    by (simp_all add: mult_ac)
  have "v * (1 - eps) \<le> v * rd_lo ^ (w + 1)" using lo1 v0 by (rule mult_left_mono)
  with mb(1) have mean_lo: "v * (1 - eps) \<le> mean" by linarith
  have "v * rd_hi ^ (w + 1) \<le> v * (1 + eps)" using hi1 v0 by (rule mult_left_mono)
  with mb(2) have mean_hi: "mean \<le> v * (1 + eps)" by linarith
  have "0 < v * (1 - eps)" using assms(1) by (simp add: eps_def)
  with mean_lo have mean_pos: "0 < mean" by linarith

  \<comment> \<open>the deviation of an entry from the mean, and its square\<close>
  have "\<bar>v - mean\<bar> \<le> v * eps" using mean_lo mean_hi by (simp add: abs_le_iff algebra_simps)
  then have "\<bar>v - mean\<bar> * rd_hi \<le> v * eps * rd_hi" using rd_hi_bounds(3) by (rule mult_right_mono)
  moreover have "\<bar>d\<bar> \<le> \<bar>v - mean\<bar> * rd_hi" unfolding d_def fsub_def by (rule fl_abs_le)
  moreover have "v * eps * rd_hi \<le> v * eps * 2"
    using v0 by (intro mult_left_mono) (simp_all add: rd_hi_def eps_def)
  ultimately have db: "\<bar>d\<bar> \<le> v * eps * 2" by linarith
  have dd: "d * d \<le> (v * eps * 2) * (v * eps * 2)"
  proof -
    have "d * d = \<bar>d\<bar> * \<bar>d\<bar>" by simp
    also have "\<dots> \<le> (v * eps * 2) * (v * eps * 2)" using db by (intro mult_mono) simp_all
    finally show ?thesis .
  qed
  define c where "c = (v * eps * 2) * (v * eps * 2) * rd_hi"
  have sq: "0 \<le> pow2 d" "pow2 d \<le> c"
  proof -
    have "0 * rd_lo \<le> fl (d * d)" by (rule fl_between(1) [of 0 "d * d" "d * d"]) simp_all
    then show "0 \<le> pow2 d" by (simp add: pow2_def)
    show "pow2 d \<le> c" unfolding pow2_def c_def
      using dd by (intro fl_between(2) [of 0]) simp_all
  qed

  \<comment> \<open>the variance and the standard deviation\<close>
  have "(0 + sum_list (map (\<lambda>x. 0) (replicate w v))) * rd_lo ^ length (replicate w v) \<le> S2 \<and>
        S2 \<le> (0 + sum_list (map (\<lambda>x. c) (replicate w v))) * rd_hi ^ length (replicate w v)"
    unfolding S2_def using sq by (intro rsum_bounds) (simp_all add: d_def)
  then have S2: "0 \<le> S2" "S2 \<le> real w * c * rd_hi ^ w"
    by (simp_all add: sum_list_replicate)
  have q2: "0 \<le> S2 / real w" "S2 / real w \<le> c * rd_hi ^ w"
    using S2 kr by (simp_all add: field_simps)
  have "0 * rd_lo \<le> var" "var \<le> c * rd_hi ^ w * rd_hi"
    unfolding var_def fdiv_def using order_refl [of "0 :: real"] q2 by (rule fl_between)+
  then have var0: "0 \<le> var" and "var \<le> (v * eps * 2) * (v * eps * 2) * rd_hi ^ (w + 2)"
    by (simp_all add: c_def mult_ac)
  moreover have "(v * eps * 2) * (v * eps * 2) * rd_hi ^ (w + 2) \<le> (v * eps * 2) * (v * eps * 2) * (1 + eps)"
    using hi2 by (rule mult_left_mono) (simp add: eps_def)
  moreover have "(v * eps * 2) * (v * eps * 2) * (1 + eps) \<le> (v * eps * 3)\<^sup>2"
  proof -
    have "(v * v) * (eps * 2 * (eps * 2) * (1 + eps)) \<le> (v * v) * (eps * 3 * (eps * 3))"
      by (intro mult_left_mono) (simp_all add: eps_def)
    then show ?thesis by (simp add: power2_eq_square algebra_simps)
  qed
  ultimately have "var \<le> (v * eps * 3)\<^sup>2" by linarith
  then have "sqrt var \<le> v * eps * 3"
    using v0 by (intro real_le_lsqrt) (simp_all add: eps_def)
  moreover have "0 \<le> sqrt var" using var0 by simp
  ultimately have "0 * rd_lo \<le> std" "std \<le> v * eps * 3 * rd_hi"
    unfolding std_def fsqrt_def by (intro fl_between [of 0]; simp)+
  moreover have "v * (eps * 3 * rd_hi) \<le> v * (eps * 4)"
    using v0 by (intro mult_left_mono) (simp_all add: rd_hi_def eps_def)
  ultimately have std: "0 \<le> std" "std \<le> v * eps * 4" by (simp_all add: mult.assoc)

  \<comment> \<open>the coefficient of variation and the variability score\<close>
  have "v * (eps * 4) \<le> v * (eps * 5 * (1 - eps))"
    using v0 by (intro mult_left_mono) (simp_all add: eps_def)
  moreover have "eps * 5 * (v * (1 - eps)) \<le> eps * 5 * mean"
    using mean_lo by (intro mult_left_mono) (simp_all add: eps_def)
  ultimately have "std \<le> eps * 5 * mean" using std(2) by (simp add: mult.assoc mult.left_commute)
  then have "std / mean \<le> eps * 5" using mean_pos by (simp add: field_simps)
  moreover have "0 \<le> std / mean" using std(1) mean_pos by simp
  ultimately have "0 * rd_lo \<le> cv" "cv \<le> eps * 5 * rd_hi"
    unfolding cv_def fdiv_def by (intro fl_between [of 0]; simp)+
  moreover have "eps * 5 * rd_hi \<le> eps * 6" by (simp add: rd_hi_def eps_def)
  ultimately have cv: "0 \<le> cv" "cv \<le> eps * 6" by simp_all
  have "(1 - eps * 6) * rd_lo \<le> fsub 1 cv"
    unfolding fsub_def using cv by (intro fl_between(1) [of _ _ "1 - cv"]) (simp_all add: eps_def)
  moreover have t0: "0 \<le> (1 - eps * 6) * rd_lo" by (simp add: eps_def rd_lo_def)
  ultimately have "(1 - eps * 6) * rd_lo * 100 * rd_lo \<le> fmul (fsub 1 cv) 100"
    unfolding fmul_def
    by (intro fl_between(1) [of _ _ "fsub 1 cv * 100"]) simp_all
  moreover have "999 / 10 \<le> (1 - eps * 6) * rd_lo * 100 * rd_lo" by (simp add: eps_def rd_lo_def)
  ultimately have vs: "999 / 10 \<le> vs" unfolding vs_def by linarith

  \<comment> \<open>the confidence\<close>
  have "(100 + 999 / 10) * rd_lo \<le> fadd 100 vs"
    unfolding fadd_def using vs by (intro fl_between(1) [of _ _ "100 + vs"]) simp_all
  then have "(100 + 999 / 10) * rd_lo / 2 \<le> fadd 100 vs / 2" by simp
  then have "(100 + 999 / 10) * rd_lo / 2 * rd_lo \<le> fdiv (fadd 100 vs) 2"
    unfolding fdiv_def by (intro fl_between(1) [of _ _ "fadd 100 vs / 2"]) (simp_all add: rd_lo_def)
  moreover have "999 / 10 \<le> (100 + 999 / 10) * rd_lo / 2 * rd_lo" by (simp add: rd_lo_def)
  ultimately have "999 / 10 \<le> conf" "conf \<le> 100" unfolding conf_def by simp_all
  then have round: "Math_round conf = 100" unfolding Math_round_def by linarith

  \<comment> \<open>the weighted average\<close>
  have Wpos: "0 < W"
  proof -
    have "W = real w * (real w + 1) / 2" unfolding W_def ws_def by (rule weights_sum)
    moreover have "0 < real w * (real w + 1) / 2" using kr by (intro divide_pos_pos mult_pos_pos) simp_all
    ultimately show ?thesis by (simp only:)
  qed
  have "(0 + sum_list (map (\<lambda>x. x) ws)) * rd_lo ^ length ws \<le> T \<and>
        T \<le> (0 + sum_list (map (\<lambda>x. x) ws)) * rd_hi ^ length ws"
    unfolding T_def by (intro rsum_bounds) (auto simp: ws_def)
  then have T: "W * rd_lo ^ w \<le> T" "T \<le> W * rd_hi ^ w"
    by (simp_all add: W_def) (simp_all add: ws_def)
  have "W * (1 - eps) \<le> W * rd_lo ^ w" using lo0 Wpos by (intro mult_left_mono) simp_all
  with T(1) have T_lo: "W * (1 - eps) \<le> T" by linarith
  have "W * rd_hi ^ w \<le> W * (1 + eps)" using hi0 Wpos by (intro mult_left_mono) simp_all
  with T(2) have T_hi: "T \<le> W * (1 + eps)" by linarith
  have "0 < W * (1 - eps)" using Wpos by (simp add: eps_def)
  with T_lo have T_pos: "0 < T" by linarith
  have "(0 + sum_list (map (\<lambda>i. v * real (i + 1) * rd_lo) [0..<w])) * rd_lo ^ length [0..<w] \<le> WS \<and>
        WS \<le> (0 + sum_list (map (\<lambda>i. v * real (i + 1) * rd_hi) [0..<w])) * rd_hi ^ length [0..<w]"
    unfolding WS_def
  proof (intro rsum_bounds)
    fix i
    assume "i \<in> set [0..<w]"
    have p: "0 \<le> v * real (i + 1)" using v0 by simp
    have "v * real (i + 1) * rd_lo \<le> fl (v * real (i + 1))" "fl (v * real (i + 1)) \<le> v * real (i + 1) * rd_hi"
      using p order_refl [of "v * real (i + 1)"] order_refl [of "v * real (i + 1)"]
      by (rule fl_between)+
    moreover have "0 \<le> v * real (i + 1) * rd_lo" using p rd_lo_bounds(2) by (rule mult_nonneg_nonneg)
    ultimately show "0 \<le> v * real (i + 1) * rd_lo \<and> v * real (i + 1) * rd_lo \<le> fmul v (real (i + 1)) \<and>
        fmul v (real (i + 1)) \<le> v * real (i + 1) * rd_hi"
      by (simp add: fmul_def)
  qed simp_all
  moreover have "sum_list (map (\<lambda>i. v * real (i + 1) * rd_lo) [0..<w]) = v * W * rd_lo"
    "sum_list (map (\<lambda>i. v * real (i + 1) * rd_hi) [0..<w]) = v * W * rd_hi"
    unfolding weighted_terms_sum W_def ws_def by (rule refl)+
  ultimately have "(0 + v * W * rd_lo) * rd_lo ^ length [0..<w] \<le> WS"
    "WS \<le> (0 + v * W * rd_hi) * rd_hi ^ length [0..<w]"
    by (simp_all only:)
  then have WS: "v * W * rd_lo ^ (w + 1) \<le> WS" "WS \<le> v * W * rd_hi ^ (w + 1)"
    by (simp_all add: mult_ac)
  have vW: "0 \<le> v * W" using v0 Wpos by simp
  have "v * W * (1 - eps) \<le> v * W * rd_lo ^ (w + 1)" using lo1 vW by (rule mult_left_mono)
  with WS(1) have WS_lo: "v * W * (1 - eps) \<le> WS" by linarith
  have "v * W * rd_hi ^ (w + 1) \<le> v * W * (1 + eps)" using hi1 vW by (rule mult_left_mono)
  with WS(2) have WS_hi: "WS \<le> v * W * (1 + eps)" by linarith
  have lower: "v * (1 - eps * 2) \<le> WS / T"
  proof -
    have "v * (1 - eps * 2) * (W * (1 + eps)) \<le> v * W * (1 - eps)"
    proof -
      have "(v * W) * ((1 - eps * 2) * (1 + eps)) \<le> (v * W) * (1 - eps)"
        using vW by (intro mult_left_mono) (simp_all add: eps_def)
      then show ?thesis by (simp add: mult.assoc mult.left_commute)
    qed
    moreover have "v * (1 - eps * 2) * T \<le> v * (1 - eps * 2) * (W * (1 + eps))"
      using T_hi v0 by (intro mult_left_mono) (simp_all add: eps_def)
    ultimately have "v * (1 - eps * 2) * T \<le> WS" using WS_lo by linarith
    then show ?thesis using T_pos by (simp add: field_simps)
  qed
  have upper: "WS / T \<le> v * (1 + eps * 3)"
  proof -
    have "v * W * (1 + eps) \<le> v * (1 + eps * 3) * (W * (1 - eps))"
    proof -
      have "(v * W) * (1 + eps) \<le> (v * W) * ((1 + eps * 3) * (1 - eps))"
        using vW by (intro mult_left_mono) (simp_all add: eps_def)
      then show ?thesis by (simp add: mult.assoc mult.left_commute)
    qed
    moreover have "v * (1 + eps * 3) * (W * (1 - eps)) \<le> v * (1 + eps * 3) * T"
      using T_lo v0 by (intro mult_left_mono) (simp_all add: eps_def)
    ultimately have "WS \<le> v * (1 + eps * 3) * T" using WS_hi by linarith
    then show ?thesis using T_pos by (simp add: field_simps)
  qed
  have l0: "0 \<le> v * (1 - eps * 2)" using v0 by (simp add: eps_def)
  have "v * (1 - eps * 2) * rd_lo \<le> fdiv WS T" "fdiv WS T \<le> v * (1 + eps * 3) * rd_hi"
    unfolding fdiv_def using l0 lower upper by (rule fl_between)+
  moreover have "v * (1 - eps * 4) \<le> v * ((1 - eps * 2) * rd_lo)"
    using v0 by (intro mult_left_mono) (simp_all add: eps_def rd_lo_def)
  moreover have "v * ((1 + eps * 3) * rd_hi) \<le> v * (1 + eps * 4)"
    using v0 by (intro mult_left_mono) (simp_all add: eps_def rd_hi_def)
  ultimately have "v * (1 - eps * 4) \<le> fdiv WS T" "fdiv WS T \<le> v * (1 + eps * 4)"
    by (simp_all add: mult.assoc)
  then have "\<bar>fdiv WS T - v\<bar> \<le> v * (eps * 4)" by (simp add: abs_le_iff algebra_simps)
  also have "v * (eps * 4) = v / 2 ^ 17" by (simp add: eps_def)
  finally have vbound: "\<bar>fdiv WS T - v\<bar> \<le> v / 2 ^ 17" .

  \<comment> \<open>the result\<close>
  have dq: "fmul (min (fdiv (real w) (real w)) 1) 100 = 100"
    using assms(2) by (simp add: fdiv_def fmul_def)
  have result: "calculateMovingAverage (replicate n v) t w =
      \<lparr>val = fdiv WS T, confidence = Math_round conf\<rparr>"
    unfolding moving_average_window [OF n assms(2) k] Let_def dq
    unfolding conf_def vs_def cv_def std_def var_def S2_def mean_def [symmetric] S1_def [symmetric]
      WS_def T_def ws_def
    using mean_pos by (simp add: mean_def S1_def)
  show "MovingAverage.confidence (calculateMovingAverage (replicate n v) t w) = 100"
    unfolding result using round by simp
  show "\<bar>val (calculateMovingAverage (replicate n v) t w) - v\<bar> \<le> v / 2 ^ 17"
    unfolding result using vbound by simp
qed

text \<open>The double \<open>0.10000000000000002\<close>, the next one after \<open>0.1\<close>.\<close>

definition d01_up :: real where
  "d01_up = 7205759403792795 / 72057594037927936"

lemma tenth_products:
  "fmul d01 1 = d01" "fmul d01 2 = d02" "fmul d01 3 = d03_up"
  unfolding fmul_def d01_def d02_def d03_up_def
  by ((subst fl_eval [of "-4"], simp_all add: round_even_def)[1],
      (subst fl_eval [of "-3"], simp_all add: round_even_def)[1],
      (subst fl_eval [of "-2"], simp_all add: round_even_def)[1])

lemma tenth_sums:
  "fadd 0 d01 = d01" "fadd d01 d02 = d03_up" "fadd d03_up d03_up = d06_up"
  unfolding fadd_def d01_def d02_def d03_up_def d06_up_def
  by ((subst fl_eval [of "-4"], simp_all add: round_even_def)[1],
      (subst fl_eval [of "-2"], simp_all add: round_even_def)[1],
      (subst fl_eval [of "-1"], simp_all add: round_even_def)[1])

lemma tenth_quotient: "fdiv d06_up 6 = d01_up"
  unfolding fdiv_def d06_up_def d01_up_def
  by (subst fl_eval [of "-4"]) (simp_all add: round_even_def)

lemma tenth_weights: "fadd 0 1 = 1" "fadd 1 2 = 3" "fadd 3 3 = 6"
  by (simp_all add: fadd_def)

lemma tenth_window: "val (calculateMovingAverage (replicate 30 d01) 30 3) = d01_up"
proof -
  have upt: "[0..<3] = [0, 1, 2]" by (simp add: upt_rec)
  show ?thesis
    unfolding moving_average_window [of 30 3 3 d01 30, simplified] Let_def
    by (simp add: upt tenth_products tenth_sums tenth_weights tenth_quotient)
qed

text \<open>
  C7, as the code has it. For a constant series of a value \<open>v\<close> from \<open>1 / 2 ^ 400\<close> to
  \<open>2 ^ 400\<close> (so that no intermediate result leaves the normal range of doubles) with
  at least 30 and fewer than \<open>2 ^ 32\<close> entries, and a window size \<open>w\<close> from 1 to the
  length of the series (7, 14 and 30 are such), \<open>calculateMovingAverage\<close> returns the
  confidence 100 and a value within \<open>v / 2 ^ 17\<close> of \<open>v\<close>. The value is \<open>v\<close> itself
  when \<open>v\<close> is a whole number and \<open>v * w * (w + 1) / 2\<close>, the weighted sum of the
  window, is at most \<open>2 ^ 53\<close>.
\<close>

theorem movingAverage_constant_series:
  assumes "1 / 2 ^ 400 \<le> v" and "v \<le> 2 ^ 400" and "30 \<le> n" and "n < 2 ^ 32"
    and "1 \<le> w" and "w \<le> n"
  shows "MovingAverage.confidence (calculateMovingAverage (replicate n v) t w) = 100 \<and>
         \<bar>val (calculateMovingAverage (replicate n v) t w) - v\<bar> \<le> v / 2 ^ 17 \<and>
         (v \<in> \<int> \<and> v * (real w * (real w + 1) / 2) \<le> 2 ^ 53 \<longrightarrow>
            val (calculateMovingAverage (replicate n v) t w) = v)"
proof -
  have "(0 :: real) < 1 / 2 ^ 400" by simp
  with assms(1) have v: "0 < v" by linarith
  from assms have w: "0 < w" "w < 2 ^ 32" and n: "0 < n" and k: "w = min w n" by simp_all
  have whole: "val (calculateMovingAverage (replicate n v) t w) = v"
    if i: "v \<in> \<int>" and b: "v * (real w * (real w + 1) / 2) \<le> 2 ^ 53"
  proof -
    from i v have "1 \<le> v" by (auto elim!: Ints_cases)
    then have "max 1 v = v" by simp
    with b have "max 1 v * (real w * (real w + 1) / 2) \<le> 2 ^ 53" by simp
    with i v n w(1) k show ?thesis by (subst moving_average_whole [where k = w]) simp_all
  qed
  from moving_average_rounded [OF v w(1) assms(6) w(2)] whole show ?thesis by simp
qed

theorem movingAverage_constant_series_witness:
  "1 / 2 ^ 400 \<le> (250 :: real) \<and> (250 :: real) \<le> 2 ^ 400 \<and>
   MovingAverage.confidence (calculateMovingAverage (replicate 30 250) 30 7) = 100 \<and>
   val (calculateMovingAverage (replicate 30 250) 30 7) = 250 \<and>
   1 / 2 ^ 400 \<le> d01 \<and> d01 \<le> 2 ^ 400 \<and>
   MovingAverage.confidence (calculateMovingAverage (replicate 45 d01) 45 30) = 100 \<and>
   \<bar>val (calculateMovingAverage (replicate 45 d01) 45 30) - d01\<bar> \<le> d01 / 2 ^ 17"
proof -
  have r: "1 / 2 ^ 400 \<le> d01" "d01 \<le> 2 ^ 400" by (simp_all add: d01_def)
  from r movingAverage_constant_series [of 250 30 7 30]
    movingAverage_constant_series [OF r, of 45 30 45]
  show ?thesis by simp
qed

text \<open>
  C7 as stated fails: for the constant series of 0 the coefficient of variation is taken
  as 1 and the confidence is 50; for a window of 60 days on 30 entries the data-quality
  score is 50 and the confidence 75; for a window of 0 the result is value 0, confidence
  0; and for the constant series of \<open>0.1\<close> and a window of 3 the weighted sum
  \<open>0.1 + 0.2 + 0.30000000000000004\<close> is rounded to \<open>0.6000000000000001\<close>, and the value
  is \<open>0.10000000000000002\<close>.
\<close>

theorem movingAverage_constant_series_fails:
  "calculateMovingAverage (replicate 30 0) 30 7 = \<lparr>val = 0, confidence = 50\<rparr> \<and>
   calculateMovingAverage (replicate 30 250) 30 60 = \<lparr>val = 250, confidence = 75\<rparr> \<and>
   calculateMovingAverage (replicate 30 250) 30 0 = \<lparr>val = 0, confidence = 0\<rparr> \<and>
   val (calculateMovingAverage (replicate 30 d01) 30 3) = d01_up \<and> d01 < d01_up"
proof -
  have "calculateMovingAverage (replicate 30 0) 30 7 = \<lparr>val = 0, confidence = 50\<rparr>"
    by (subst moving_average_whole [where k = 7]) (simp_all add: Math_round_def fdiv_def fmul_def fadd_def)
  moreover have "calculateMovingAverage (replicate 30 250) 30 60 = \<lparr>val = 250, confidence = 75\<rparr>"
    by (subst moving_average_whole [where k = 30])
      (simp_all add: Math_round_def fdiv_def fmul_def fadd_def fl_half)
  moreover have "calculateMovingAverage (replicate 30 250) 30 0 = \<lparr>val = 0, confidence = 0\<rparr>"
    by (simp add: calculateMovingAverage_def)
  moreover have "d01 < d01_up" by (simp add: d01_def d01_up_def)
  ultimately show ?thesis using tenth_window by simp
qed

subsection \<open>The history a backtest needs\<close>

text \<open>Thirteen and fourteen days of history.\<close>

definition short_series :: ProductTimeSeries where
  "short_series = \<lparr>ProductTimeSeries.productName = ''A'', ProductTimeSeries.company = None,
     ProductTimeSeries.dailyData =
       map (\<lambda>d. \<lparr>DayData.date = int d, DayData.quantity = 1, DayData.revenue = 100\<rparr>) [0..<13]\<rparr>"

definition long_series :: ProductTimeSeries where
  "long_series = \<lparr>ProductTimeSeries.productName = ''A'', ProductTimeSeries.company = None,
     ProductTimeSeries.dailyData =
       map (\<lambda>d. \<lparr>DayData.date = int d, DayData.quantity = 1, DayData.revenue = 100\<rparr>) [0..<14]\<rparr>"

text \<open>
  C8. With fewer than \<open>testDays + 7\<close> data points \<open>backtestForecast\<close> returns the
  product name with the metrics \<open>mae = 0\<close>, \<open>mape = 0\<close>, \<open>rmse = 0\<close> and
  \<open>testPeriodDays = 0\<close>; with at least \<open>testDays + 7\<close> points it returns
  \<open>testPeriodDays = testDays\<close>. The function has no failing branch.
\<close>

theorem backtestForecast_history_threshold:
  "(length (ProductTimeSeries.dailyData timeSeries) < testDays + 7 \<longrightarrow>
      backtestForecast timeSeries testDays =
        \<lparr>ForecastValidation.productName = ProductTimeSeries.productName timeSeries,
         metrics = \<lparr>mae = 0, mape = 0, rmse = 0\<rparr>, testPeriodDays = 0\<rparr>) \<and>
   (testDays + 7 \<le> length (ProductTimeSeries.dailyData timeSeries) \<longrightarrow>
      testPeriodDays (backtestForecast timeSeries testDays) = testDays)"
  by (simp add: backtestForecast_def Let_def)

theorem backtestForecast_history_threshold_witness:
  "length (ProductTimeSeries.dailyData short_series) < 7 + 7 \<and>
   backtestForecast short_series 7 =
     \<lparr>ForecastValidation.productName = ''A'',
      metrics = \<lparr>mae = 0, mape = 0, rmse = 0\<rparr>, testPeriodDays = 0\<rparr> \<and>
   7 + 7 \<le> length (ProductTimeSeries.dailyData long_series) \<and>
   testPeriodDays (backtestForecast long_series 7) = 7"
proof -
  have s: "length (ProductTimeSeries.dailyData short_series) < 7 + 7"
    and n: "ProductTimeSeries.productName short_series = ''A''"
    by (simp_all add: short_series_def)
  have l: "7 + 7 \<le> length (ProductTimeSeries.dailyData long_series)"
    by (simp add: long_series_def)
  from s n l backtestForecast_history_threshold [of short_series 7]
    backtestForecast_history_threshold [of long_series 7]
  show ?thesis by simp
qed


subsection \<open>When the forecast summary is produced\<close>

lemma map_fst_seriesMap_record:
  "map fst (seriesMap_record daily m r) = Set_add (ITNAME r) (map fst m)"
  by (simp add: seriesMap_record_def Let_def map_fst_Map_set)

lemma map_fst_foldl_seriesMap_record:
  "map fst (foldl (seriesMap_record daily) m rs) =
     foldl (\<lambda>s x. Set_add x s) (map fst m) (map ITNAME rs)"
  by (induction rs arbitrary: m) (simp_all add: map_fst_seriesMap_record)

lemma series_productMap_keys:
  "map fst (foldl (\<lambda>m daily. foldl (seriesMap_record daily) m (DailySales.records daily)) m salesData) =
     foldl (\<lambda>s x. Set_add x s) (map fst m) (map ITNAME (concat (map DailySales.records salesData)))"
  by (induction salesData arbitrary: m) (simp_all add: map_fst_foldl_seriesMap_record)

lemma new_Set_empty: "(new_Set xs = []) = (xs = [])"
proof -
  have "(new_Set xs = []) = (set (new_Set xs) = {})" by (simp only: set_empty)
  also have "\<dots> = (set xs = {})" by (simp only: new_Set_props)
  also have "\<dots> = (xs = [])" by (simp only: set_empty)
  finally show ?thesis .
qed

lemma series_productMap_empty:
  "(foldl (\<lambda>m daily. foldl (seriesMap_record daily) m (DailySales.records daily)) [] salesData = []) =
     (concat (map DailySales.records salesData) = [])"
proof -
  let ?pm = "foldl (\<lambda>m daily. foldl (seriesMap_record daily) m (DailySales.records daily)) [] salesData"
  let ?names = "map ITNAME (concat (map DailySales.records salesData))"
  have keys: "map fst ?pm = new_Set ?names"
    using series_productMap_keys [of "[]" salesData] by (simp add: new_Set_def)
  have "(?pm = []) = (map fst ?pm = [])" by (simp only: map_is_Nil_conv)
  also have "\<dots> = (?names = [])" unfolding keys by (rule new_Set_empty)
  also have "\<dots> = (concat (map DailySales.records salesData) = [])" by (simp only: map_is_Nil_conv)
  finally show ?thesis .
qed

lemma slice_take: "slice xs 0 (int n) = take n xs"
  by (cases "n \<le> length xs") (simp_all add: slice_def rel_index_def min_def)

lemma prepare_no_records:
  "concat (map DailySales.records salesData) = [] \<Longrightarrow> prepareProductTimeSeries salesData topN = []"
  using series_productMap_empty [of salesData]
  by (simp add: prepareProductTimeSeries_def Let_def)

lemma prepare_top_zero: "prepareProductTimeSeries salesData 0 = []"
  by (simp add: prepareProductTimeSeries_def Let_def new_Set_def slice_def rel_index_def)

lemma ne_of_mem: "x \<in> set xs \<Longrightarrow> xs \<noteq> []"
  by auto

lemma sort_Nil: "(sort xs = []) = (xs = [])"
  by (cases xs) simp_all

lemma sort_desc_Nil: "(sort_desc f xs = []) = (xs = [])"
  by (cases xs) (simp_all add: sort_desc_def)

lemma prepare_nonempty:
  assumes "concat (map DailySales.records salesData) \<noteq> []" and "0 < topN"
  shows "prepareProductTimeSeries salesData topN \<noteq> []"
proof -
  let ?pm = "foldl (\<lambda>m daily. foldl (seriesMap_record daily) m (DailySales.records daily)) [] salesData"
  let ?totals = "sort_desc snd (map (\<lambda>entry. (fst entry, totalRevenue (snd entry))) ?pm)"
  let ?top = "new_Set (map fst (slice ?totals 0 (int topN)))"
  from assms(1) have pm: "?pm \<noteq> []" by (simp add: series_productMap_empty)
  then have tot: "?totals \<noteq> []" by (simp add: sort_desc_Nil)
  then have "take topN ?totals \<noteq> []" using assms(2) by simp
  then have "hd (take topN ?totals) \<in> set (take topN ?totals)" by (rule hd_in_set)
  then obtain e where e: "e \<in> set (take topN ?totals)" ..
  then have "e \<in> set ?totals" by (rule in_set_takeD)
  then have "e \<in> set (map (\<lambda>entry. (fst entry, totalRevenue (snd entry))) ?pm)"
    by (simp add: sort_desc_def)
  then obtain entry where entry: "entry \<in> set ?pm" "fst e = fst entry" by auto
  from e have "fst e \<in> set ?top"
    using new_Set_props [of "map fst (slice ?totals 0 (int topN))"] by (simp add: slice_take)
  with entry have "entry \<in> set (filter (\<lambda>entry. fst entry \<in> set ?top) ?pm)" by simp
  then have "filter (\<lambda>entry. fst entry \<in> set ?top) ?pm \<noteq> []" by (rule ne_of_mem)
  then show ?thesis by (simp add: prepareProductTimeSeries_def Let_def)
qed

lemma prepare_dailyData:
  assumes "ts \<in> set (prepareProductTimeSeries salesData topN)"
  shows "ProductTimeSeries.dailyData ts \<noteq> []"
proof -
  have "salesData \<noteq> []"
  proof
    assume "salesData = []"
    then have "prepareProductTimeSeries salesData topN = []" by (simp add: prepare_no_records)
    with assms show False by simp
  qed
  then have "sort (new_Set (map DailySales.date salesData)) \<noteq> []"
    by (simp add: sort_Nil new_Set_empty)
  with assms show ?thesis
    by (auto simp: prepareProductTimeSeries_def Let_def fill_dates_def)
qed

lemma forecastProduct_returns:
  "ProductTimeSeries.dailyData ts \<noteq> [] \<Longrightarrow> \<exists>pf. forecastProduct tz ts = Inr pf"
  by (simp add: forecastProduct_def Let_def)

lemma map_result_returns:
  "(\<And>x. x \<in> set xs \<Longrightarrow> \<exists>y. f x = Inr y) \<Longrightarrow>
     \<exists>ys. map_result f xs = Inr ys \<and> length ys = length xs"
proof (induction xs)
  case Nil
  then show ?case by simp
next
  case (Cons x xs)
  from Cons.prems obtain y where y: "f x = Inr y" by auto
  from Cons obtain ys where "map_result f xs = Inr ys" "length ys = length xs" by auto
  with y show ?case by simp
qed

lemma forecasts_return:
  "\<exists>pfs. map_result (forecastProduct tz) (prepareProductTimeSeries salesData topN) = Inr pfs \<and>
     length pfs = length (prepareProductTimeSeries salesData topN)"
  by (rule map_result_returns) (simp add: forecastProduct_returns prepare_dailyData)

lemma findMissingDates_Nil: "findMissingDates tz [] = Some []"
  by (simp add: findMissingDates_def)

text \<open>
  Without a record, or with \<open>topN = 0\<close>, there is no time series. Where the loop of
  \<open>findMissingDates\<close> ends, the read of \<open>productForecasts[0]\<close> then throws.
\<close>

lemma generateForecastSummary_throws:
  assumes "concat (map DailySales.records salesData) = [] \<or> topN = 0"
    and "findMissingDates tz (sort (new_Set (map DailySales.date salesData))) = Some missing"
  shows "generateForecastSummary tz now salesData topN = Some (Inl TypeError)"
proof -
  from assms(1) have "prepareProductTimeSeries salesData topN = []"
    using prepare_no_records prepare_top_zero by auto
  then show ?thesis using assms(2) by (simp add: generateForecastSummary_def Let_def)
qed

lemma generateForecastSummary_returns:
  assumes "concat (map DailySales.records salesData) \<noteq> []" and "0 < topN"
    and "findMissingDates tz (sort (new_Set (map DailySales.date salesData))) = Some missing"
  shows "\<exists>s. generateForecastSummary tz now salesData topN = Some (Inr s) \<and>
           dataQuality (metadata s) =
             assess_quality missing (sort (new_Set (map DailySales.date salesData))) \<and>
           missingDates (metadata s) = missing"
proof -
  obtain pfs where pfs: "map_result (forecastProduct tz) (prepareProductTimeSeries salesData topN) = Inr pfs"
      "length pfs = length (prepareProductTimeSeries salesData topN)"
    using forecasts_return by blast
  with prepare_nonempty [OF assms(1,2)] obtain pf rest where "pfs = pf # rest"
    by (cases pfs) auto
  with pfs(1) assms(3) show ?thesis
    by (simp add: generateForecastSummary_def Let_def)
qed

text \<open>
  C1 on the code: for the empty batch list there is no product forecast,
  \<open>productForecasts[0]\<close> is \<open>undefined\<close> and reading its \<open>oneDayForecast\<close> throws.
  No summary is returned, in any time zone. By \<open>generateForecastSummary_throws\<close> the
  same happens for every batch list without a record.
\<close>

theorem generateForecastSummary_empty_throws:
  "generateForecastSummary tz now [] topN = Some (Inl TypeError)"
  by (simp add: generateForecastSummary_def prepareProductTimeSeries_def Let_def new_Set_def
      findMissingDates_def)

subsection \<open>The data-quality grade\<close>

lemma hd_sorted_Min:
  "sorted xs \<Longrightarrow> xs \<noteq> [] \<Longrightarrow> hd xs = Min (set (xs :: int list))"
  by (cases xs) (auto intro!: Min_eqI [symmetric])

text \<open>
  In a runtime whose UTC offset never changes, the loop of \<open>findMissingDates\<close> visits
  every day from the first to the last date once, and ends.
\<close>

lemma missing_loop_fixed:
  assumes "\<forall>t b. tz t b = c"
  shows "missing_loop tz allDates (parse_date a) (parse_date b) acc =
           Some (acc @ filter (\<lambda>x. x \<notin> set allDates) [a..b])"
proof (induction "nat (b + 1 - a)" arbitrary: a acc)
  case 0
  then have "b < a" by simp
  then have "\<not> parse_date a \<le> parse_date b" by (simp add: parse_date_def msPerDay_def)
  then have "missing_loop tz allDates (parse_date a) (parse_date b) acc = Some acc"
    by (subst missing_loop.simps) simp
  with \<open>b < a\<close> show ?case by simp
next
  case (Suc n)
  then have le: "a \<le> b" and n: "n = nat (b + 1 - (a + 1))" by simp_all
  from le have cond: "parse_date a \<le> parse_date b" by (simp add: parse_date_def msPerDay_def)
  have step: "addDays tz (parse_date a) 1 = parse_date (a + 1)"
    by (simp add: addDays_fixed [OF assms] parse_date_def algebra_simps)
  have iso: "toISODate (parse_date a) = a"
    using toISODate_parse [of a 0] by simp
  have up: "[a..b] = a # [a + 1..b]" using le by (rule upto_rec1)
  have "missing_loop tz allDates (parse_date a) (parse_date b) acc =
      missing_loop tz allDates (parse_date (a + 1)) (parse_date b)
        (if a \<in> set allDates then acc else acc @ [a])"
    by (subst missing_loop.simps) (simp only: cond step iso if_True)
  also have "\<dots> = Some ((if a \<in> set allDates then acc else acc @ [a]) @
      filter (\<lambda>x. x \<notin> set allDates) [a + 1..b])"
    by (rule Suc.hyps(1) [OF n])
  also have "\<dots> = Some (acc @ filter (\<lambda>x. x \<notin> set allDates) [a..b])"
    unfolding up by simp
  finally show ?case .
qed

lemma findMissingDates_fixed:
  assumes "\<forall>t b. tz t b = c" and "sorted xs" and "xs \<noteq> []"
  shows "findMissingDates tz xs =
           Some (filter (\<lambda>x. x \<notin> set xs) [Min (set xs)..Max (set xs)])"
proof (cases "length xs < 2")
  case True
  with assms(3) obtain d where "xs = [d]" by (cases xs) auto
  then show ?thesis by (simp add: findMissingDates_def)
next
  case False
  then have "findMissingDates tz xs =
      missing_loop tz xs (parse_date (hd xs)) (parse_date (last xs)) []"
    by (simp add: findMissingDates_def)
  also have "\<dots> = Some ([] @ filter (\<lambda>x. x \<notin> set xs) [hd xs..last xs])"
    by (rule missing_loop_fixed [OF assms(1)])
  finally show ?thesis
    by (simp add: hd_sorted_Min [OF assms(2,3)] last_sorted_Max [OF assms(2,3)])
qed

lemma missing_length:
  "length (filter (\<lambda>x. x \<notin> D) [a..b]) = card ({a..b} - D)"
proof -
  have "length (filter (\<lambda>x. x \<notin> D) [a..b]) = card ({x. x \<notin> D} \<inter> set [a..b])"
    by (rule distinct_length_filter) simp
  also have "{x. x \<notin> D} \<inter> set [a..b] = {a..b} - D" by auto
  finally show ?thesis .
qed

text \<open>
  The grade from the days of the range that are missing over the distinct observed
  dates, in the arithmetic of the code.
\<close>

definition observed_grade :: "DailySales list \<Rightarrow> data_quality" where
  "observed_grade salesData =
     (let D = set (map DailySales.date salesData)
      in grade_of_percent (fmul (fdiv (real (card ({Min D..Max D} - D))) (real (card D))) 100))"

text \<open>
  The grade as the specification words it: the missing days of the inclusive range from
  the first to the last observed date, divided by the length of that range, times 100.
\<close>

definition claimed_dataQuality :: "DailySales list \<Rightarrow> data_quality" where
  "claimed_dataQuality salesData =
     (let observed = map DailySales.date salesData;
          calendar = [Min (set observed)..Max (set observed)];
          missing = filter (\<lambda>d. d \<notin> set observed) calendar;
          missingPercent = fmul (fdiv (real (length missing)) (real (length calendar))) 100
      in grade_of_percent missingPercent)"

lemma summary_fixed_offset:
  assumes "concat (map DailySales.records salesData) \<noteq> []" and "0 < topN"
    and "\<forall>t b. tz t b = c"
  shows "\<exists>s. generateForecastSummary tz now salesData topN = Some (Inr s) \<and>
           dataQuality (metadata s) = observed_grade salesData"
proof -
  let ?ds = "map DailySales.date salesData"
  let ?all = "sort (new_Set ?ds)"
  let ?missing = "filter (\<lambda>x. x \<notin> set ?all) [Min (set ?all)..Max (set ?all)]"
  from assms(1) have "salesData \<noteq> []" by auto
  then have ne: "?all \<noteq> []" by (simp add: sort_Nil new_Set_empty)
  have set: "set ?all = set ?ds" using new_Set_props [of ?ds] by simp
  have "distinct ?all" using new_Set_props [of ?ds] by simp
  then have len: "length ?all = card (set ?ds)" using set by (metis distinct_card)
  have fm: "findMissingDates tz ?all = Some ?missing"
    by (rule findMissingDates_fixed [OF assms(3) _ ne]) simp
  have miss: "length ?missing = card ({Min (set ?ds)..Max (set ?ds)} - set ?ds)"
    unfolding set by (rule missing_length)
  from ne len have pos: "card (set ?ds) \<noteq> 0" by auto
  have "assess_quality ?missing ?all = observed_grade salesData"
    unfolding assess_quality_def observed_grade_def miss len using pos
    by (simp add: js_div_def Let_def fdiv_def)
  with generateForecastSummary_returns [OF assms(1,2) fm, of now] show ?thesis by metis
qed

subsection \<open>The grade in double arithmetic\<close>

lemma threshold_percent:
  "fmul (fl (5 / 100)) 100 = 5" "fmul (fl (15 / 100)) 100 = 15" "fmul (fl (30 / 100)) 100 = 30"
proof -
  have "fl (5 / 100) = 7205759403792794 / 2 ^ 57"
    by (subst fl_eval [of "-5"]) (simp_all add: round_even_def)
  moreover have "fl (7205759403792794 / 2 ^ 57 * 100) = 5"
    by (subst fl_eval [of 2]) (simp_all add: round_even_def)
  ultimately show "fmul (fl (5 / 100)) 100 = 5" by (simp only: fmul_def)
  have "fl (15 / 100) = 5404319552844595 / 2 ^ 55"
    by (subst fl_eval [of "-3"]) (simp_all add: round_even_def)
  moreover have "fl (5404319552844595 / 2 ^ 55 * 100) = 15"
    by (subst fl_eval [of 3]) (simp_all add: round_even_def)
  ultimately show "fmul (fl (15 / 100)) 100 = 15" by (simp only: fmul_def)
  have "fl (30 / 100) = 5404319552844595 / 2 ^ 54"
    by (subst fl_eval [of "-2"]) (simp_all add: round_even_def)
  moreover have "fl (5404319552844595 / 2 ^ 54 * 100) = 30"
    by (subst fl_eval [of 4]) (simp_all add: round_even_def)
  ultimately show "fmul (fl (30 / 100)) 100 = 30" by (simp only: fmul_def)
qed

text \<open>
  For fewer than \<open>2 ^ 32\<close> observed dates the two roundings do not move the percentage
  across 5, 15 or 30: a quotient \<open>m / n\<close> that is not the cut itself is at least
  \<open>1 / n\<close> away from it.
\<close>

lemma grade_cut:
  assumes "0 < n" and "n \<le> 2 ^ 32" and "T = 5 \<or> T = 15 \<or> T = 30"
  shows "(fmul (fdiv (real m) (real n)) 100 < real T) = (real m / real n * 100 < real T)"
proof -
  define q where "q = real m / real n"
  have q0: "0 \<le> q" by (simp add: q_def)
  have n0: "0 < real n" using assms(1) by simp
  have nb: "real n \<le> 2 ^ 32" using assms(2) by (metis of_nat_le_iff of_nat_numeral of_nat_power)
  have gap: "1 / 2 ^ 32 \<le> 1 / real n" using n0 nb by (intro divide_left_mono) simp_all
  have T0: "0 < real T" "real T \<le> 30" using assms(3) by auto
  consider "m * 100 < T * n" | "m * 100 = T * n" | "T * n < m * 100" by linarith
  then show ?thesis
  proof cases
    case 1
    then have "m * 100 + 1 \<le> T * n" by simp
    then have "real (m * 100 + 1) \<le> real (T * n)" by (simp only: of_nat_le_iff)
    then have "real m * 100 + 1 \<le> real T * real n" by simp
    then have "(real m * 100 + 1) / real n \<le> real T" using n0 by (simp add: field_simps)
    then have "q * 100 + 1 / real n \<le> real T" by (simp add: q_def add_divide_distrib)
    with gap have b: "q * 100 \<le> real T - 1 / 2 ^ 32" by linarith
    have q100: "0 \<le> q * 100" using q0 by simp
    note b
    moreover have "(0 :: real) < 1 / 2 ^ 32" by simp
    ultimately have lt: "q * 100 < real T" by linarith
    have "fl q \<le> q * rd_hi" using q0 by (intro fl_between(2) [of 0]) simp_all
    then have "fl q * 100 \<le> q * 100 * rd_hi" by simp
    moreover have "0 \<le> fl q * 100" using q0 by (simp add: fl_nonneg)
    ultimately have "fl (fl q * 100) \<le> q * 100 * rd_hi * rd_hi"
      by (intro fl_between(2) [of 0]) simp_all
    moreover have "q * 100 * (rd_hi * rd_hi) \<le> (real T - 1 / 2 ^ 32) * (rd_hi * rd_hi)"
      using b by (intro mult_right_mono) (simp_all add: rd_hi_def)
    moreover have "(real T - 1 / 2 ^ 32) * (rd_hi * rd_hi) < real T"
    proof -
      have "rd_hi * rd_hi \<le> 1 + 1 / 2 ^ 51" by (simp add: rd_hi_def)
      moreover have "0 \<le> real T - 1 / 2 ^ 32" using b q100 by linarith
      ultimately have "(real T - 1 / 2 ^ 32) * (rd_hi * rd_hi) \<le> (real T - 1 / 2 ^ 32) * (1 + 1 / 2 ^ 51)"
        by (intro mult_left_mono)
      also have "\<dots> = real T - 1 / 2 ^ 32 + (real T - 1 / 2 ^ 32) * (1 / 2 ^ 51)"
        by (simp only: distrib_left mult_1_right)
      also have "\<dots> \<le> real T - 1 / 2 ^ 32 + 30 * (1 / 2 ^ 51)"
        using T0 by (intro add_left_mono mult_right_mono) simp_all
      also have "\<dots> < real T" by simp
      finally show ?thesis .
    qed
    ultimately have "fl (fl q * 100) < real T" by (simp add: mult.assoc)
    with lt show ?thesis by (simp add: fmul_def fdiv_def q_def)
  next
    case 2
    then have "real (m * 100) = real (T * n)" by (simp only:)
    then have "real m * 100 = real T * real n" by simp
    then have q: "q = real T / 100" using n0 by (simp add: q_def field_simps)
    have "fmul (fl (real T / 100)) 100 = real T"
      using assms(3) threshold_percent by auto
    then show ?thesis by (simp add: fdiv_def q [unfolded q_def])
  next
    case 3
    then have "T * n + 1 \<le> m * 100" by simp
    then have "real (T * n + 1) \<le> real (m * 100)" by (simp only: of_nat_le_iff)
    then have "real T * real n + 1 \<le> real m * 100" by simp
    then have "(real T * real n + 1) / real n \<le> real m * 100 / real n"
      using n0 by (intro divide_right_mono) simp_all
    moreover have "(real T * real n + 1) / real n = real T + 1 / real n"
      using n0 by (simp add: add_divide_distrib)
    ultimately have "real T + 1 / real n \<le> q * 100" by (simp add: q_def)
    with gap have b: "real T + 1 / 2 ^ 32 \<le> q * 100" by linarith
    moreover have "(0 :: real) < 1 / 2 ^ 32" by simp
    ultimately have ge: "\<not> q * 100 < real T" by linarith
    have "q * rd_lo \<le> fl q" using q0 by (intro fl_between(1) [of _ _ q]) simp_all
    then have "q * 100 * rd_lo \<le> fl q * 100" by simp
    moreover have "0 \<le> q * 100 * rd_lo" using q0 rd_lo_bounds(2) by simp
    ultimately have "q * 100 * rd_lo * rd_lo \<le> fl (fl q * 100)"
      by (intro fl_between(1) [of _ _ "fl q * 100"]) simp_all
    moreover have "(real T + 1 / 2 ^ 32) * (rd_lo * rd_lo) \<le> q * 100 * (rd_lo * rd_lo)"
      using b by (intro mult_right_mono) (simp_all add: rd_lo_def)
    moreover have "real T < (real T + 1 / 2 ^ 32) * (rd_lo * rd_lo)"
    proof -
      have "1 - 1 / 2 ^ 52 \<le> rd_lo * rd_lo" by (simp add: rd_lo_def)
      moreover have "0 \<le> real T + 1 / 2 ^ 32" by simp
      ultimately have "(real T + 1 / 2 ^ 32) * (1 - 1 / 2 ^ 52) \<le> (real T + 1 / 2 ^ 32) * (rd_lo * rd_lo)"
        by (intro mult_left_mono)
      moreover have "(real T + 1 / 2 ^ 32) * (1 - 1 / 2 ^ 52) =
          real T + 1 / 2 ^ 32 - (real T + 1 / 2 ^ 32) * (1 / 2 ^ 52)"
        by (simp only: right_diff_distrib mult_1_right)
      moreover have "(real T + 1 / 2 ^ 32) * (1 / 2 ^ 52) \<le> 31 * (1 / 2 ^ 52)"
        using T0 by (intro mult_right_mono) simp_all
      moreover have "(31 :: real) * (1 / 2 ^ 52) < 1 / 2 ^ 32" by simp
      ultimately show ?thesis by linarith
    qed
    ultimately have "real T < fl (fl q * 100)" by (simp add: mult.assoc)
    with ge show ?thesis by (simp add: fmul_def fdiv_def q_def)
  qed
qed

lemma grade_exact:
  assumes "0 < n" and "n \<le> 2 ^ 32"
  shows "grade_of_percent (fmul (fdiv (real m) (real n)) 100) = grade_of_percent (real m / real n * 100)"
  using grade_cut [OF assms, of 5 m] grade_cut [OF assms, of 15 m] grade_cut [OF assms, of 30 m]
  by (simp add: grade_of_percent_def)

text \<open>A quotient times 100, within one percent of the exact product.\<close>

lemma percent_lower:
  assumes "0 \<le> x" and "T \<le> x * 99"
  shows "T \<le> fmul (fl x) 100"
proof -
  have a: "x * (1 - 1 / 2 ^ 53) \<le> fl x" using assms(1) by (rule fl_lower)
  have nn: "0 \<le> fl x" using assms(1) by (rule fl_nonneg)
  then have "fl x * 100 * (1 - 1 / 2 ^ 53) \<le> fl (fl x * 100)" by (intro fl_lower) simp
  moreover have "x * 99 \<le> fl x * 100 * (1 - 1 / 2 ^ 53)"
  proof -
    have "x * 99 \<le> x * (1 - 1 / 2 ^ 53) * (100 * (1 - 1 / 2 ^ 53))"
      using assms(1) by (simp add: field_simps)
    also have "\<dots> \<le> fl x * (100 * (1 - 1 / 2 ^ 53))"
      using a by (intro mult_right_mono) simp_all
    finally show ?thesis by (simp add: mult.assoc)
  qed
  ultimately show ?thesis using assms(2) by (simp add: fmul_def)
qed

lemma percent_upper:
  assumes "0 \<le> x" and "x * 101 < T"
  shows "fmul (fl x) 100 < T"
proof -
  have a: "fl x \<le> x * (1 + 1 / 2 ^ 53)" using assms(1) by (rule fl_upper)
  have nn: "0 \<le> fl x" using assms(1) by (rule fl_nonneg)
  then have "fl (fl x * 100) \<le> fl x * 100 * (1 + 1 / 2 ^ 53)" by (intro fl_upper) simp
  moreover have "fl x * 100 * (1 + 1 / 2 ^ 53) \<le> x * 101"
  proof -
    have "fl x * (100 * (1 + 1 / 2 ^ 53)) \<le> x * (1 + 1 / 2 ^ 53) * (100 * (1 + 1 / 2 ^ 53))"
      using a by (intro mult_right_mono) simp_all
    also have "\<dots> \<le> x * 101"
      using assms(1) by (simp add: field_simps)
    finally show ?thesis by (simp add: mult.assoc)
  qed
  ultimately show ?thesis using assms(2) by (simp add: fmul_def)
qed

text \<open>Six batches over seven days: day 4 is missing.\<close>

definition week_gap :: "DailySales list" where
  "week_gap = map (\<lambda>d. \<lparr>DailySales.date = d, type = PS,
       DailySales.records = [\<lparr>HSNCODE = ''38'', ITNAME = ''A'', QTY = 1, TAXBLEAMT = 100, GST = 18,
                               SalesRecord.company = None\<rparr>],
       DailySales.totalAmount = 100, DailySales.totalQuantity = 1\<rparr>) [1, 2, 3, 5, 6, 7]"

lemma week_gap_missing:
  "card ({Min (set (map DailySales.date week_gap))..Max (set (map DailySales.date week_gap))}
          - set (map DailySales.date week_gap)) = 1"
  by code_simp

lemma week_gap_size: "card (set (map DailySales.date week_gap)) = 6"
  by code_simp

lemma week_gap_observed: "observed_grade week_gap = Fair"
proof -
  have "(15 :: real) \<le> fmul (fl (1 / 6)) 100" by (rule percent_lower) simp_all
  moreover have "fmul (fl (1 / 6)) 100 < (30 :: real)" by (rule percent_upper) simp_all
  ultimately show ?thesis
    unfolding observed_grade_def Let_def week_gap_missing week_gap_size fdiv_def grade_of_percent_def
    by simp
qed

lemma week_gap_calendar_missing:
  "length (filter (\<lambda>d. d \<notin> set (map DailySales.date week_gap))
             [Min (set (map DailySales.date week_gap))..Max (set (map DailySales.date week_gap))]) = 1"
  by code_simp

lemma week_gap_calendar:
  "length [Min (set (map DailySales.date week_gap))..Max (set (map DailySales.date week_gap))] = 7"
  by code_simp

lemma week_gap_claimed: "claimed_dataQuality week_gap = Good"
proof -
  have "(5 :: real) \<le> fmul (fl (1 / 7)) 100" by (rule percent_lower) simp_all
  moreover have "fmul (fl (1 / 7)) 100 < (15 :: real)" by (rule percent_upper) simp_all
  ultimately show ?thesis
    unfolding claimed_dataQuality_def Let_def week_gap_calendar_missing week_gap_calendar fdiv_def
      grade_of_percent_def
    by simp
qed

text \<open>
  Thirteen batches from 2026-03-23 to 2026-04-05: 2026-03-29, the day on which daylight
  saving time starts in Berlin, is missing.
\<close>

definition spring_fortnight :: "DailySales list" where
  "spring_fortnight = map (\<lambda>d. \<lparr>DailySales.date = d, type = PS,
       DailySales.records = [\<lparr>HSNCODE = ''38'', ITNAME = ''A'', QTY = 1, TAXBLEAMT = 100, GST = 18,
                               SalesRecord.company = None\<rparr>],
       DailySales.totalAmount = 100, DailySales.totalQuantity = 1\<rparr>)
     [20535, 20536, 20537, 20538, 20539, 20540, 20542, 20543, 20544, 20545, 20546, 20547, 20548]"

lemma spring_dates:
  "sort (new_Set (map DailySales.date spring_fortnight)) =
     [20535, 20536, 20537, 20538, 20539, 20540, 20542, 20543, 20544, 20545, 20546, 20547, 20548]"
  by (simp add: spring_fortnight_def new_Set_def Set_add_def)

text \<open>
  In Berlin the loop starts at 01:00 local time. From 2026-03-30 on, 01:00 local time is
  23:00 UTC of the day before: 2026-03-29 is visited twice and entered twice.
\<close>

lemma spring_missing:
  "findMissingDates Europe_Berlin_2026
     [20535, 20536, 20537, 20538, 20539, 20540, 20542, 20543, 20544, 20545, 20546, 20547, 20548] =
     Some [20541, 20541]"
  by (simp add: findMissingDates_def missing_loop.simps addDays_def parse_date_def toISODate_def
      msPerDay_def Europe_Berlin_2026_def Let_def)

lemma spring_assessed:
  "assess_quality [20541, 20541]
     [20535, 20536, 20537, 20538, 20539, 20540, 20542, 20543, 20544, 20545, 20546, 20547, 20548] = Fair"
proof -
  have "(15 :: real) \<le> fmul (fl (2 / 13)) 100" by (rule percent_lower) simp_all
  moreover have "fmul (fl (2 / 13)) 100 < (30 :: real)" by (rule percent_upper) simp_all
  ultimately show ?thesis
    by (simp add: assess_quality_def js_div_def fdiv_def grade_of_percent_def)
qed

lemma spring_observed_missing:
  "card ({Min (set (map DailySales.date spring_fortnight))..Max (set (map DailySales.date spring_fortnight))}
          - set (map DailySales.date spring_fortnight)) = 1"
  by code_simp

lemma spring_observed_size: "card (set (map DailySales.date spring_fortnight)) = 13"
  by code_simp

lemma spring_observed: "observed_grade spring_fortnight = Good"
proof -
  have "(5 :: real) \<le> fmul (fl (1 / 13)) 100" by (rule percent_lower) simp_all
  moreover have "fmul (fl (1 / 13)) 100 < (15 :: real)" by (rule percent_upper) simp_all
  ultimately show ?thesis
    unfolding observed_grade_def Let_def spring_observed_missing spring_observed_size fdiv_def
      grade_of_percent_def
    by simp
qed

lemma spring_calendar_missing:
  "length (filter (\<lambda>d. d \<notin> set (map DailySales.date spring_fortnight))
             [Min (set (map DailySales.date spring_fortnight))..
              Max (set (map DailySales.date spring_fortnight))]) = 1"
  by code_simp

lemma spring_calendar:
  "length [Min (set (map DailySales.date spring_fortnight))..
           Max (set (map DailySales.date spring_fortnight))] = 14"
  by code_simp

lemma spring_claimed: "claimed_dataQuality spring_fortnight = Good"
proof -
  have "(5 :: real) \<le> fmul (fl (1 / 14)) 100" by (rule percent_lower) simp_all
  moreover have "fmul (fl (1 / 14)) 100 < (15 :: real)" by (rule percent_upper) simp_all
  ultimately show ?thesis
    unfolding claimed_dataQuality_def Let_def spring_calendar_missing spring_calendar fdiv_def
      grade_of_percent_def
    by simp
qed

text \<open>
  C2, as the code has it. In a runtime whose UTC offset never changes (UTC, India), for
  a batch list with at least one record and \<open>topN > 0\<close> the summary is returned, and
  its grade is determined by the number of days of the inclusive range from the first to
  the last observed date that are missing from the input, divided by the number of
  distinct observed dates, times 100: below 5 excellent, below 15 good, below 30 fair,
  otherwise poor. The percentage is the one the code computes in double arithmetic; for
  up to \<open>2 ^ 32\<close> observed dates the grade is that of the exact percentage.
\<close>

theorem dataQuality_missing_over_observed:
  assumes "concat (map DailySales.records salesData) \<noteq> []" and "0 < topN"
    and "\<forall>t b. tz t b = c"
  shows "\<exists>s. generateForecastSummary tz now salesData topN = Some (Inr s) \<and>
           (let D = set (map DailySales.date salesData);
                missing = real (card ({Min D..Max D} - D));
                observed = real (card D)
            in dataQuality (metadata s) = grade_of_percent (fmul (fdiv missing observed) 100) \<and>
               (card D \<le> 2 ^ 32 \<longrightarrow>
                  dataQuality (metadata s) = grade_of_percent (missing / observed * 100)))"
proof -
  let ?D = "set (map DailySales.date salesData)"
  from assms(1) have "?D \<noteq> {}" by auto
  then have pos: "0 < card ?D" by (simp add: card_gt_0_iff)
  obtain s where s: "generateForecastSummary tz now salesData topN = Some (Inr s)"
      "dataQuality (metadata s) = observed_grade salesData"
    using summary_fixed_offset [OF assms] by blast
  have "observed_grade salesData =
      grade_of_percent (real (card ({Min ?D..Max ?D} - ?D)) / real (card ?D) * 100)"
    if "card ?D \<le> 2 ^ 32"
    unfolding observed_grade_def Let_def using pos that by (rule grade_exact)
  with s show ?thesis unfolding Let_def observed_grade_def by auto
qed

theorem dataQuality_missing_over_observed_witness:
  "(\<forall>t b. Asia_Kolkata t b = 19800000) \<and>
   concat (map DailySales.records week_gap) \<noteq> [] \<and>
   card (set (map DailySales.date week_gap)) \<le> 2 ^ 32 \<and>
   (\<exists>s. generateForecastSummary Asia_Kolkata '''' week_gap 10 = Some (Inr s) \<and>
        dataQuality (metadata s) = Fair)"
proof -
  have z: "\<forall>t b. Asia_Kolkata t b = 19800000" by (simp add: Asia_Kolkata_def)
  have h: "concat (map DailySales.records week_gap) \<noteq> []" by (simp add: week_gap_def)
  have p: "(0 :: nat) < 10" by simp
  have n: "card (set (map DailySales.date week_gap)) \<le> 2 ^ 32" unfolding week_gap_size by simp
  have g: "grade_of_percent (real 1 / real 6 * 100) = Fair" by (simp add: grade_of_percent_def)
  from dataQuality_missing_over_observed [OF h p z, of "''''"]
  have e: "\<exists>s. generateForecastSummary Asia_Kolkata '''' week_gap 10 = Some (Inr s) \<and>
        dataQuality (metadata s) = Fair"
    unfolding Let_def week_gap_missing week_gap_size using n g by auto
  show ?thesis by (rule conjI [OF z conjI [OF h conjI [OF n e]]])
qed

text \<open>
  C2 as stated fails on six observed days out of seven, already in UTC: one missing
  day over six observed dates is 16.7 percent, fair, where one missing day over the seven
  days of the range would be 14.3 percent, good. In Berlin it fails on the thirteen
  batches around the start of daylight saving time too: the missing day is entered
  twice, and two entries over thirteen observed dates are 15.4 percent, fair, where both
  one day over the fourteen days of the range and one day over the thirteen observed
  dates are good.
\<close>

theorem dataQuality_range_fraction_fails:
  "map_option (map_sum id (\<lambda>s. dataQuality (metadata s)))
     (generateForecastSummary UTC '''' week_gap 10) = Some (Inr Fair) \<and>
   claimed_dataQuality week_gap = Good \<and>
   map_option (map_sum id (\<lambda>s. (missingDates (metadata s), dataQuality (metadata s))))
     (generateForecastSummary Europe_Berlin_2026 '''' spring_fortnight 10) =
     Some (Inr ([20541, 20541], Fair)) \<and>
   claimed_dataQuality spring_fortnight = Good \<and>
   observed_grade spring_fortnight = Good"
proof -
  have z: "\<forall>t b. UTC t b = 0" by (simp add: UTC_def)
  have h: "concat (map DailySales.records week_gap) \<noteq> []" by (simp add: week_gap_def)
  have p: "(0 :: nat) < 10" by simp
  from summary_fixed_offset [OF h p z, of "''''"] week_gap_observed
  have a: "map_option (map_sum id (\<lambda>s. dataQuality (metadata s)))
     (generateForecastSummary UTC '''' week_gap 10) = Some (Inr Fair)"
    by auto
  have h': "concat (map DailySales.records spring_fortnight) \<noteq> []" by (simp add: spring_fortnight_def)
  have m: "findMissingDates Europe_Berlin_2026 (sort (new_Set (map DailySales.date spring_fortnight))) =
      Some [20541, 20541]"
    unfolding spring_dates by (rule spring_missing)
  from generateForecastSummary_returns [OF h' p m, of "''''"] spring_assessed
  have b: "map_option (map_sum id (\<lambda>s. (missingDates (metadata s), dataQuality (metadata s))))
     (generateForecastSummary Europe_Berlin_2026 '''' spring_fortnight 10) =
     Some (Inr ([20541, 20541], Fair))"
    unfolding spring_dates by auto
  from a b week_gap_claimed spring_claimed spring_observed show ?thesis by simp
qed


end
